(* ===== verification/Prelude.thy ===== *)
theory Prelude
  imports Complex_Main "HOL-Library.Word"
begin

text \<open>
  The vocabulary every component of the KubeDTN development shares.

  \<^item> Go's integer types are words of their width; Go's \<open>string\<close> is a byte string, a list of
    characters.
  \<^item> \<open>error\<close> is the type of Go error values. \<open>Inl\<close> carries an error, \<open>Inr\<close> a result.
  \<^item> A Go function with effects is a function \<open>'s \<Rightarrow> 'a out \<times> 's\<close> on an explicit state.
    \<open>Done\<close> is a normal return; \<open>Abort\<close> is a call that does not return: a run-time panic,
    \<open>log.Fatalf\<close> ending the process, or a mutex that is never released.
  \<^item> \<open>preserves\<close>, \<open>unchanged\<close> and \<open>returns\<close> are the three judgements on such functions that the
    components use, each with composition rules collected in \<open>go_rules\<close>.
\<close>

named_theorems go_simps \<open>equations that run the effect combinators\<close>
named_theorems go_rules \<open>composition rules for preserves, unchanged and returns\<close>

type_synonym int32 = "32 word"
type_synonym int64 = "64 word"
type_synonym uint32 = "32 word"
type_synonym uint64 = "64 word"

section \<open>Errors and effects\<close>

datatype error =
    ExtError string
  | NotFound
  | Conflict
  | NumSyntax
  | NumRange
  | InvalidDuration
  | MissingUnit
  | UnknownUnit string
  | ParseError string string
  | Errorf string
  | Wrap string error

text \<open>The text \<open>err.Error()\<close> of an error, as far as the sources inspect it.\<close>

fun error_text :: "error \<Rightarrow> string" where
  "error_text (ExtError m) = m"
| "error_text NotFound = ''not found''"
| "error_text Conflict = ''the object has been modified''"
| "error_text NumSyntax = ''invalid syntax''"
| "error_text NumRange = ''value out of range''"
| "error_text InvalidDuration = ''time: invalid duration''"
| "error_text MissingUnit = ''time: missing unit in duration''"
| "error_text (UnknownUnit u) = ''time: unknown unit '' @ u"
| "error_text (ParseError k t) = ''invalid '' @ k @ '': '' @ t"
| "error_text (Errorf m) = m"
| "error_text (Wrap m e) = m @ error_text e"

datatype abort = Panic string | Fatal string | Blocked

datatype 'a out = Done 'a | Abort abort

type_synonym ('s, 'a) go = "'s \<Rightarrow> 'a out \<times> 's"

definition ret :: "'a \<Rightarrow> ('s, 'a) go" where
  "ret a = (\<lambda>s. (Done a, s))"

definition halt :: "abort \<Rightarrow> ('s, 'a) go" where
  "halt x = (\<lambda>s. (Abort x, s))"

definition bnd :: "('s, 'a) go \<Rightarrow> ('a \<Rightarrow> ('s, 'b) go) \<Rightarrow> ('s, 'b) go" where
  "bnd m f = (\<lambda>s. case m s of (Done a, t) \<Rightarrow> f a t | (Abort x, t) \<Rightarrow> (Abort x, t))"

text \<open>
  \<open>v, err := m; if err != nil { return ..., err }\<close> is \<open>orelse m f\<close>, and the same for a call that
  returns only an error is \<open>check m f\<close>.
\<close>

definition orelse :: "('s, error + 'a) go \<Rightarrow> ('a \<Rightarrow> ('s, error + 'b) go) \<Rightarrow> ('s, error + 'b) go" where
  "orelse m f = bnd m (\<lambda>r. case r of Inl e \<Rightarrow> ret (Inl e) | Inr a \<Rightarrow> f a)"

definition check :: "('s, error option) go \<Rightarrow> ('s, error option) go \<Rightarrow> ('s, error option) go" where
  "check m f = bnd m (\<lambda>r. case r of Some e \<Rightarrow> ret (Some e) | None \<Rightarrow> f)"

definition reads :: "('s \<Rightarrow> 'a) \<Rightarrow> ('s, 'a) go" where
  "reads f = (\<lambda>s. (Done (f s), s))"

definition modify :: "('s \<Rightarrow> 's) \<Rightarrow> ('s, unit) go" where
  "modify f = (\<lambda>s. (Done (), f s))"

text \<open>An operation of an external library, which always returns but may change its state.\<close>

definition ext :: "('s \<Rightarrow> 'a \<times> 's) \<Rightarrow> ('s, 'a) go" where
  "ext f = (\<lambda>s. case f s of (a, t) \<Rightarrow> (Done a, t))"

text \<open>Running a component's operation on its part of a larger state.\<close>

definition zoom :: "('s \<Rightarrow> 't) \<Rightarrow> ('t \<Rightarrow> 's \<Rightarrow> 's) \<Rightarrow> ('t, 'a) go \<Rightarrow> ('s, 'a) go" where
  "zoom get put m = (\<lambda>s. case m (get s) of (r, t) \<Rightarrow> (r, put t s))"

text \<open>The same error propagation for a pure parser.\<close>

definition sbind :: "error + 'a \<Rightarrow> ('a \<Rightarrow> error + 'b) \<Rightarrow> error + 'b" where
  "sbind r f = (case r of Inl e \<Rightarrow> Inl e | Inr a \<Rightarrow> f a)"

lemma sbind_simps [simp]: "sbind (Inl e) f = Inl e" "sbind (Inr a) f = f a"
  by (simp_all add: sbind_def)

lemma sbind_Inr_iff: "sbind r f = Inr b \<longleftrightarrow> (\<exists>a. r = Inr a \<and> f a = Inr b)"
  by (cases r) simp_all

definition ok :: "error + 'a \<Rightarrow> bool" where
  "ok r \<longleftrightarrow> (case r of Inl _ \<Rightarrow> False | Inr _ \<Rightarrow> True)"

lemma ok_simps [simp]: "ok (Inr a)" "\<not> ok (Inl e)"
  by (simp_all add: ok_def)

lemma ok_sbind: "ok (sbind r f) \<longleftrightarrow> (\<exists>a. r = Inr a \<and> ok (f a))"
  by (cases r) simp_all

lemma ok_ex: "(\<exists>a. r = Inr a \<and> C) \<longleftrightarrow> ok r \<and> C" "(\<exists>a. r = Inr a) \<longleftrightarrow> ok r"
  by (cases r; simp)+

lemma ret_run [go_simps]: "ret a s = (Done a, s)"
  by (simp add: ret_def)

lemma halt_run [go_simps]: "halt x s = (Abort x, s)"
  by (simp add: halt_def)

lemma reads_run [simp, go_simps]: "reads f s = (Done (f s), s)"
  by (simp add: reads_def)

lemma modify_run [simp, go_simps]: "modify f s = (Done (), f s)"
  by (simp add: modify_def)

lemma bnd_Done [simp, go_simps]: "m s = (Done a, t) \<Longrightarrow> bnd m f s = f a t"
  by (simp add: bnd_def)

lemma bnd_Abort [simp, go_simps]: "m s = (Abort x, t) \<Longrightarrow> bnd m f s = (Abort x, t)"
  by (simp add: bnd_def)

lemma bnd_ret [simp, go_simps]: "bnd (ret a) f = f a"
  by (simp add: bnd_def ret_def)

lemma bnd_halt [simp, go_simps]: "bnd (halt x) f = halt x"
  by (simp add: bnd_def halt_def)

lemma bnd_bnd: "bnd (bnd m f) g = bnd m (\<lambda>a. bnd (f a) g)"
  by (auto simp: bnd_def fun_eq_iff split: prod.splits out.splits)

lemma bnd_cases:
  assumes "bnd m f s = (r, u)"
  obtains (Done) a t where "m s = (Done a, t)" "f a t = (r, u)"
  | (Abort) x where "m s = (Abort x, u)" "r = Abort x"
  using assms by (auto simp: bnd_def split: prod.splits out.splits)

lemma orelse_Inr [simp, go_simps]: "m s = (Done (Inr a), t) \<Longrightarrow> orelse m f s = f a t"
  by (simp add: orelse_def)

lemma orelse_Inl [simp, go_simps]: "m s = (Done (Inl e), t) \<Longrightarrow> orelse m f s = (Done (Inl e), t)"
  by (simp add: orelse_def ret_run)

lemma check_None [simp, go_simps]: "m s = (Done None, t) \<Longrightarrow> check m f s = f t"
  by (simp add: check_def)

lemma check_Some [simp, go_simps]: "m s = (Done (Some e), t) \<Longrightarrow> check m f s = (Done (Some e), t)"
  by (simp add: check_def ret_run)

lemma ext_run [go_simps]: "ext f s = (Done (fst (f s)), snd (f s))"
  by (simp add: ext_def split: prod.splits)

lemma bnd_ext [go_simps]: "bnd (ext f) g s = g (fst (f s)) (snd (f s))"
  by (simp add: bnd_def ext_def split: prod.splits)

lemma bnd_reads [go_simps]: "bnd (reads f) g s = g (f s) s"
  by (simp add: bnd_def reads_def)

lemma bnd_modify [go_simps]: "bnd (modify f) g s = g () (f s)"
  by (simp add: bnd_def modify_def)

lemma check_ret [simp, go_simps]: "check (ret None) f = f" "check (ret (Some e)) f = ret (Some e)"
  by (simp_all add: check_def)

lemma orelse_ret [simp, go_simps]: "orelse (ret (Inr a)) f = f a" "orelse (ret (Inl e)) f = ret (Inl e)"
  by (simp_all add: orelse_def)

lemma zoom_run [go_simps]: "zoom get put m s = (fst (m (get s)), put (snd (m (get s))) s)"
  by (simp add: zoom_def split: prod.splits)

section \<open>Judgements on effectful functions\<close>

definition preserves :: "('s \<Rightarrow> bool) \<Rightarrow> ('s, 'a) go \<Rightarrow> bool" where
  "preserves I m \<longleftrightarrow> (\<forall>s. I s \<longrightarrow> I (snd (m s)))"

definition unchanged :: "('s \<Rightarrow> 'b) \<Rightarrow> ('s, 'a) go \<Rightarrow> bool" where
  "unchanged f m \<longleftrightarrow> (\<forall>s. f (snd (m s)) = f s)"

definition returns :: "('s, 'a) go \<Rightarrow> bool" where
  "returns m \<longleftrightarrow> (\<forall>s. \<exists>a. fst (m s) = Done a)"

lemma preservesD: "preserves I m \<Longrightarrow> m s = (r, t) \<Longrightarrow> I s \<Longrightarrow> I t"
  by (metis preserves_def snd_conv)

lemma unchangedD: "unchanged f m \<Longrightarrow> m s = (r, t) \<Longrightarrow> f t = f s"
  by (metis unchanged_def snd_conv)

lemma returnsD: "returns m \<Longrightarrow> \<exists>a t. m s = (Done a, t)"
  by (metis returns_def prod.collapse)

lemma preserves_ret [simp, go_rules]: "preserves I (ret a)"
  by (simp add: preserves_def ret_run)

lemma preserves_halt [simp, go_rules]: "preserves I (halt x)"
  by (simp add: preserves_def halt_run)

lemma preserves_reads [simp, go_rules]: "preserves I (reads f)"
  by (simp add: preserves_def)

lemma preserves_bnd [go_rules]:
  assumes "preserves I m" "\<And>a. preserves I (f a)"
  shows "preserves I (bnd m f)"
  using assms by (auto simp: preserves_def bnd_def split: prod.splits out.splits)

lemma preserves_orelse [go_rules]:
  "preserves I m \<Longrightarrow> (\<And>a. preserves I (f a)) \<Longrightarrow> preserves I (orelse m f)"
  unfolding orelse_def by (rule preserves_bnd) (auto split: sum.splits)

lemma preserves_check [go_rules]:
  "preserves I m \<Longrightarrow> preserves I f \<Longrightarrow> preserves I (check m f)"
  unfolding check_def by (rule preserves_bnd) (auto split: option.splits)

lemma unchanged_ret [simp, go_rules]: "unchanged f (ret a)"
  by (simp add: unchanged_def ret_run)

lemma unchanged_halt [simp, go_rules]: "unchanged f (halt x)"
  by (simp add: unchanged_def halt_run)

lemma unchanged_reads [simp, go_rules]: "unchanged f (reads g)"
  by (simp add: unchanged_def)

lemma unchanged_bnd [go_rules]:
  assumes "unchanged f m" "\<And>a. unchanged f (g a)"
  shows "unchanged f (bnd m g)"
  unfolding unchanged_def
proof
  fix s
  obtain r u where run: "bnd m g s = (r, u)" by (cases "bnd m g s")
  then show "f (snd (bnd m g s)) = f s"
  proof (cases rule: bnd_cases)
    case (Done a t)
    with assms show ?thesis by (metis run snd_conv unchangedD)
  next
    case (Abort x)
    with assms show ?thesis by (metis run snd_conv unchangedD)
  qed
qed

lemma unchanged_orelse [go_rules]:
  "unchanged f m \<Longrightarrow> (\<And>a. unchanged f (g a)) \<Longrightarrow> unchanged f (orelse m g)"
  unfolding orelse_def by (rule unchanged_bnd) (auto split: sum.splits)

lemma unchanged_check [go_rules]:
  "unchanged f m \<Longrightarrow> unchanged f g \<Longrightarrow> unchanged f (check m g)"
  unfolding check_def by (rule unchanged_bnd) (auto split: option.splits)

lemma returns_ret [simp, go_rules]: "returns (ret a)"
  by (simp add: returns_def ret_run)

lemma returns_reads [simp, go_rules]: "returns (reads f)"
  by (simp add: returns_def)

lemma returns_modify [simp, go_rules]: "returns (modify f)"
  by (simp add: returns_def)

lemma returns_ext [simp, go_rules]: "returns (ext f)"
  by (simp add: returns_def ext_run)

lemma returns_bnd [go_rules]:
  assumes "returns m" "\<And>a. returns (f a)"
  shows "returns (bnd m f)"
  unfolding returns_def
proof
  fix s
  obtain a t where "m s = (Done a, t)" using returnsD [OF assms(1)] by blast
  with assms(2) show "\<exists>b. fst (bnd m f s) = Done b" by (simp add: returns_def)
qed

lemma returns_orelse [go_rules]:
  "returns m \<Longrightarrow> (\<And>a. returns (f a)) \<Longrightarrow> returns (orelse m f)"
  unfolding orelse_def by (rule returns_bnd) (auto split: sum.splits)

lemma returns_check [go_rules]: "returns m \<Longrightarrow> returns f \<Longrightarrow> returns (check m f)"
  unfolding check_def by (rule returns_bnd) (auto split: option.splits)

lemma returns_zoom [go_rules]: "returns m \<Longrightarrow> returns (zoom get put m)"
  by (simp add: returns_def zoom_run)

section \<open>Words\<close>

lemma unat_of_nat64: "unat (of_nat n :: uint64) = n mod 2 ^ 64"
  by (simp add: unat_of_nat)

lemma unat_of_nat32: "unat (of_nat n :: uint32) = n mod 2 ^ 32"
  by (simp add: unat_of_nat)

lemma unat_ucast_64_32: "unat (ucast (w :: uint64) :: uint32) = unat w mod 2 ^ 32"
  by (simp add: unsigned_ucast_eq take_bit_eq_mod)

end
