(* ===== verification/GoStrings.thy ===== *)
theory GoStrings
  imports Prelude
begin

text \<open>
  The parts of Go's standard library for text that the sources call: \<open>strings.HasPrefix\<close>,
  \<open>HasSuffix\<close>, \<open>TrimPrefix\<close>, \<open>TrimSuffix\<close>, \<open>Contains\<close>, \<open>ToLower\<close>, \<open>TrimSpace\<close>,
  \<open>strconv.ParseUint\<close> in base 10 and the decimal formatting of \<open>fmt\<close>. Strings are byte strings.
  \<open>ToLower\<close> and \<open>TrimSpace\<close> treat ASCII bytes; the strings the program passes to them are
  ASCII, and bytes above 127 are left alone here.
\<close>

section \<open>Prefixes, suffixes and substrings\<close>

definition HasPrefix :: "string \<Rightarrow> string \<Rightarrow> bool" where
  "HasPrefix s p \<longleftrightarrow> length p \<le> length s \<and> take (length p) s = p"

definition HasSuffix :: "string \<Rightarrow> string \<Rightarrow> bool" where
  "HasSuffix s p \<longleftrightarrow> length p \<le> length s \<and> drop (length s - length p) s = p"

definition TrimPrefix :: "string \<Rightarrow> string \<Rightarrow> string" where
  "TrimPrefix s p = (if HasPrefix s p then drop (length p) s else s)"

definition TrimSuffix :: "string \<Rightarrow> string \<Rightarrow> string" where
  "TrimSuffix s p = (if HasSuffix s p then take (length s - length p) s else s)"

fun Contains :: "string \<Rightarrow> string \<Rightarrow> bool" where
  "Contains [] p = (p = [])"
| "Contains (c # s) p = (HasPrefix (c # s) p \<or> Contains s p)"

lemma HasPrefix_append [simp]: "HasPrefix (p @ s) p"
  by (simp add: HasPrefix_def)

lemma HasPrefixE: "HasPrefix s p \<Longrightarrow> \<exists>r. s = p @ r"
  by (metis HasPrefix_def append_take_drop_id)

lemma TrimPrefix_append [simp]: "TrimPrefix (p @ s) p = s"
  by (simp add: TrimPrefix_def)

lemma HasSuffix_append [simp]: "HasSuffix (s @ p) p"
  by (simp add: HasSuffix_def)

lemma TrimSuffix_append [simp]: "TrimSuffix (s @ p) p = s"
  by (simp add: TrimSuffix_def)

lemma HasSuffix_iff: "HasSuffix s p \<longleftrightarrow> (\<exists>r. s = r @ p)"
  by (metis HasSuffix_append HasSuffix_def append_take_drop_id)

lemma HasSuffix_snoc: "HasSuffix (s @ [c]) (p @ [d]) \<longleftrightarrow> c = d \<and> HasSuffix s p"
  by (auto simp: HasSuffix_iff)

lemma HasSuffix_single: "HasSuffix s [c] \<longleftrightarrow> s \<noteq> [] \<and> last s = c"
  by (metis HasSuffix_iff append_butlast_last_id last_snoc snoc_eq_iff_butlast)

lemma HasSuffix_last: "HasSuffix s p \<Longrightarrow> p \<noteq> [] \<Longrightarrow> s \<noteq> [] \<and> last s = last p"
  by (auto simp: HasSuffix_iff)

lemma not_HasSuffix_last: "last s \<noteq> last p \<Longrightarrow> p \<noteq> [] \<Longrightarrow> \<not> HasSuffix s p"
  using HasSuffix_last by blast

section \<open>Characters\<close>

abbreviation code :: "char \<Rightarrow> nat" where
  "code c \<equiv> of_char c"

definition is_digit :: "char \<Rightarrow> bool" where
  "is_digit c \<longleftrightarrow> 48 \<le> code c \<and> code c \<le> 57"

definition digit_val :: "char \<Rightarrow> nat" where
  "digit_val c = code c - 48"

definition lower_char :: "char \<Rightarrow> char" where
  "lower_char c = (if 65 \<le> code c \<and> code c \<le> 90 then char_of (code c + 32) else c)"

definition ToLower :: "string \<Rightarrow> string" where
  "ToLower s = map lower_char s"

definition is_space :: "char \<Rightarrow> bool" where
  "is_space c \<longleftrightarrow> code c = 32 \<or> (9 \<le> code c \<and> code c \<le> 13)"

definition TrimSpace :: "string \<Rightarrow> string" where
  "TrimSpace s = rev (dropWhile is_space (rev (dropWhile is_space s)))"

lemma lower_char_digit [simp]: "is_digit c \<Longrightarrow> lower_char c = c"
  by (simp add: is_digit_def lower_char_def)

lemma digit_not_space [simp]: "is_digit c \<Longrightarrow> \<not> is_space c"
  by (simp add: is_digit_def is_space_def)

lemma digit_val_le: "is_digit c \<Longrightarrow> digit_val c \<le> 9"
  unfolding is_digit_def digit_val_def by linarith

lemma ToLower_append [simp]: "ToLower (s @ t) = ToLower s @ ToLower t"
  by (simp add: ToLower_def)

lemma ToLower_digits [simp]: "list_all is_digit s \<Longrightarrow> ToLower s = s"
  by (simp add: ToLower_def list_all_iff map_idI)

lemma TrimSpace_id:
  assumes "s = [] \<or> (\<not> is_space (hd s) \<and> \<not> is_space (last s))"
  shows "TrimSpace s = s"
proof (cases s)
  case Nil
  then show ?thesis by (simp add: TrimSpace_def)
next
  case (Cons c t)
  with assms have hd: "dropWhile is_space s = s" by simp
  have "rev s = last s # rev (butlast s)"
    using Cons by (metis append_butlast_last_id list.distinct(1) rev.simps(2) rev_rev_ident)
  with assms Cons have "dropWhile is_space (rev s) = rev s" by simp
  with hd show ?thesis by (simp add: TrimSpace_def)
qed

section \<open>Decimal numbers\<close>

definition dec_val :: "string \<Rightarrow> nat" where
  "dec_val s = foldl (\<lambda>a c. a * 10 + digit_val c) 0 s"

fun nat_str :: "nat \<Rightarrow> string" where
  "nat_str n = (if n < 10 then [char_of (48 + n)] else nat_str (n div 10) @ [char_of (48 + n mod 10)])"

declare nat_str.simps [simp del]

text \<open>The loop of \<open>strconv.ParseUint(s, 10, 64)\<close>, with its two overflow tests.\<close>

fun parse_uint_loop :: "string \<Rightarrow> nat \<Rightarrow> error + uint64" where
  "parse_uint_loop [] n = Inr (of_nat n)"
| "parse_uint_loop (c # s) n =
     (if \<not> is_digit c then Inl NumSyntax
      else if n \<ge> (2 ^ 64 - 1) div 10 + 1 then Inl NumRange
      else if n * 10 + digit_val c \<ge> 2 ^ 64 then Inl NumRange
      else parse_uint_loop s (n * 10 + digit_val c))"

definition ParseUint :: "string \<Rightarrow> error + uint64" where
  "ParseUint s = (if s = [] then Inl NumSyntax else parse_uint_loop s 0)"

lemma foldl_dec_ge: "n \<le> foldl (\<lambda>a c. a * 10 + digit_val c) n s"
proof (induction s arbitrary: n)
  case (Cons c s)
  have "n \<le> n * 10 + digit_val c" by simp
  also have "\<dots> \<le> foldl (\<lambda>a c. a * 10 + digit_val c) (n * 10 + digit_val c) s" by (rule Cons)
  finally show ?case by simp
qed simp

lemma parse_uint_loop_digits:
  assumes "list_all is_digit s" "n < 2 ^ 64"
  shows "parse_uint_loop s n =
    (if foldl (\<lambda>a c. a * 10 + digit_val c) n s < 2 ^ 64
     then Inr (of_nat (foldl (\<lambda>a c. a * 10 + digit_val c) n s)) else Inl NumRange)"
  using assms
proof (induction s arbitrary: n)
  case (Cons c s)
  let ?m = "n * 10 + digit_val c"
  have ge: "?m \<le> foldl (\<lambda>a c. a * 10 + digit_val c) ?m s" by (rule foldl_dec_ge)
  show ?case
  proof (cases "?m < 2 ^ 64")
    case True
    then have "n < (2 ^ 64 - 1) div 10 + 1" by simp
    with True Cons show ?thesis by simp
  next
    case False
    with ge have big: "\<not> foldl (\<lambda>a c. a * 10 + digit_val c) ?m s < 2 ^ 64" by linarith
    from False Cons.prems have "parse_uint_loop (c # s) n = Inl NumRange" by simp
    with big show ?thesis by simp
  qed
qed simp

lemma parse_uint_loop_nondigit:
  "\<not> list_all is_digit s \<Longrightarrow> \<exists>e. parse_uint_loop s n = Inl e"
  by (induction s arbitrary: n) auto

lemma ParseUint_digits:
  "s \<noteq> [] \<Longrightarrow> list_all is_digit s \<Longrightarrow>
   ParseUint s = (if dec_val s < 2 ^ 64 then Inr (of_nat (dec_val s)) else Inl NumRange)"
  using parse_uint_loop_digits [of s 0] by (simp add: ParseUint_def dec_val_def)

lemma ParseUint_nondigit: "\<not> list_all is_digit s \<Longrightarrow> \<exists>e. ParseUint s = Inl e"
  using parse_uint_loop_nondigit by (auto simp: ParseUint_def)

lemma ParseUint_Inr_iff:
  "ParseUint s = Inr w \<longleftrightarrow>
     s \<noteq> [] \<and> list_all is_digit s \<and> dec_val s < 2 ^ 64 \<and> w = of_nat (dec_val s)"
proof (cases "s \<noteq> [] \<and> list_all is_digit s")
  case True
  then show ?thesis using ParseUint_digits [of s] by auto
next
  case False
  then have "\<exists>e. ParseUint s = Inl e"
    using ParseUint_nondigit [of s] by (cases "s = []") (auto simp: ParseUint_def)
  with False show ?thesis by auto
qed

lemma dec_val_snoc: "dec_val (s @ [c]) = dec_val s * 10 + digit_val c"
  by (simp add: dec_val_def)

lemma digit_char: "n < 10 \<Longrightarrow> is_digit (char_of (48 + n)) \<and> digit_val (char_of (48 + n)) = n"
  by (simp add: is_digit_def digit_val_def)

lemma nat_str_spec: "nat_str n \<noteq> [] \<and> list_all is_digit (nat_str n) \<and> dec_val (nat_str n) = n"
proof (induction n rule: nat_str.induct)
  case (1 n)
  show ?case
  proof (cases "n < 10")
    case True
    then show ?thesis by (simp add: nat_str.simps [of n] dec_val_def digit_char)
  next
    case False
    with 1 show ?thesis
      by (simp add: nat_str.simps [of n] dec_val_snoc digit_char mod_less_divisor)
  qed
qed

lemma nat_str_nonempty [simp]: "nat_str n \<noteq> []"
  and nat_str_digits [simp]: "list_all is_digit (nat_str n)"
  and dec_val_nat_str [simp]: "dec_val (nat_str n) = n"
  using nat_str_spec by blast+

lemma nat_str_inject [simp]: "nat_str m = nat_str n \<longleftrightarrow> m = n"
  by (metis dec_val_nat_str)

lemma ParseUint_nat_str: "n < 2 ^ 64 \<Longrightarrow> ParseUint (nat_str n) = Inr (of_nat n)"
  by (simp add: ParseUint_digits)

lemma nat_str_length_le: "n < 10 ^ k \<Longrightarrow> 0 < k \<Longrightarrow> length (nat_str n) \<le> k"
proof (induction n arbitrary: k rule: nat_str.induct)
  case (1 n)
  show ?case
  proof (cases "n < 10")
    case True
    with "1.prems" show ?thesis by (simp add: nat_str.simps [of n])
  next
    case False
    with "1.prems" have k: "1 < k" by (metis One_nat_def Suc_lessI power_one_right)
    with "1.prems" have "n div 10 < 10 ^ (k - 1)"
      by (simp add: less_mult_imp_div_less mult.commute power_eq_if)
    with "1.IH" [OF False, of "k - 1"] False k show ?thesis
      by (simp add: nat_str.simps [of n])
  qed
qed

text \<open>\<open>%0kd\<close>: decimal, padded with zeros to \<open>k\<close> places.\<close>

definition pad_zero :: "nat \<Rightarrow> string \<Rightarrow> string" where
  "pad_zero k s = replicate (k - length s) (CHR ''0'') @ s"

lemma dec_val_replicate_zero: "dec_val (replicate k (CHR ''0'') @ s) = dec_val s"
proof (induction k)
  case (Suc k)
  have "dec_val (CHR ''0'' # t) = dec_val t" for t
    by (simp add: dec_val_def digit_val_def)
  with Suc show ?case by simp
qed simp

lemma dec_val_pad_zero [simp]: "dec_val (pad_zero k s) = dec_val s"
  by (simp add: pad_zero_def dec_val_replicate_zero)

lemma pad_zero_digits: "list_all is_digit s \<Longrightarrow> list_all is_digit (pad_zero k s)"
  by (auto simp: pad_zero_def list_all_iff is_digit_def)

lemma length_pad_zero: "length (pad_zero k s) = max k (length s)"
  by (simp add: pad_zero_def)

section \<open>Splitting and joining\<close>

text \<open>\<open>strings.Split\<close> at a character and \<open>strings.Join\<close>.\<close>

fun split_on :: "char \<Rightarrow> string \<Rightarrow> string list" where
  "split_on c [] = [[]]"
| "split_on c (x # xs) = (if x = c then [] # split_on c xs else
     (case split_on c xs of [] \<Rightarrow> [[x]] | y # ys \<Rightarrow> (x # y) # ys))"

fun join_with :: "string \<Rightarrow> string list \<Rightarrow> string" where
  "join_with sep [] = []"
| "join_with sep [x] = x"
| "join_with sep (x # y # ys) = x @ sep @ join_with sep (y # ys)"

section \<open>Paths\<close>

text \<open>\<open>filepath.Clean\<close> and \<open>filepath.Join\<close> on Unix.\<close>

definition clean_step :: "bool \<Rightarrow> string list \<Rightarrow> string \<Rightarrow> string list" where
  "clean_step rooted out elem =
     (if elem = [] \<or> elem = ''.'' then out
      else if elem = ''..'' then
        (case out of
           [] \<Rightarrow> if rooted then [] else [''..'']
         | x # xs \<Rightarrow> if x = ''..'' then ''..'' # out else xs)
      else elem # out)"

definition filepath_Clean :: "string \<Rightarrow> string" where
  "filepath_Clean path =
     (let rooted = (path \<noteq> [] \<and> hd path = CHR ''/'');
          body = join_with ''/'' (rev (foldl (clean_step rooted) [] (split_on (CHR ''/'') path)))
      in if rooted then ''/'' @ body else if body = [] then ''.'' else body)"

definition filepath_Join :: "string list \<Rightarrow> string" where
  "filepath_Join elems =
     (case dropWhile (\<lambda>e. e = []) elems of [] \<Rightarrow> [] | es \<Rightarrow> filepath_Clean (join_with ''/'' es))"

end
