(* ===== verification/GoNumeric.thy ===== *)
theory GoNumeric
  imports GoStrings
begin

text \<open>
  \<open>strconv.ParseFloat(s, 32)\<close> and \<open>time.ParseDuration\<close> of Go's standard library (Go 1.19), as the
  link-property parsers use them. Floating-point values are rationals rounded to nearest, ties to
  even, by \<open>fround\<close>: 24 bits for \<open>float32\<close> and 53 for the \<open>float64\<close> arithmetic inside
  \<open>ParseDuration\<close>. The sign of a zero is not kept.
\<close>

section \<open>Rounding to binary floating point\<close>

fun bits :: "nat \<Rightarrow> nat" where
  "bits n = (if n = 0 then 0 else Suc (bits (n div 2)))"

declare bits.simps [simp del]

definition scale2 :: "int \<Rightarrow> rat" where
  "scale2 e = (if 0 \<le> e then 2 ^ nat e else 1 / 2 ^ nat (- e))"

definition log2_floor :: "nat \<Rightarrow> nat \<Rightarrow> int" where
  "log2_floor num den =
     (let k = int (bits num) - int (bits den)
      in if scale2 k \<le> of_nat num / of_nat den then k else k - 1)"

text \<open>The quotient \<open>a / b\<close> to the nearest integer, ties to even.\<close>

definition div_even :: "nat \<Rightarrow> nat \<Rightarrow> nat" where
  "div_even a b =
     (let q = a div b; r = a mod b
      in if b < 2 * r \<or> (2 * r = b \<and> odd q) then q + 1 else q)"

definition fround :: "nat \<Rightarrow> int \<Rightarrow> nat \<Rightarrow> nat \<Rightarrow> rat" where
  "fround p emin num den =
     (if num = 0 then 0
      else let e = max (log2_floor num den - (int p - 1)) emin
           in if 0 \<le> e then of_nat (div_even num (den * 2 ^ nat e)) * 2 ^ nat e
              else of_nat (div_even (num * 2 ^ nat (- e)) den) / 2 ^ nat (- e))"

lemma fround_nonneg: "0 \<le> fround p emin num den"
  by (simp add: fround_def Let_def)

section \<open>strconv.ParseFloat\<close>

datatype fval = NaN | Inf bool | Fin rat

definition hex_val :: "char \<Rightarrow> nat option" where
  "hex_val c =
     (if is_digit c then Some (digit_val c)
      else if 97 \<le> code (lower_char c) \<and> code (lower_char c) \<le> 102
           then Some (code (lower_char c) - 87) else None)"

definition base_digit :: "nat \<Rightarrow> char \<Rightarrow> nat option" where
  "base_digit base c =
     (if is_digit c then Some (digit_val c) else if base = 16 then hex_val c else None)"

text \<open>
  The mantissa loop of \<open>readFloat\<close>: mantissa, digits after the point, whether a digit and whether an
  underscore was seen, and the rest of the text.
\<close>

fun scan_mant :: "nat \<Rightarrow> string \<Rightarrow> nat \<Rightarrow> nat \<Rightarrow> bool \<Rightarrow> bool \<Rightarrow> bool
    \<Rightarrow> nat \<times> nat \<times> bool \<times> bool \<times> string" where
  "scan_mant base [] m f dot dig und = (m, f, dig, und, [])"
| "scan_mant base (c # s) m f dot dig und =
     (if c = CHR ''_'' then scan_mant base s m f dot dig True
      else if c = CHR ''.'' then
        (if dot then (m, f, dig, und, c # s) else scan_mant base s m f True dig und)
      else case base_digit base c of
             Some d \<Rightarrow> scan_mant base s (m * base + d) (if dot then f + 1 else f) dot True und
           | None \<Rightarrow> (m, f, dig, und, c # s))"

text \<open>The exponent loop: value (it stops growing at 10000), underscore seen, rest.\<close>

fun scan_exp :: "string \<Rightarrow> nat \<Rightarrow> bool \<Rightarrow> nat \<times> bool \<times> string" where
  "scan_exp [] e und = (e, und, [])"
| "scan_exp (c # s) e und =
     (if c = CHR ''_'' then scan_exp s e True
      else if is_digit c then scan_exp s (if e < 10000 then e * 10 + digit_val c else e) und
      else (e, und, c # s))"

fun underscore_loop :: "bool \<Rightarrow> string \<Rightarrow> char \<Rightarrow> bool" where
  "underscore_loop hex [] saw = (saw \<noteq> CHR ''_'')"
| "underscore_loop hex (c # s) saw =
     (if is_digit c \<or> (hex \<and> hex_val c \<noteq> None) then underscore_loop hex s (CHR ''0'')
      else if c = CHR ''_'' then (if saw \<noteq> CHR ''0'' then False else underscore_loop hex s (CHR ''_''))
      else if saw = CHR ''_'' then False
      else underscore_loop hex s (CHR ''!''))"

definition drop_sign :: "string \<Rightarrow> string" where
  "drop_sign s = (if s \<noteq> [] \<and> (hd s = CHR ''-'' \<or> hd s = CHR ''+'') then tl s else s)"

definition underscoreOK :: "string \<Rightarrow> bool" where
  "underscoreOK s =
     (let t = drop_sign s
      in if length t \<ge> 2 \<and> hd t = CHR ''0'' \<and> lower_char (t ! 1) \<in> {CHR ''b'', CHR ''o'', CHR ''x''}
         then underscore_loop (lower_char (t ! 1) = CHR ''x'') (drop 2 t) (CHR ''0'')
         else underscore_loop False t (CHR ''^''))"

text \<open>The exponent part: \<open>None\<close> for a malformed one.\<close>

definition read_exp :: "char \<Rightarrow> string \<Rightarrow> (int \<times> bool \<times> string) option" where
  "read_exp mark s =
     (if s = [] \<or> lower_char (hd s) \<noteq> mark then None
      else let t = tl s;
               neg = (t \<noteq> [] \<and> hd t = CHR ''-'');
               u = drop_sign t
           in if u = [] \<or> \<not> is_digit (hd u) then None
              else case scan_exp u 0 False of
                     (e, und, rest) \<Rightarrow> Some (if neg then - int e else int e, und, rest))"

text \<open>Sign, numerator and denominator of a decimal or hexadecimal literal.\<close>

definition read_float :: "string \<Rightarrow> (bool \<times> nat \<times> nat) option" where
  "read_float s =
     (if s = [] then None
      else let neg = (hd s = CHR ''-'');
               t = drop_sign s;
               hex = (length t > 2 \<and> hd t = CHR ''0'' \<and> lower_char (t ! 1) = CHR ''x'');
               base = (if hex then 16 else 10);
               body = (if hex then drop 2 t else t)
           in case scan_mant base body 0 0 False False False of
                (m, f, dig, und, rest) \<Rightarrow>
                  if \<not> dig then None
                  else let ex = read_exp (if hex then CHR ''p'' else CHR ''e'') rest;
                           marked = (rest \<noteq> [] \<and> lower_char (hd rest) = (if hex then CHR ''p'' else CHR ''e''))
                       in if hex \<and> \<not> marked then None
                          else if marked \<and> ex = None then None
                          else case (if marked then the ex else (0, False, rest)) of
                                 (e, und2, rest2) \<Rightarrow>
                                   if rest2 \<noteq> [] \<or> ((und \<or> und2) \<and> \<not> underscoreOK s) then None
                                   else let b2 = (if hex then 2 else 10)
                                        in Some (neg, m * (if 0 \<le> e then b2 ^ nat e else 1),
                                                 base ^ f * (if 0 \<le> e then 1 else b2 ^ nat (- e))))"

definition special :: "string \<Rightarrow> fval option" where
  "special s =
     (let t = ToLower s; u = drop_sign t
      in if t = ''nan'' then Some NaN
         else if u = ''inf'' \<or> u = ''infinity'' then Some (Inf (t \<noteq> [] \<and> hd t = CHR ''-''))
         else None)"

definition float32_max_plus :: rat where
  "float32_max_plus = 2 ^ 128"

definition ParseFloat32 :: "string \<Rightarrow> error + fval" where
  "ParseFloat32 s =
     (case special s of
        Some v \<Rightarrow> Inr v
      | None \<Rightarrow>
          (case read_float s of
             None \<Rightarrow> Inl NumSyntax
           | Some (neg, num, den) \<Rightarrow>
               (let x = fround 24 (- 149) num den
                in if float32_max_plus \<le> x then Inl NumRange
                   else Inr (Fin (if neg then - x else x)))))"

section \<open>time.ParseDuration\<close>

text \<open>\<open>leadingInt\<close> on the digits it consumes; \<open>None\<close> on overflow.\<close>

fun leading_int :: "string \<Rightarrow> nat \<Rightarrow> nat option" where
  "leading_int [] x = Some x"
| "leading_int (c # s) x =
     (if x > 2 ^ 63 div 10 then None
      else let y = x * 10 + digit_val c in if y > 2 ^ 63 then None else leading_int s y)"

text \<open>\<open>leadingFraction\<close> on the digits it consumes: the number and how many digits it took.\<close>

fun leading_fraction :: "string \<Rightarrow> nat \<Rightarrow> nat \<Rightarrow> nat \<times> nat" where
  "leading_fraction [] x k = (x, k)"
| "leading_fraction (c # s) x k =
     (if x > (2 ^ 63 - 1) div 10 then (x, k)
      else let y = x * 10 + digit_val c
           in if y > 2 ^ 63 then (x, k) else leading_fraction s y (k + 1))"

definition unitMap :: "string \<Rightarrow> nat option" where
  "unitMap u =
     (if u = ''ns'' then Some 1
      else if u = ''us'' then Some 1000
      else if u = [CHR 0xC2, CHR 0xB5, CHR ''s''] then Some 1000
      else if u = [CHR 0xCE, CHR 0xBC, CHR ''s''] then Some 1000
      else if u = ''ms'' then Some 1000000
      else if u = ''s'' then Some 1000000000
      else if u = ''m'' then Some 60000000000
      else if u = ''h'' then Some 3600000000000
      else None)"

definition float64_div :: "nat \<Rightarrow> nat \<Rightarrow> rat" where
  "float64_div a b = fround 53 (- 1074) a b"

text \<open>\<open>uint64(float64(f) * (float64(unit) / scale))\<close> with \<open>scale = 10 ^ k\<close>.\<close>

definition frac_ns :: "nat \<Rightarrow> nat \<Rightarrow> nat \<Rightarrow> nat" where
  "frac_ns f k unit =
     (case (quotient_of (float64_div f 1), quotient_of (float64_div unit (10 ^ k))) of
        ((a, b), (c, d)) \<Rightarrow>
          nat \<lfloor>fround 53 (- 1074) (nat (a * c)) (nat (b * d))\<rfloor>)"

definition unit_char :: "char \<Rightarrow> bool" where
  "unit_char c \<longleftrightarrow> \<not> (c = CHR ''.'' \<or> is_digit c)"

text \<open>One number with its unit: its nanoseconds and the rest of the text.\<close>

definition dur_item :: "string \<Rightarrow> error + nat \<times> string" where
  "dur_item s =
     (if s = [] \<or> unit_char (hd s) then Inl InvalidDuration
      else case leading_int (takeWhile is_digit s) 0 of
             None \<Rightarrow> Inl InvalidDuration
           | Some v \<Rightarrow>
               let s1 = dropWhile is_digit s;
                   dot = (s1 \<noteq> [] \<and> hd s1 = CHR ''.'');
                   fd = (if dot then takeWhile is_digit (tl s1) else []);
                   s2 = (if dot then dropWhile is_digit (tl s1) else s1);
                   u = takeWhile unit_char s2
               in if takeWhile is_digit s = [] \<and> fd = [] then Inl InvalidDuration
                  else if u = [] then Inl MissingUnit
                  else case unitMap u of
                         None \<Rightarrow> Inl (UnknownUnit u)
                       | Some unit \<Rightarrow>
                           if v > 2 ^ 63 div unit then Inl InvalidDuration
                           else let f = fst (leading_fraction fd 0 0);
                                    k = snd (leading_fraction fd 0 0);
                                    v1 = v * unit + (if f > 0 then frac_ns f k unit else 0)
                                in if f > 0 \<and> v1 > 2 ^ 63 then Inl InvalidDuration
                                   else Inr (v1, dropWhile unit_char s2))"

lemma length_dropWhile_less: "takeWhile P s \<noteq> [] \<Longrightarrow> length (dropWhile P s) < length s"
  by (metis length_append length_greater_0_conv less_add_same_cancel2 takeWhile_dropWhile_id)

lemma length_tl_dropWhile: "length (dropWhile P (tl (dropWhile Q s))) \<le> length s"
  by (metis length_dropWhile_le length_tl diff_le_self le_trans)

lemma dur_item_shorter:
  assumes "dur_item s = Inr (v, r)"
  shows "length r < length s"
proof -
  define s1 where "s1 = dropWhile is_digit s"
  define s2 where "s2 = (if s1 \<noteq> [] \<and> hd s1 = CHR ''.'' then dropWhile is_digit (tl s1) else s1)"
  from assms have r: "takeWhile unit_char s2 \<noteq> []" "r = dropWhile unit_char s2"
    unfolding dur_item_def Let_def s1_def [symmetric] s2_def [symmetric]
    by (auto split: if_splits option.splits)
  then have "length r < length s2" using length_dropWhile_less by blast
  also have "length s2 \<le> length s"
    using length_tl_dropWhile length_dropWhile_le by (auto simp: s1_def s2_def)
  finally show ?thesis .
qed

function dur_loop :: "string \<Rightarrow> nat \<Rightarrow> error + nat" where
  "dur_loop s d =
     (if s = [] then Inr d
      else case dur_item s of
             Inl e \<Rightarrow> Inl e
           | Inr (v, r) \<Rightarrow>
               if (d + v) mod 2 ^ 64 > 2 ^ 63 then Inl InvalidDuration
               else dur_loop r ((d + v) mod 2 ^ 64))"
  by pat_completeness auto
termination
  by (relation "measure (\<lambda>(s, d). length s)") (auto dest: dur_item_shorter)

declare dur_loop.simps [simp del]

text \<open>The duration in nanoseconds, an \<open>int64\<close>.\<close>

definition time_ParseDuration :: "string \<Rightarrow> error + int" where
  "time_ParseDuration orig =
     (let neg = (orig \<noteq> [] \<and> hd orig = CHR ''-''); s = drop_sign orig
      in if s = ''0'' then Inr 0
         else if s = [] then Inl InvalidDuration
         else case dur_loop s 0 of
                Inl e \<Rightarrow> Inl e
              | Inr d \<Rightarrow> if neg then Inr (- int d)
                       else if d > 2 ^ 63 - 1 then Inl InvalidDuration
                       else Inr (int d))"

lemma leading_int_digits:
  assumes "foldl (\<lambda>a c. a * 10 + digit_val c) x s \<le> 2 ^ 63"
  shows "leading_int s x = Some (foldl (\<lambda>a c. a * 10 + digit_val c) x s)"
  using assms
proof (induction s arbitrary: x)
  case (Cons c s)
  have "x * 10 + digit_val c \<le> 2 ^ 63"
    using Cons.prems foldl_dec_ge [of "x * 10 + digit_val c" s] by simp
  with Cons show ?case by simp
qed simp

lemma unitMap_chars: "unitMap u = Some k \<Longrightarrow> u \<noteq> [] \<and> list_all unit_char u \<and> 0 < k"
  by (auto simp: unitMap_def unit_char_def is_digit_def split: if_splits)

lemma unitMap_hd: "unitMap u = Some k \<Longrightarrow> \<not> is_digit (hd u) \<and> hd u \<noteq> CHR ''.''"
  using unitMap_chars [of u k] by (cases u) (auto simp: unit_char_def)

lemma takeWhile_digits_unit:
  assumes "list_all is_digit s" "unitMap u = Some k"
  shows "takeWhile is_digit (s @ u) = s" and "dropWhile is_digit (s @ u) = u"
  using assms unitMap_hd [OF assms(2)] unitMap_chars [OF assms(2)]
  by (cases u; auto simp: list_all_iff takeWhile_append dropWhile_append)+

lemma takeWhile_unit: "unitMap u = Some k \<Longrightarrow> takeWhile unit_char u = u \<and> dropWhile unit_char u = []"
  using unitMap_chars [of u k] by (auto simp: list_all_iff)

text \<open>What \<open>time.ParseDuration\<close> makes of a decimal number followed by a unit, before it looks at the size.\<close>

lemma whole_sign:
  assumes "unitMap u = Some k"
  shows "drop_sign (nat_str n @ u) = nat_str n @ u" "nat_str n @ u \<noteq> ''0''" "hd (nat_str n @ u) \<noteq> CHR ''-''"
    "nat_str n @ u \<noteq> []" "\<not> unit_char (hd (nat_str n @ u))"
proof -
  have hd: "is_digit (hd (nat_str n))"
    using nat_str_digits nat_str_nonempty by (metis list.set_sel(1) list_all_iff)
  then show "drop_sign (nat_str n @ u) = nat_str n @ u" "hd (nat_str n @ u) \<noteq> CHR ''-''" "\<not> unit_char (hd (nat_str n @ u))"
    by (auto simp: drop_sign_def is_digit_def unit_char_def)
  show "nat_str n @ u \<noteq> ''0''"
    using unitMap_chars [OF assms] unitMap_hd [OF assms] nat_str_nonempty [of n] by (auto simp: append_eq_Cons_conv)
  show "nat_str n @ u \<noteq> []" by (simp add: nat_str_nonempty)
qed

lemma dur_item_whole:
  assumes unit: "unitMap u = Some k" and lead: "leading_int (nat_str n) 0 = Some n"
  shows "dur_item (nat_str n @ u) = (if n > 2 ^ 63 div k then Inl InvalidDuration else Inr (n * k, []))"
  using lead whole_sign [OF unit, of n] unitMap_hd [OF unit] unitMap_chars [OF unit]
  by (simp add: dur_item_def takeWhile_digits_unit [OF nat_str_digits unit] takeWhile_unit [OF unit] unit Let_def)

lemma leading_int_value: "leading_int s x = Some v \<Longrightarrow> v = foldl (\<lambda>a c. a * 10 + digit_val c) x s"
  by (induction s arbitrary: x) (auto simp: Let_def split: if_splits)

lemma nat_str_value: "foldl (\<lambda>a c. a * 10 + digit_val c) 0 (nat_str n) = n"
  using dec_val_nat_str by (simp add: dec_val_def)

text \<open>A whole number with one unit is read exactly, as long as it fits 63 bits.\<close>

lemma time_ParseDuration_whole:
  assumes unit: "unitMap u = Some k" and fits: "n * k < 2 ^ 63"
  shows "time_ParseDuration (nat_str n @ u) = Inr (int (n * k))"
proof -
  from unit have k: "0 < k" using unitMap_chars by blast
  from fits k have n: "n < 2 ^ 63"
    by (metis le_less_trans le_square mult.right_neutral mult_le_mono2 Suc_leI One_nat_def)
  have lead: "leading_int (nat_str n) 0 = Some n"
    using leading_int_digits [of 0 "nat_str n"] nat_str_value n by simp
  have le: "n \<le> 2 ^ 63 div k"
    using fits k by (simp add: less_eq_div_iff_mult_less_eq)
  have loop: "dur_loop (nat_str n @ u) 0 = Inr (n * k)"
    using dur_item_whole [OF unit lead] le fits whole_sign(4) [OF unit]
    by (subst dur_loop.simps) (simp add: dur_loop.simps [of "[]"])
  with whole_sign [OF unit, of n] fits show ?thesis by (simp add: time_ParseDuration_def)
qed

text \<open>A larger one is refused.\<close>

lemma time_ParseDuration_large:
  assumes unit: "unitMap u = Some k" and large: "2 ^ 63 \<le> n * k"
  shows "time_ParseDuration (nat_str n @ u) = Inl InvalidDuration"
proof -
  from unit have k: "0 < k" using unitMap_chars by blast
  have "dur_loop (nat_str n @ u) 0 = Inl InvalidDuration \<or> dur_loop (nat_str n @ u) 0 = Inr (2 ^ 63)"
  proof (cases "leading_int (nat_str n) 0")
    case None
    then have "dur_item (nat_str n @ u) = Inl InvalidDuration"
      using whole_sign [OF unit, of n] by (simp add: dur_item_def takeWhile_digits_unit [OF nat_str_digits unit])
    then show ?thesis using whole_sign(4) [OF unit] by (subst dur_loop.simps) simp
  next
    case (Some v)
    then have lead: "leading_int (nat_str n) 0 = Some n" using leading_int_value nat_str_value by metis
    show ?thesis
    proof (cases "n > 2 ^ 63 div k")
      case True
      then show ?thesis using dur_item_whole [OF unit lead] whole_sign(4) [OF unit] by (subst dur_loop.simps) simp
    next
      case False
      then have "n * k \<le> 2 ^ 63" using k by (simp add: less_eq_div_iff_mult_less_eq not_less)
      with large have "n * k = 2 ^ 63" by simp
      then have "dur_loop (nat_str n @ u) 0 = Inr (2 ^ 63)"
        using dur_item_whole [OF unit lead] False whole_sign(4) [OF unit]
        by (subst dur_loop.simps) (simp add: dur_loop.simps [of "[]"])
      then show ?thesis ..
    qed
  qed
  with whole_sign [OF unit, of n] show ?thesis by (auto simp: time_ParseDuration_def)
qed

end
