(* ===== verification/GoNet.thy ===== *)
theory GoNet
  imports GoNumeric
begin

text \<open>
  The address parsers of Go's package \<open>net\<close> (Go 1.19): \<open>ParseIP\<close>, \<open>ParseCIDR\<close>, \<open>ParseMAC\<close> and
  \<open>IP.Equal\<close>. An address is its list of bytes; Go's \<open>nil\<close> address is the empty list.
\<close>

type_synonym byte = "8 word"
type_synonym ip = "byte list"

record ipnet =
  IP :: ip
  Mask :: ip

definition big :: nat where
  "big = 0xFFFFFF"

text \<open>\<open>dtoi\<close>/\<open>xtoi\<close>: the number, how many characters it took, and whether it is well formed.\<close>

fun dtoi_loop :: "string \<Rightarrow> nat \<Rightarrow> nat \<Rightarrow> (nat \<times> nat) option" where
  "dtoi_loop [] n i = (if i = 0 then None else Some (n, i))"
| "dtoi_loop (c # s) n i =
     (if is_digit c then
        (if n * 10 + digit_val c \<ge> big then None else dtoi_loop s (n * 10 + digit_val c) (i + 1))
      else if i = 0 then None else Some (n, i))"

fun xtoi_loop :: "string \<Rightarrow> nat \<Rightarrow> nat \<Rightarrow> (nat \<times> nat) option" where
  "xtoi_loop [] n i = (if i = 0 then None else Some (n, i))"
| "xtoi_loop (c # s) n i =
     (case hex_val c of
        Some d \<Rightarrow> if n * 16 + d \<ge> big then None else xtoi_loop s (n * 16 + d) (i + 1)
      | None \<Rightarrow> if i = 0 then None else Some (n, i))"

definition dtoi :: "string \<Rightarrow> (nat \<times> nat) option" where
  "dtoi s = dtoi_loop s 0 0"

definition xtoi :: "string \<Rightarrow> (nat \<times> nat) option" where
  "xtoi s = xtoi_loop s 0 0"

text \<open>\<open>parseIPv4\<close>: the remaining count of components and whether this is the first one.\<close>

fun v4_loop :: "nat \<Rightarrow> bool \<Rightarrow> string \<Rightarrow> ip option" where
  "v4_loop 0 first s = (if s = [] then Some [] else None)"
| "v4_loop (Suc k) first s =
     (if s = [] then None
      else if \<not> first \<and> hd s \<noteq> CHR ''.'' then None
      else let t = (if first then s else tl s)
           in case dtoi t of
                None \<Rightarrow> None
              | Some (n, c) \<Rightarrow>
                  if n > 255 \<or> (c > 1 \<and> hd t = CHR ''0'') then None
                  else case v4_loop k False (drop c t) of
                         None \<Rightarrow> None
                       | Some bs \<Rightarrow> Some (of_nat n # bs))"

definition v4InV6Prefix :: ip where
  "v4InV6Prefix = replicate 10 0 @ [255, 255]"

definition parseIPv4 :: "string \<Rightarrow> ip option" where
  "parseIPv4 s = map_option ((@) v4InV6Prefix) (v4_loop 4 True s)"

text \<open>
  The loop of \<open>parseIPv6\<close>. The bytes read so far are the fourth argument; every round adds two bytes
  or ends the loop, so eight rounds of fuel reach all sixteen bytes.
\<close>

fun v6_loop :: "nat \<Rightarrow> string \<Rightarrow> nat option \<Rightarrow> ip \<Rightarrow> (string \<times> nat option \<times> ip) option" where
  "v6_loop 0 s el bs = Some (s, el, bs)"
| "v6_loop (Suc k) s el bs =
     (case xtoi s of
        None \<Rightarrow> None
      | Some (n, c) \<Rightarrow>
          if n > 0xFFFF then None
          else if c < length s \<and> s ! c = CHR ''.'' then
            (if (el = None \<and> length bs \<noteq> 12) \<or> length bs + 4 > 16 then None
             else case parseIPv4 s of
                    None \<Rightarrow> None
                  | Some ip4 \<Rightarrow> Some ([], el, bs @ drop 12 ip4))
          else let bs1 = bs @ [of_nat (n div 256), of_nat (n mod 256)]; t = drop c s
               in if t = [] then Some ([], el, bs1)
                  else if hd t \<noteq> CHR '':'' \<or> length t = 1 then None
                  else let t1 = tl t
                       in if hd t1 = CHR '':'' then
                            (if el \<noteq> None then None
                             else if tl t1 = [] then Some ([], Some (length bs1), bs1)
                             else v6_loop k (tl t1) (Some (length bs1)) bs1)
                          else v6_loop k t1 el bs1)"

definition parseIPv6 :: "string \<Rightarrow> ip option" where
  "parseIPv6 s =
     (let lead = HasPrefix s ''::'';
          el = (if lead then Some 0 else None);
          t = (if lead then drop 2 s else s)
      in if lead \<and> t = [] then Some (replicate 16 0)
         else case v6_loop 8 t el [] of
                None \<Rightarrow> None
              | Some (r, el', bs) \<Rightarrow>
                  if r \<noteq> [] then None
                  else if length bs < 16 then
                    (case el' of
                       None \<Rightarrow> None
                     | Some e \<Rightarrow> Some (take e bs @ replicate (16 - length bs) 0 @ drop e bs))
                  else if el' \<noteq> None then None else Some bs)"

definition ParseIP :: "string \<Rightarrow> ip option" where
  "ParseIP s =
     (case dropWhile (\<lambda>c. c \<noteq> CHR ''.'' \<and> c \<noteq> CHR '':'') s of
        [] \<Rightarrow> None
      | c # _ \<Rightarrow> if c = CHR ''.'' then parseIPv4 s else parseIPv6 s)"

text \<open>\<open>CIDRMask(ones, 8 * n)\<close> for \<open>n\<close> bytes.\<close>

fun CIDRMask :: "nat \<Rightarrow> nat \<Rightarrow> ip" where
  "CIDRMask ones 0 = []"
| "CIDRMask ones (Suc n) =
     (if 8 \<le> ones then 255 # CIDRMask (ones - 8) n
      else of_nat (256 - 2 ^ (8 - ones)) # CIDRMask 0 n)"

text \<open>The address and the mask of its subnet.\<close>

definition ParseCIDR :: "string \<Rightarrow> error + ip \<times> ip" where
  "ParseCIDR s =
     (if CHR ''/'' \<notin> set s then Inl (ParseError ''CIDR address'' s)
      else let addr = takeWhile (\<lambda>c. c \<noteq> CHR ''/'') s;
               mask = tl (dropWhile (\<lambda>c. c \<noteq> CHR ''/'') s);
               v4 = parseIPv4 addr;
               iplen = (if v4 = None then 16 else 4);
               ip = (if v4 = None then parseIPv6 addr else v4)
           in case (ip, dtoi mask) of
                (Some a, Some (n, i)) \<Rightarrow>
                  if i \<noteq> length mask \<or> n > 8 * iplen then Inl (ParseError ''CIDR address'' s)
                  else Inr (a, CIDRMask n iplen)
              | _ \<Rightarrow> Inl (ParseError ''CIDR address'' s))"

definition is_v4_mapped :: "ip \<Rightarrow> bool" where
  "is_v4_mapped a \<longleftrightarrow> length a = 16 \<and> take 12 a = v4InV6Prefix"

text \<open>\<open>IP.Equal\<close>: an IPv4 address and the same address in IPv6 form are equal.\<close>

definition IP_Equal :: "ip \<Rightarrow> ip \<Rightarrow> bool" where
  "IP_Equal a b =
     (if length a = length b then a = b
      else if length a = 4 \<and> length b = 16 then take 12 b = v4InV6Prefix \<and> a = drop 12 b
      else if length a = 16 \<and> length b = 4 then take 12 a = v4InV6Prefix \<and> drop 12 a = b
      else False)"

definition xtoi2 :: "string \<Rightarrow> char \<Rightarrow> byte option" where
  "xtoi2 s e =
     (if length s > 2 \<and> s ! 2 \<noteq> e then None
      else case xtoi (take 2 s) of
             Some (n, i) \<Rightarrow> if i = 2 then Some (of_nat n) else None
           | None \<Rightarrow> None)"

fun mac_colon :: "nat \<Rightarrow> string \<Rightarrow> char \<Rightarrow> byte list option" where
  "mac_colon 0 s e = Some []"
| "mac_colon (Suc n) s e =
     (case xtoi2 s e of
        None \<Rightarrow> None
      | Some b \<Rightarrow> map_option ((#) b) (mac_colon n (drop 3 s) e))"

fun mac_dot :: "nat \<Rightarrow> string \<Rightarrow> byte list option" where
  "mac_dot 0 s = Some []"
| "mac_dot (Suc n) s =
     (case (xtoi2 (take 2 s) (CHR 0x00), xtoi2 (drop 2 s) (CHR ''.'')) of
        (Some a, Some b) \<Rightarrow> map_option (\<lambda>bs. a # b # bs) (mac_dot n (drop 5 s))
      | _ \<Rightarrow> None)"

definition ParseMAC :: "string \<Rightarrow> error + byte list" where
  "ParseMAC s =
     (let bad = Inl (Errorf (''address '' @ s @ '': invalid MAC address''))
      in if length s < 14 then bad
         else if s ! 2 = CHR '':'' \<or> s ! 2 = CHR ''-'' then
           (if (length s + 1) mod 3 \<noteq> 0 \<or> (length s + 1) div 3 \<notin> {6, 8, 20} then bad
            else case mac_colon ((length s + 1) div 3) s (s ! 2) of
                   None \<Rightarrow> bad | Some hw \<Rightarrow> Inr hw)
         else if s ! 4 = CHR ''.'' then
           (if (length s + 1) mod 5 \<noteq> 0 \<or> 2 * (length s + 1) div 5 \<notin> {6, 8, 20} then bad
            else case mac_dot ((length s + 1) div 5) s of
                   None \<Rightarrow> bad | Some hw \<Rightarrow> Inr hw)
         else bad)"

lemma IP_Equal_refl [simp]: "IP_Equal a a"
  by (simp add: IP_Equal_def)

lemma IP_Equal_sym: "IP_Equal a b = IP_Equal b a"
  by (auto simp: IP_Equal_def)

lemma ParseCIDR_no_slash: "CHR ''/'' \<notin> set s \<Longrightarrow> ParseCIDR s = Inl (ParseError ''CIDR address'' s)"
  by (simp add: ParseCIDR_def)

end
