(* ===== verification/ApiTypes.thy ===== *)
theory ApiTypes
  imports GoNet
begin

text \<open>
  The data the components exchange: the Topology custom resource of \<open>api/v1/topology_types.go\<close>, the
  protocol messages of \<open>proto/v1/kube_dtn.pb.go\<close> and the conversions \<open>ToProto\<close> from the first to the
  second. A Go slice is an optional list: \<open>None\<close> is the nil slice, which \<open>reflect.DeepEqual\<close> and the
  comparisons with \<open>nil\<close> tell apart from the empty one.
\<close>

type_synonym 'a slice = "'a list option"

definition items :: "'a slice \<Rightarrow> 'a list" where
  "items s = (case s of None \<Rightarrow> [] | Some xs \<Rightarrow> xs)"

lemma items_simps [simp]: "items None = []" "items (Some xs) = xs"
  by (simp_all add: items_def)

section \<open>The Topology resource\<close>

record LinkProperties =
  Latency :: string
  LatencyCorr :: string
  Jitter :: string
  Loss :: string
  LossCorr :: string
  Rate :: string
  Gap :: uint32
  Duplicate :: string
  DuplicateCorr :: string
  ReorderProb :: string
  ReorderCorr :: string
  CorruptProb :: string
  CorruptCorr :: string

record Link =
  LocalIntf :: string
  LocalIP :: string
  LocalMAC :: string
  PeerIntf :: string
  PeerIP :: string
  PeerMAC :: string
  PeerPod :: string
  UID :: int64
  Properties :: LinkProperties

record TopologySpec =
  SpecLinks :: "Link slice"

record TopologyStatus =
  Skipped :: "string slice"
  SrcIP :: string
  NetNs :: string
  StatusLinks :: "Link slice"

text \<open>Of \<open>metav1.ObjectMeta\<close> the fields the program reads or writes, and the resource version.\<close>

record Topology =
  Name :: string
  Namespace :: string
  Finalizers :: "string list"
  ResourceVersion :: string
  Spec :: TopologySpec
  Status :: TopologyStatus

record TopologyList =
  Items :: "Topology list"

section \<open>Protocol messages\<close>

record pb_LinkProperties =
  pb_latency :: string
  pb_latency_corr :: string
  pb_jitter :: string
  pb_loss :: string
  pb_loss_corr :: string
  pb_rate :: string
  pb_gap :: uint32
  pb_duplicate :: string
  pb_duplicate_corr :: string
  pb_reorder_prob :: string
  pb_reorder_corr :: string
  pb_corrupt_prob :: string
  pb_corrupt_corr :: string

record pb_Link =
  pb_peer_pod :: string
  pb_local_intf :: string
  pb_peer_intf :: string
  pb_local_ip :: string
  pb_peer_ip :: string
  pb_local_mac :: string
  pb_peer_mac :: string
  pb_uid :: int64
  pb_properties :: "pb_LinkProperties option"

record pb_Pod =
  pod_name :: string
  pod_src_ip :: string
  pod_net_ns :: string
  pod_kube_ns :: string
  pod_links :: "pb_Link list"

record pb_PodQuery =
  pq_name :: string
  pq_kube_ns :: string

record pb_LinksBatchQuery =
  lbq_local_pod :: "pb_Pod option"
  lbq_links :: "pb_Link list"

record pb_SetupPodQuery =
  spq_name :: string
  spq_kube_ns :: string
  spq_net_ns :: string

record pb_RemotePod =
  rp_net_ns :: string
  rp_intf_name :: string
  rp_intf_ip :: string
  rp_peer_vtep :: string
  rp_kube_ns :: string
  rp_vni :: int32
  rp_properties :: "pb_LinkProperties option"
  rp_name :: string

record pb_WireDef =
  wd_peer_intf_id :: int64
  wd_peer_ip :: string
  wd_intf_name_in_pod :: string
  wd_local_pod_net_ns :: string
  wd_link_uid :: int64
  wd_local_pod_name :: string
  wd_veth_name_local_host :: string
  wd_kube_ns :: string
  wd_local_pod_ip :: string

record pb_WireCreateResponse =
  wcr_response :: bool
  wcr_peer_intf_id :: int64

record pb_Packet =
  pkt_remot_intf_id :: int64
  pkt_frame :: "byte list"

section \<open>Conversions to protocol messages\<close>

definition LinkProperties_ToProto :: "LinkProperties \<Rightarrow> pb_LinkProperties" where
  "LinkProperties_ToProto p =
     \<lparr> pb_latency = Latency p,
       pb_latency_corr = LatencyCorr p,
       pb_jitter = Jitter p,
       pb_loss = Loss p,
       pb_loss_corr = LossCorr p,
       pb_rate = Rate p,
       pb_gap = Gap p,
       pb_duplicate = Duplicate p,
       pb_duplicate_corr = DuplicateCorr p,
       pb_reorder_prob = ReorderProb p,
       pb_reorder_corr = ReorderCorr p,
       pb_corrupt_prob = CorruptProb p,
       pb_corrupt_corr = CorruptCorr p \<rparr>"

definition Link_ToProto :: "Link \<Rightarrow> pb_Link" where
  "Link_ToProto l =
     \<lparr> pb_peer_pod = PeerPod l,
       pb_local_intf = LocalIntf l,
       pb_peer_intf = PeerIntf l,
       pb_local_ip = LocalIP l,
       pb_peer_ip = PeerIP l,
       pb_local_mac = LocalMAC l,
       pb_peer_mac = PeerMAC l,
       pb_uid = UID l,
       pb_properties = Some (LinkProperties_ToProto (Properties l)) \<rparr>"

lemma LinkProperties_ToProto_inject:
  "LinkProperties_ToProto p = LinkProperties_ToProto q \<longleftrightarrow> p = q"
  by (cases p; cases q) (auto simp: LinkProperties_ToProto_def)

lemma Link_ToProto_inject_aux: "Link_ToProto l = Link_ToProto k \<longleftrightarrow> l = k"
  by (cases l; cases k) (auto simp: Link_ToProto_def LinkProperties_ToProto_inject)

definition empty_pb_LinkProperties :: pb_LinkProperties where
  "empty_pb_LinkProperties =
     \<lparr> pb_latency = [], pb_latency_corr = [], pb_jitter = [], pb_loss = [], pb_loss_corr = [],
       pb_rate = [], pb_gap = 0, pb_duplicate = [], pb_duplicate_corr = [], pb_reorder_prob = [],
       pb_reorder_corr = [], pb_corrupt_prob = [], pb_corrupt_corr = [] \<rparr>"

end
