(* ===== verification/NetLib.thy ===== *)
theory NetLib
  imports ApiTypes
begin

text \<open>
  The interface to the host: the operations of the packages the program imports
  (\<open>vishvananda/netlink\<close>, \<open>redhat-nfvpe/koko\<close>, \<open>containernetworking/plugins/pkg/ns\<close>,
  \<open>google/gopacket/pcap\<close>, the \<open>tc\<close> executable, \<open>net.Interfaces\<close>, the protobuf runtime) as a record
  of functions over an unspecified state \<open>'w\<close> of the outside world. Every operation may answer
  anything and may change the world in any way, so a theorem with no hypothesis on the record holds
  whatever the host does, including what other processes do between two calls.

  \<open>recording\<close> wraps such a record so that each request that asks for a change is logged with its
  outcome. It states properties of the requests a function issues, for every host.
\<close>

section \<open>Data of the imported packages\<close>

record VEth =
  NsName :: string
  LinkName :: string
  IPAddr :: "ipnet list"
  HardwareAddr :: "byte list"

record VxLan =
  vx_ParentIF :: string
  vx_IPAddr :: ip
  vx_ID :: int64

record MacVLan =
  mv_ParentIF :: string
  mv_Mode :: nat

record LinkStatistics =
  RxPackets :: uint64
  TxPackets :: uint64
  RxBytes :: uint64
  TxBytes :: uint64
  RxErrors :: uint64
  TxErrors :: uint64
  RxDropped :: uint64
  TxDropped :: uint64

record LinkAttrs =
  la_Index :: int64
  la_Name :: string
  la_Statistics :: "LinkStatistics option"

text \<open>A \<open>netlink.Link\<close>: a VXLAN device with its id and remote group, or another device with its type.\<close>

datatype nlink =
    Vxlan (attrs: LinkAttrs) (VxlanId: int64) (Group: ip)
  | OtherLink (attrs: LinkAttrs) (link_type: string)

record QdiscAttrs =
  qa_LinkIndex :: int64
  qa_Handle :: uint32
  qa_Parent :: uint32

record NetemQdiscAttrs =
  nq_Latency :: uint32
  nq_DelayCorr :: rat
  nq_Jitter :: uint32
  nq_Loss :: rat
  nq_LossCorr :: rat
  nq_Gap :: uint32
  nq_Duplicate :: rat
  nq_DuplicateCorr :: rat
  nq_ReorderProb :: rat
  nq_ReorderCorr :: rat
  nq_CorruptProb :: rat
  nq_CorruptCorr :: rat

record TbfAttrs =
  tbf_Rate :: uint64
  tbf_Buffer :: uint32
  tbf_Minburst :: uint32

text \<open>
  \<open>Netem q n\<close> is the discipline \<open>netlink.NewNetem\<close> builds from the attributes \<open>n\<close>, kept as given,
  before the package converts them to kernel units.
\<close>

datatype qdisc =
    Netem QdiscAttrs NetemQdiscAttrs
  | Tbf QdiscAttrs TbfAttrs
  | GenericQdisc QdiscAttrs string
  | OtherQdisc QdiscAttrs string

definition no_qattrs :: QdiscAttrs where
  "no_qattrs = \<lparr> qa_LinkIndex = 0, qa_Handle = 0, qa_Parent = 0 \<rparr>"

record HostIface =
  hi_Name :: string
  hi_Addrs :: "ip list"

type_synonym pcap_handle = nat

section \<open>The operations\<close>

record 'w netlib =
  nl_protoSize :: "pb_LinkProperties \<Rightarrow> nat"
  nl_HANDLE_ROOT :: uint32
  nl_MakeHandle :: "uint32 \<Rightarrow> uint32 \<Rightarrow> uint32"
  nl_GetCurrentNS :: "'w \<Rightarrow> (error + string) \<times> 'w"
  nl_GetNS :: "string \<Rightarrow> 'w \<Rightarrow> (error + string) \<times> 'w"
  nl_enter :: "string \<Rightarrow> 'w \<Rightarrow> error option \<times> 'w"
  nl_LinkByName :: "string \<Rightarrow> string \<Rightarrow> 'w \<Rightarrow> (error + nlink) \<times> 'w"
  nl_LinkList :: "string \<Rightarrow> 'w \<Rightarrow> (error + nlink list) \<times> 'w"
  nl_LinkDel :: "string \<Rightarrow> nlink \<Rightarrow> 'w \<Rightarrow> error option \<times> 'w"
  nl_QdiscList :: "string \<Rightarrow> nlink \<Rightarrow> 'w \<Rightarrow> (error + qdisc list) \<times> 'w"
  nl_QdiscDel :: "string \<Rightarrow> qdisc \<Rightarrow> 'w \<Rightarrow> error option \<times> 'w"
  nl_QdiscAdd :: "string \<Rightarrow> qdisc \<Rightarrow> 'w \<Rightarrow> error option \<times> 'w"
  nl_tc :: "string \<Rightarrow> string list \<Rightarrow> 'w \<Rightarrow> error option \<times> 'w"
  nl_MakeVeth :: "VEth \<Rightarrow> VEth \<Rightarrow> 'w \<Rightarrow> error option \<times> 'w"
  nl_RemoveVethLink :: "VEth \<Rightarrow> 'w \<Rightarrow> error option \<times> 'w"
  nl_IsExistLinkInNS :: "string \<Rightarrow> string \<Rightarrow> 'w \<Rightarrow> bool \<times> 'w"
  nl_MakeVxLan :: "VEth \<Rightarrow> VxLan \<Rightarrow> 'w \<Rightarrow> error option \<times> 'w"
  nl_MakeMacVLan :: "VEth \<Rightarrow> MacVLan \<Rightarrow> 'w \<Rightarrow> error option \<times> 'w"
  nl_Interfaces :: "'w \<Rightarrow> HostIface list \<times> 'w"
  nl_RouteGet :: "ip \<Rightarrow> 'w \<Rightarrow> ((string \<times> int64) list \<times> error option) \<times> 'w"
  nl_LinkByIndex :: "int64 \<Rightarrow> 'w \<Rightarrow> (error + nlink) \<times> 'w"
  nl_InterfaceByName :: "string \<Rightarrow> 'w \<Rightarrow> (error + LinkAttrs) \<times> 'w"
  nl_InterfaceByIndex :: "int64 \<Rightarrow> 'w \<Rightarrow> (error + LinkAttrs) \<times> 'w"
  nl_OpenLive :: "string \<Rightarrow> 'w \<Rightarrow> (error + pcap_handle) \<times> 'w"
  nl_WritePacketData :: "pcap_handle \<Rightarrow> byte list \<Rightarrow> 'w \<Rightarrow> error option \<times> 'w"

text \<open>
  \<open>NetNS.Do\<close>: switch to the namespace, failing if that fails, and run the function there. The
  operations inside take the namespace they run in as an argument.
\<close>

definition ns_do :: "'w netlib \<Rightarrow> string \<Rightarrow> ('w, error option) go \<Rightarrow> ('w, error option) go" where
  "ns_do N ns f = check (ext (nl_enter N ns)) f"

text \<open>
  What the package documentation says of the constants and of the wire size of a proto3 message: an
  unset message, with every field at its default, and only that one, has size 0.
\<close>

definition proto_size_ok :: "'w netlib \<Rightarrow> bool" where
  "proto_size_ok N \<longleftrightarrow> (\<forall>p. nl_protoSize N p = 0 \<longleftrightarrow> p = empty_pb_LinkProperties)"

section \<open>Recording the requests for changes\<close>

datatype event =
    EvLinkDel string nlink "error option"
  | EvQdiscDel string qdisc "error option"
  | EvQdiscAdd string qdisc "error option"
  | EvTc string "string list" "error option"
  | EvMakeVeth VEth VEth "error option"
  | EvRemoveVeth VEth "error option"
  | EvMakeVxLan VEth VxLan "error option"
  | EvMakeMacVLan VEth MacVLan "error option"

text \<open>A world with the log of requests, the oldest first.\<close>

type_synonym 'w logged = "'w \<times> event list"

definition asking :: "('w \<Rightarrow> 'a \<times> 'w) \<Rightarrow> 'w \<times> 'e list \<Rightarrow> 'a \<times> 'w \<times> 'e list" where
  "asking f = (\<lambda>(w, l). case f w of (a, w') \<Rightarrow> (a, (w', l)))"

definition changing :: "('a \<Rightarrow> 'e) \<Rightarrow> ('w \<Rightarrow> 'a \<times> 'w) \<Rightarrow> 'w \<times> 'e list \<Rightarrow> 'a \<times> 'w \<times> 'e list" where
  "changing ev f = (\<lambda>(w, l). case f w of (a, w') \<Rightarrow> (a, (w', l @ [ev a])))"

definition recording :: "'w netlib \<Rightarrow> 'w logged netlib" where
  "recording N =
     \<lparr> nl_protoSize = nl_protoSize N,
       nl_HANDLE_ROOT = nl_HANDLE_ROOT N,
       nl_MakeHandle = nl_MakeHandle N,
       nl_GetCurrentNS = asking (nl_GetCurrentNS N),
       nl_GetNS = (\<lambda>p. asking (nl_GetNS N p)),
       nl_enter = (\<lambda>p. asking (nl_enter N p)),
       nl_LinkByName = (\<lambda>ns n. asking (nl_LinkByName N ns n)),
       nl_LinkList = (\<lambda>ns. asking (nl_LinkList N ns)),
       nl_LinkDel = (\<lambda>ns l. changing (EvLinkDel ns l) (nl_LinkDel N ns l)),
       nl_QdiscList = (\<lambda>ns l. asking (nl_QdiscList N ns l)),
       nl_QdiscDel = (\<lambda>ns q. changing (EvQdiscDel ns q) (nl_QdiscDel N ns q)),
       nl_QdiscAdd = (\<lambda>ns q. changing (EvQdiscAdd ns q) (nl_QdiscAdd N ns q)),
       nl_tc = (\<lambda>ns a. changing (EvTc ns a) (nl_tc N ns a)),
       nl_MakeVeth = (\<lambda>a b. changing (EvMakeVeth a b) (nl_MakeVeth N a b)),
       nl_RemoveVethLink = (\<lambda>v. changing (EvRemoveVeth v) (nl_RemoveVethLink N v)),
       nl_IsExistLinkInNS = (\<lambda>ns n. asking (nl_IsExistLinkInNS N ns n)),
       nl_MakeVxLan = (\<lambda>v x. changing (EvMakeVxLan v x) (nl_MakeVxLan N v x)),
       nl_MakeMacVLan = (\<lambda>v m. changing (EvMakeMacVLan v m) (nl_MakeMacVLan N v m)),
       nl_Interfaces = asking (nl_Interfaces N),
       nl_RouteGet = (\<lambda>a. asking (nl_RouteGet N a)),
       nl_LinkByIndex = (\<lambda>i. asking (nl_LinkByIndex N i)),
       nl_InterfaceByName = (\<lambda>n. asking (nl_InterfaceByName N n)),
       nl_InterfaceByIndex = (\<lambda>i. asking (nl_InterfaceByIndex N i)),
       nl_OpenLive = (\<lambda>n. asking (nl_OpenLive N n)),
       nl_WritePacketData = (\<lambda>h f. asking (nl_WritePacketData N h f)) \<rparr>"

lemma recording_sel [simp]:
  "nl_protoSize (recording N) = nl_protoSize N"
  "nl_HANDLE_ROOT (recording N) = nl_HANDLE_ROOT N"
  "nl_MakeHandle (recording N) = nl_MakeHandle N"
  "nl_GetCurrentNS (recording N) = asking (nl_GetCurrentNS N)"
  "nl_GetNS (recording N) = (\<lambda>p. asking (nl_GetNS N p))"
  "nl_enter (recording N) = (\<lambda>p. asking (nl_enter N p))"
  "nl_LinkByName (recording N) = (\<lambda>ns n. asking (nl_LinkByName N ns n))"
  "nl_LinkList (recording N) = (\<lambda>ns. asking (nl_LinkList N ns))"
  "nl_LinkDel (recording N) = (\<lambda>ns l. changing (EvLinkDel ns l) (nl_LinkDel N ns l))"
  "nl_QdiscList (recording N) = (\<lambda>ns l. asking (nl_QdiscList N ns l))"
  "nl_QdiscDel (recording N) = (\<lambda>ns q. changing (EvQdiscDel ns q) (nl_QdiscDel N ns q))"
  "nl_QdiscAdd (recording N) = (\<lambda>ns q. changing (EvQdiscAdd ns q) (nl_QdiscAdd N ns q))"
  "nl_tc (recording N) = (\<lambda>ns a. changing (EvTc ns a) (nl_tc N ns a))"
  "nl_MakeVeth (recording N) = (\<lambda>a b. changing (EvMakeVeth a b) (nl_MakeVeth N a b))"
  "nl_RemoveVethLink (recording N) = (\<lambda>v. changing (EvRemoveVeth v) (nl_RemoveVethLink N v))"
  "nl_IsExistLinkInNS (recording N) = (\<lambda>ns n. asking (nl_IsExistLinkInNS N ns n))"
  "nl_MakeVxLan (recording N) = (\<lambda>v x. changing (EvMakeVxLan v x) (nl_MakeVxLan N v x))"
  "nl_MakeMacVLan (recording N) = (\<lambda>v m. changing (EvMakeMacVLan v m) (nl_MakeMacVLan N v m))"
  "nl_Interfaces (recording N) = asking (nl_Interfaces N)"
  "nl_RouteGet (recording N) = (\<lambda>a. asking (nl_RouteGet N a))"
  "nl_LinkByIndex (recording N) = (\<lambda>i. asking (nl_LinkByIndex N i))"
  "nl_InterfaceByName (recording N) = (\<lambda>n. asking (nl_InterfaceByName N n))"
  "nl_InterfaceByIndex (recording N) = (\<lambda>i. asking (nl_InterfaceByIndex N i))"
  "nl_OpenLive (recording N) = (\<lambda>n. asking (nl_OpenLive N n))"
  "nl_WritePacketData (recording N) = (\<lambda>h f. asking (nl_WritePacketData N h f))"
  by (simp_all add: recording_def)

lemma asking_run [go_simps]: "asking f (w, l) = (fst (f w), (snd (f w), l))"
  by (simp add: asking_def split: prod.splits)

lemma changing_run [go_simps]: "changing ev f (w, l) = (fst (f w), (snd (f w), l @ [ev (fst (f w))]))"
  by (simp add: changing_def split: prod.splits)

lemma ext_asking [go_simps]: "ext (asking f) (w, l) = (Done (fst (f w)), (snd (f w), l))"
  by (simp add: ext_run asking_run)

lemma ext_changing [go_simps]:
  "ext (changing ev f) (w, l) = (Done (fst (f w)), (snd (f w), l @ [ev (fst (f w))]))"
  by (simp add: ext_run changing_run)


section \<open>Reasoning about the requests a function issues\<close>

text \<open>
  \<open>emits m P\<close>: from every world and log, \<open>m\<close> only appends to the log, and \<open>P\<close> holds of its outcome
  and of what it appended.
\<close>

named_theorems emit_rules \<open>composition rules for emits\<close>

definition emits :: "('w \<times> 'e list, 'a) go \<Rightarrow> ('a out \<Rightarrow> 'e list \<Rightarrow> bool) \<Rightarrow> bool" where
  "emits m P \<longleftrightarrow> (\<forall>w l. \<exists>r w' evs. m (w, l) = (r, (w', l @ evs)) \<and> P r evs)"

lemma emitsE:
  assumes "emits m P"
  obtains r w' evs where "m (w, l) = (r, (w', l @ evs))" "P r evs"
  using assms unfolding emits_def by blast

lemma emits_run: "emits m P \<Longrightarrow> m (w, l) = (r, (w', l')) \<Longrightarrow> \<exists>evs. l' = l @ evs \<and> P r evs"
  by (elim emitsE [of m P w l]) auto

lemma emits_mono: "emits m Q \<Longrightarrow> (\<And>r evs. Q r evs \<Longrightarrow> P r evs) \<Longrightarrow> emits m P"
  unfolding emits_def by blast

lemma emits_ret [emit_rules]: "P (Done a) [] \<Longrightarrow> emits (ret a) P"
  by (simp add: emits_def ret_run)

lemma emits_halt [emit_rules]: "P (Abort x) [] \<Longrightarrow> emits (halt x) P"
  by (simp add: emits_def halt_run)

lemma emits_asking [emit_rules]: "(\<And>a. P (Done a) []) \<Longrightarrow> emits (ext (asking f)) P"
  by (simp add: emits_def ext_asking)

lemma emits_changing [emit_rules]: "(\<And>a. P (Done a) [ev a]) \<Longrightarrow> emits (ext (changing ev f)) P"
  by (simp add: emits_def ext_changing)

lemma emits_bnd:
  assumes m: "emits m Q"
    and f: "\<And>a evs. Q (Done a) evs \<Longrightarrow> emits (f a) (\<lambda>r e. P r (evs @ e))"
    and ab: "\<And>x evs. Q (Abort x) evs \<Longrightarrow> P (Abort x) evs"
  shows "emits (bnd m f) P"
  unfolding emits_def
proof (intro allI)
  fix w l
  obtain r w' evs where run: "m (w, l) = (r, (w', l @ evs))" and q: "Q r evs"
    using m by (elim emitsE)
  show "\<exists>r w' evs. bnd m f (w, l) = (r, (w', l @ evs)) \<and> P r evs"
  proof (cases r)
    case (Done a)
    with f q have "emits (f a) (\<lambda>r e. P r (evs @ e))" by blast
    then obtain r2 w2 e where "f a (w', l @ evs) = (r2, (w2, (l @ evs) @ e))" "P r2 (evs @ e)"
      by (elim emitsE)
    with run Done show ?thesis by (metis append.assoc bnd_Done)
  next
    case (Abort x)
    with run q ab show ?thesis by (metis bnd_Abort)
  qed
qed

lemma emits_orelse:
  assumes "emits m Q"
    and "\<And>a evs. Q (Done (Inr a)) evs \<Longrightarrow> emits (f a) (\<lambda>r e. P r (evs @ e))"
    and "\<And>e evs. Q (Done (Inl e)) evs \<Longrightarrow> P (Done (Inl e)) evs"
    and "\<And>x evs. Q (Abort x) evs \<Longrightarrow> P (Abort x) evs"
  shows "emits (orelse m f) P"
  unfolding orelse_def
  by (rule emits_bnd [OF assms(1)]) (auto intro!: emits_ret assms(2-) split: sum.splits)

lemma emits_check:
  assumes "emits m Q"
    and "\<And>evs. Q (Done None) evs \<Longrightarrow> emits f (\<lambda>r e. P r (evs @ e))"
    and "\<And>e evs. Q (Done (Some e)) evs \<Longrightarrow> P (Done (Some e)) evs"
    and "\<And>x evs. Q (Abort x) evs \<Longrightarrow> P (Abort x) evs"
  shows "emits (check m f) P"
  unfolding check_def
  by (rule emits_bnd [OF assms(1)]) (auto intro!: emits_ret assms(2-) split: option.splits)

text \<open>The two rules above for a first step that is a single request.\<close>

lemma emits_bnd_asking [emit_rules]:
  "(\<And>a. emits (f a) P) \<Longrightarrow> emits (bnd (ext (asking g)) f) P"
  by (rule emits_bnd [where Q = "\<lambda>r evs. evs = [] \<and> (\<exists>a. r = Done a)"]) (auto intro: emits_asking)

lemma emits_orelse_asking [emit_rules]:
  "(\<And>a. emits (f a) P) \<Longrightarrow> (\<And>e. P (Done (Inl e)) []) \<Longrightarrow> emits (orelse (ext (asking g)) f) P"
  by (rule emits_orelse [where Q = "\<lambda>r evs. evs = [] \<and> (\<exists>a. r = Done a)"]) (auto intro: emits_asking)

lemma emits_check_asking [emit_rules]:
  "emits f P \<Longrightarrow> (\<And>e. P (Done (Some e)) []) \<Longrightarrow> emits (check (ext (asking g)) f) P"
  by (rule emits_check [where Q = "\<lambda>r evs. evs = [] \<and> (\<exists>a. r = Done a)"]) (auto intro: emits_asking)

lemma emits_bnd_changing [emit_rules]:
  "(\<And>a. emits (f a) (\<lambda>r e. P r (ev a # e))) \<Longrightarrow> emits (bnd (ext (changing ev g)) f) P"
  by (rule emits_bnd [where Q = "\<lambda>r evs. \<exists>a. r = Done a \<and> evs = [ev a]"]) (auto intro: emits_changing)

lemma emits_check_changing [emit_rules]:
  "emits f (\<lambda>r e. P r (ev None # e)) \<Longrightarrow> (\<And>e. P (Done (Some e)) [ev (Some e)]) \<Longrightarrow>
   emits (check (ext (changing ev g)) f) P"
  by (rule emits_check [where Q = "\<lambda>r evs. \<exists>a. r = Done a \<and> evs = [ev a]"]) (auto intro: emits_changing)

section \<open>A concrete host\<close>

text \<open>
  A host on which every request succeeds and nothing changes: it shows that hypotheses on a host can
  hold. Witnesses use it, with single operations replaced where they need another answer.
\<close>

definition demo_link :: nlink where
  "demo_link = OtherLink \<lparr> la_Index = 7, la_Name = ''eth1'', la_Statistics = None \<rparr> ''veth''"

definition quiet_host :: "'w netlib" where
  "quiet_host =
     \<lparr> nl_protoSize = (\<lambda>p. if p = empty_pb_LinkProperties then 0 else 1),
       nl_HANDLE_ROOT = 0xFFFFFFFF,
       nl_MakeHandle = (\<lambda>a b. a * 65536 + b),
       nl_GetCurrentNS = (\<lambda>w. (Inr ''/proc/self/ns/net'', w)),
       nl_GetNS = (\<lambda>p w. (Inr p, w)),
       nl_enter = (\<lambda>p w. (None, w)),
       nl_LinkByName = (\<lambda>ns n w. (Inr demo_link, w)),
       nl_LinkList = (\<lambda>ns w. (Inr [demo_link], w)),
       nl_LinkDel = (\<lambda>ns l w. (None, w)),
       nl_QdiscList = (\<lambda>ns l w. (Inr [], w)),
       nl_QdiscDel = (\<lambda>ns q w. (None, w)),
       nl_QdiscAdd = (\<lambda>ns q w. (None, w)),
       nl_tc = (\<lambda>ns a w. (None, w)),
       nl_MakeVeth = (\<lambda>a b w. (None, w)),
       nl_RemoveVethLink = (\<lambda>v w. (None, w)),
       nl_IsExistLinkInNS = (\<lambda>ns n w. (False, w)),
       nl_MakeVxLan = (\<lambda>v x w. (None, w)),
       nl_MakeMacVLan = (\<lambda>v m w. (None, w)),
       nl_Interfaces = (\<lambda>w. ([], w)),
       nl_RouteGet = (\<lambda>a w. (([], None), w)),
       nl_LinkByIndex = (\<lambda>i w. (Inr demo_link, w)),
       nl_InterfaceByName = (\<lambda>n w. (Inr (attrs demo_link), w)),
       nl_InterfaceByIndex = (\<lambda>i w. (Inr (attrs demo_link), w)),
       nl_OpenLive = (\<lambda>n w. (Inr 1, w)),
       nl_WritePacketData = (\<lambda>h f w. (None, w)) \<rparr>"

lemma quiet_host_proto_size: "proto_size_ok quiet_host"
  by (simp add: proto_size_ok_def quiet_host_def)

end
