(* ===== verification/Utils.thy ===== *)
theory Utils
  imports NetLib
begin

text \<open>
  \<open>common/utils.go\<close>: the generic \<open>Map\<close>, the correspondence between link UIDs and VXLAN network
  identifiers, the per-link mutexes and \<open>UpdateRemote\<close>, which asks the daemon of the peer's node to
  set up its end of a link.

  The remote calls are parameters: \<open>'w remote_rpcs\<close> and \<open>'w rpcs\<close> hold the gRPC client operations the sources use.
\<close>

section \<open>Map\<close>

text \<open>
  \<open>us := make([]U, len(ts)); for i := range ts { us[i] = f(ts[i]) }\<close>, where \<open>z\<close> is the zero value
  of the element type and \<open>i\<close> the next index.
\<close>

fun map_loop :: "'t list \<Rightarrow> nat \<Rightarrow> ('t \<Rightarrow> 'u) \<Rightarrow> 'u list \<Rightarrow> 'u list" where
  "map_loop [] i f us = us"
| "map_loop (t # ts) i f us = map_loop ts (i + 1) f (us[i := f t])"

definition Map :: "'u \<Rightarrow> 't list \<Rightarrow> ('t \<Rightarrow> 'u) \<Rightarrow> 'u list" where
  "Map z ts f = map_loop ts 0 f (replicate (length ts) z)"

lemma map_loop_append:
  "map_loop ts (length done) f (done @ replicate (length ts) z) = done @ map f ts"
proof (induction ts arbitrary: "done")
  case Nil
  then show ?case by simp
next
  case (Cons t ts)
  from Cons [of "done @ [f t]"] show ?case by (simp add: list_update_append)
qed

lemma Map_map: "Map z ts f = map f ts"
  using map_loop_append [of ts "[]" f z] by (simp add: Map_def)

section \<open>Link UIDs and VXLAN network identifiers\<close>

definition VxlanBase :: int where
  "VxlanBase = 5000"

definition GetVniFromUid :: "int64 \<Rightarrow> int32" where
  "GetVniFromUid uid = ucast (of_int VxlanBase + uid)"

definition GetUidFromVni :: "int32 \<Rightarrow> int64" where
  "GetUidFromVni vni = scast (vni - of_int VxlanBase)"

section \<open>Mutexes per key\<close>

text \<open>
  \<open>MutexMap\<close>: \<open>None\<close> where no mutex was created yet, otherwise whether it is locked. \<open>Lock\<close> on a
  locked mutex does not return.
\<close>

type_synonym 'k MutexMap = "'k \<Rightarrow> bool option"

definition MutexMap_Get :: "'k \<Rightarrow> 'k MutexMap \<Rightarrow> 'k MutexMap" where
  "MutexMap_Get key m = (case m key of None \<Rightarrow> m(key \<mapsto> False) | Some _ \<Rightarrow> m)"

definition Lock :: "'k \<Rightarrow> ('k MutexMap, unit) go" where
  "Lock key = (\<lambda>m. let m' = MutexMap_Get key m
                   in if m' key = Some True then (Abort Blocked, m') else (Done (), m'(key \<mapsto> True)))"

definition Unlock :: "'k \<Rightarrow> ('k MutexMap, unit) go" where
  "Unlock key = (\<lambda>m. if m key = Some True then (Done (), m(key \<mapsto> False))
                     else (Abort (Fatal ''sync: unlock of unlocked mutex''), m))"

definition held :: "'k MutexMap \<Rightarrow> 'k set" where
  "held m = {k. m k = Some True}"

lemma Lock_free: "key \<notin> held m \<Longrightarrow> Lock key m = (Done (), m(key \<mapsto> True))"
  by (auto simp: Lock_def MutexMap_Get_def held_def Let_def split: option.splits)

lemma Lock_held: "key \<in> held m \<Longrightarrow> Lock key m = (Abort Blocked, m)"
  by (auto simp: Lock_def MutexMap_Get_def held_def Let_def split: option.splits)

lemma Unlock_held: "key \<in> held m \<Longrightarrow> Unlock key m = (Done (), m(key \<mapsto> False))"
  by (simp add: Unlock_def held_def)

lemma held_upd [simp]: "held (m(k \<mapsto> True)) = insert k (held m)" "held (m(k \<mapsto> False)) = held m - {k}"
  by (auto simp: held_def)

section \<open>Remote calls\<close>

definition DefaultPort :: string where
  "DefaultPort = ''51111''"

definition Localhost :: string where
  "Localhost = ''localhost''"

text \<open>
  The clients of the services \<open>Remote\<close> (\<open>Update\<close>) and \<open>Local\<close>, over a connection to a daemon. The calls of
  the plugin, which have no deadline, may never return.
\<close>

record 'w dialer =
  rpc_Dial :: "string \<Rightarrow> 'w \<Rightarrow> error option \<times> 'w"

record 'w remote_rpcs = "'w dialer" +
  rpc_Update :: "string \<Rightarrow> pb_RemotePod \<Rightarrow> 'w \<Rightarrow> (error + bool) \<times> 'w"

record 'w rpcs = "'w dialer" +
  rpc_AddLinks :: "string \<Rightarrow> pb_LinksBatchQuery \<Rightarrow> 'w \<Rightarrow> (error + bool) \<times> 'w"
  rpc_DelLinks :: "string \<Rightarrow> pb_LinksBatchQuery \<Rightarrow> 'w \<Rightarrow> (error + bool) \<times> 'w"
  rpc_UpdateLinks :: "string \<Rightarrow> pb_LinksBatchQuery \<Rightarrow> 'w \<Rightarrow> (error + bool) \<times> 'w"
  rpc_SetupPod :: "string \<Rightarrow> pb_SetupPodQuery \<Rightarrow> ('w, error + bool) go"
  rpc_DestroyPod :: "string \<Rightarrow> pb_PodQuery \<Rightarrow> ('w, error + bool) go"

definition remote_payload :: "pb_Pod \<Rightarrow> pb_Pod \<Rightarrow> pb_Link \<Rightarrow> pb_RemotePod" where
  "remote_payload localPod peerPod link =
     \<lparr> rp_net_ns = pod_net_ns peerPod,
       rp_intf_name = pb_peer_intf link,
       rp_intf_ip = pb_peer_ip link,
       rp_peer_vtep = pod_src_ip localPod,
       rp_kube_ns = pod_kube_ns localPod,
       rp_vni = GetVniFromUid (pb_uid link),
       rp_properties = pb_properties link,
       rp_name = pb_peer_pod link \<rparr>"

definition daemon_url :: "string \<Rightarrow> string" where
  "daemon_url ip = ''passthrough:///'' @ ip @ '':'' @ DefaultPort"

definition UpdateRemote :: "'w remote_rpcs \<Rightarrow> pb_Pod \<Rightarrow> pb_Pod \<Rightarrow> pb_Link \<Rightarrow> ('w, error option) go" where
  "UpdateRemote R localPod peerPod link =
     (let payload = remote_payload localPod peerPod link;
          url = daemon_url (pod_src_ip peerPod)
      in check (ext (rpc_Dial R url))
           (bnd (ext (rpc_Update R url payload)) (\<lambda>r. case r of
              Inl err \<Rightarrow> ret (Some err)
            | Inr response \<Rightarrow> ret None)))"

lemma returns_UpdateRemote [go_rules]: "returns (UpdateRemote R localPod peerPod link)"
  unfolding UpdateRemote_def Let_def by (auto intro!: go_rules split: sum.splits)

section \<open>Properties\<close>

lemma ucast_word_of_int: "(ucast (word_of_int k :: 64 word) :: 32 word) = word_of_int k"
  by (rule bit_word_eqI) (simp add: bit_simps)

lemma word_of_int_sint: "word_of_int (sint w) = w"
  by simp

lemma GetVniFromUid_int: "GetVniFromUid (word_of_int k) = word_of_int (VxlanBase + k)"
  by (simp only: GetVniFromUid_def ucast_word_of_int flip: of_int_add)

lemma GetUidFromVni_int: "GetUidFromVni (word_of_int j) = word_of_int (signed_take_bit 31 (j - VxlanBase))"
  by (simp only: GetUidFromVni_def scast_eq sint_sbintrunc' flip: of_int_diff) simp

lemma int64_inject:
  assumes "- (2 ^ 63) \<le> j" "j < 2 ^ 63" "- (2 ^ 63) \<le> k" "k < (2 :: int) ^ 63"
  shows "(word_of_int j :: int64) = word_of_int k \<longleftrightarrow> j = k"
proof
  assume "(word_of_int j :: int64) = word_of_int k"
  then have "sint (word_of_int j :: int64) = sint (word_of_int k :: int64)" by simp
  then show "j = k"
    using assms by (simp add: sint_sbintrunc' signed_take_bit_int_eq_self)
qed simp

lemma sint64_range: "- (2 ^ 63) \<le> sint (w :: int64)" "sint (w :: int64) < 2 ^ 63"
  using sint_range_size [of w] by (simp_all add: word_size)

text \<open>
  C39: A VXLAN network identifier gives back the UID of its link exactly for the UIDs that fit in 32
  signed bits, and two UIDs share an identifier exactly if they are equal modulo \<open>2 ^ 32\<close>.
\<close>

theorem vni_uid_correspondence:
  "(GetUidFromVni (GetVniFromUid uid) = uid \<longleftrightarrow> - (2 ^ 31) \<le> sint uid \<and> sint uid < 2 ^ 31)
   \<and> (GetVniFromUid uid = GetVniFromUid uid' \<longleftrightarrow> sint uid mod 2 ^ 32 = sint uid' mod 2 ^ 32)"
proof
  let ?k = "sint uid" and ?j = "sint uid'"
  have "GetUidFromVni (GetVniFromUid uid) = word_of_int (signed_take_bit 31 ?k)"
    using GetVniFromUid_int [of ?k] GetUidFromVni_int [of "VxlanBase + ?k"]
    by (simp only: word_of_int_sint add_diff_cancel_left')
  then have "GetUidFromVni (GetVniFromUid uid) = uid
      \<longleftrightarrow> (word_of_int (signed_take_bit 31 ?k) :: int64) = word_of_int ?k" by simp
  also have "\<dots> \<longleftrightarrow> signed_take_bit 31 ?k = ?k"
  proof (rule int64_inject)
    have "- (2 ^ 31) \<le> signed_take_bit 31 ?k" "signed_take_bit 31 ?k < 2 ^ 31"
      by (rule signed_take_bit_int_greater_eq_minus_exp signed_take_bit_int_less_exp)+
    then show "- (2 ^ 63) \<le> signed_take_bit 31 ?k" "signed_take_bit 31 ?k < 2 ^ 63" by simp_all
  qed (rule sint64_range)+
  finally show "GetUidFromVni (GetVniFromUid uid) = uid \<longleftrightarrow> - (2 ^ 31) \<le> ?k \<and> ?k < 2 ^ 31"
    by (simp add: signed_take_bit_int_eq_self_iff)
  have "GetVniFromUid uid = GetVniFromUid uid'
      \<longleftrightarrow> (VxlanBase + ?k) mod 2 ^ 32 = (VxlanBase + ?j) mod 2 ^ 32"
    using GetVniFromUid_int [of ?k] GetVniFromUid_int [of ?j]
    by (simp only: word_of_int_sint word_of_int_eq_iff take_bit_eq_mod) simp
  also have "\<dots> \<longleftrightarrow> ?k mod 2 ^ 32 = ?j mod 2 ^ 32"
    by (simp add: mod_eq_dvd_iff)
  finally show "GetVniFromUid uid = GetVniFromUid uid' \<longleftrightarrow> ?k mod 2 ^ 32 = ?j mod 2 ^ 32" .
qed

end
