(* ===== verification/Registry.thy ===== *)
theory Registry
  imports Prelude
begin

text \<open>
  The contract the in-memory tables of the daemon share (\<open>VxlanManager\<close>, \<open>TopologyManager\<close> and
  \<open>wireMap\<close>), stated as a locale: a lookup after an addition or a deletion. Keys that violate what a
  table expects of its keys are outside the contract. Each table interprets it with its own
  operations, and inherits the lemmas on sequences of operations proved here.

  The theory also holds the cells Go pointers refer to.
\<close>

section \<open>Pointers\<close>

type_synonym ptr = nat

record 'a mem =
  cells :: "ptr \<Rightarrow> 'a option"
  fresh :: ptr

definition alloc :: "'a \<Rightarrow> 'a mem \<Rightarrow> ptr \<times> 'a mem" where
  "alloc v m = (fresh m, \<lparr> cells = (cells m)(fresh m \<mapsto> v), fresh = fresh m + 1 \<rparr>)"

definition store :: "ptr \<Rightarrow> 'a \<Rightarrow> 'a mem \<Rightarrow> 'a mem" where
  "store p v m = m\<lparr> cells := (cells m)(p \<mapsto> v) \<rparr>"

definition mem_ok :: "'a mem \<Rightarrow> bool" where
  "mem_ok m \<longleftrightarrow> (\<forall>p. cells m p \<noteq> None \<longrightarrow> p < fresh m)"

definition empty_mem :: "'a mem" where
  "empty_mem = \<lparr> cells = (\<lambda>_. None), fresh = 0 \<rparr>"

lemma mem_ok_empty [simp]: "mem_ok empty_mem"
  by (simp add: mem_ok_def empty_mem_def)

lemma mem_ok_alloc: "mem_ok m \<Longrightarrow> alloc v m = (p, m') \<Longrightarrow> mem_ok m' \<and> cells m p = None \<and> cells m' p = Some v"
  by (auto simp: mem_ok_def alloc_def less_Suc_eq)

lemma mem_ok_store: "mem_ok m \<Longrightarrow> cells m p \<noteq> None \<Longrightarrow> mem_ok (store p v m)"
  by (auto simp: mem_ok_def store_def)

lemma alloc_other: "alloc v m = (p, m') \<Longrightarrow> q \<noteq> p \<Longrightarrow> cells m' q = cells m q"
  by (auto simp: alloc_def)

lemma alloc_keeps:
  assumes "mem_ok m" "alloc v m = (q, m')" "cells m p = Some t"
  shows "cells m' p = Some t"
  using assms mem_ok_alloc [OF assms(1,2)] alloc_other [OF assms(2), of p] by (cases "p = q") auto

lemma store_cells [simp]: "cells (store p v m) q = (if q = p then Some v else cells m q)"
  by (simp add: store_def)

section \<open>Tables\<close>

text \<open>
  An operation on a table adds an entry, which determines its key and the value stored under it, or
  deletes the key of an argument.
\<close>

datatype ('e, 'd) tableop = Put 'e | Drop 'd

text \<open>What a key holds after a sequence of operations, given what it held before.\<close>

fun last_write ::
  "('e \<Rightarrow> 'k) \<Rightarrow> ('e \<Rightarrow> 'v) \<Rightarrow> ('d \<Rightarrow> 'k) \<Rightarrow> 'k \<Rightarrow> ('e, 'd) tableop list \<Rightarrow> 'v option \<Rightarrow> 'v option" where
  "last_write key val dkey k [] v = v"
| "last_write key val dkey k (Put e # os) v =
     last_write key val dkey k os (if key e = k then Some (val e) else v)"
| "last_write key val dkey k (Drop d # os) v =
     last_write key val dkey k os (if dkey d = k then None else v)"

fun op_key :: "('e \<Rightarrow> 'k) \<Rightarrow> ('d \<Rightarrow> 'k) \<Rightarrow> ('e, 'd) tableop \<Rightarrow> 'k" where
  "op_key key dkey (Put e) = key e"
| "op_key key dkey (Drop d) = dkey d"

locale registry =
  fixes valid :: "'k \<Rightarrow> bool"
    and key :: "'e \<Rightarrow> 'k"
    and val :: "'e \<Rightarrow> 'v"
    and dkey :: "'d \<Rightarrow> 'k"
    and empty :: 's
    and put :: "'e \<Rightarrow> 's \<Rightarrow> 's"
    and del :: "'d \<Rightarrow> 's \<Rightarrow> 's"
    and get :: "'k \<Rightarrow> 's \<Rightarrow> 'v option"
  assumes get_empty: "get k empty = None"
    and get_put: "valid k \<Longrightarrow> valid (key e) \<Longrightarrow> get k (put e s) = (if key e = k then Some (val e) else get k s)"
    and get_del: "valid k \<Longrightarrow> valid (dkey d) \<Longrightarrow> get k (del d s) = (if dkey d = k then None else get k s)"
begin

definition exec :: "('e, 'd) tableop \<Rightarrow> 's \<Rightarrow> 's" where
  "exec x s = (case x of Put e \<Rightarrow> put e s | Drop d \<Rightarrow> del d s)"

lemma get_exec_all:
  "valid k \<Longrightarrow> list_all (\<lambda>x. valid (op_key key dkey x)) xs \<Longrightarrow>
   get k (fold exec xs s) = last_write key val dkey k xs (get k s)"
proof (induction xs arbitrary: s)
  case Nil
  then show ?case by simp
next
  case (Cons x xs)
  then show ?case by (cases x) (simp_all add: exec_def get_put get_del)
qed

lemma get_exec_from_empty:
  "valid k \<Longrightarrow> list_all (\<lambda>x. valid (op_key key dkey x)) xs \<Longrightarrow>
   get k (fold exec xs empty) = last_write key val dkey k xs None"
  by (simp add: get_exec_all get_empty)

end

end
