(* ===== verification/Qdisc.thy ===== *)
theory Qdisc
  imports NetLib
begin

text \<open>
  \<open>common/qdisc.go\<close>: the parsers of link properties, the construction of the queueing disciplines of
  a link (\<open>MakeQdiscs\<close>) and their installation on an interface (\<open>ClearVethQdiscs\<close>, \<open>SetVethQdiscs\<close>,
  \<open>AddBpf\<close>). A \<open>float32\<close> percentage is the rational it denotes. The value \<open>TCPIP_BYPASS\<close> of the Go
  context is the argument \<open>bypass\<close>, \<open>None\<close> when the context does not carry it.
\<close>

section \<open>Parsing link properties\<close>

definition ParseFloatPercentage :: "string \<Rightarrow> error + rat" where
  "ParseFloatPercentage str =
     (if str = [] then Inr 0
      else sbind (ParseFloat32 str) (\<lambda>value.
        case value of
          NaN \<Rightarrow> Inl (Errorf ''percentage value must be a number'')
        | Inf _ \<Rightarrow> Inl (Errorf ''percentage value must be between 0 and 100'')
        | Fin v \<Rightarrow> if v < 0 \<or> v > 100
                  then Inl (Errorf ''percentage value must be between 0 and 100'')
                  else Inr v))"

text \<open>Microseconds, converted to \<open>uint32\<close>; \<open>Microseconds()\<close> truncates.\<close>

definition ParseDuration :: "string \<Rightarrow> error + uint32" where
  "ParseDuration str =
     (if str = [] then Inr 0
      else sbind (time_ParseDuration str) (\<lambda>value.
        if value < 0 then Inl (Errorf ''duration value must be positive'')
        else Inr (of_int (value div 1000))))"

text \<open>\<open>for j := 0; j < i+1; j++ { unitMultiplier *= base }\<close>\<close>

fun mul_loop :: "nat \<Rightarrow> uint64 \<Rightarrow> uint64 \<Rightarrow> uint64" where
  "mul_loop 0 base m = m"
| "mul_loop (Suc j) base m = mul_loop j base (m * base)"

text \<open>The loop over the unit letters, with the index of the next one.\<close>

fun unit_loop :: "string list \<Rightarrow> nat \<Rightarrow> string \<Rightarrow> uint64 \<Rightarrow> uint64 \<Rightarrow> string \<times> uint64" where
  "unit_loop [] i rate base m = (rate, m)"
| "unit_loop (unit # units) i rate base m =
     (if HasSuffix rate unit then (TrimSuffix rate unit, mul_loop (i + 1) base m)
      else unit_loop units (i + 1) rate base m)"

definition ParseRate :: "string \<Rightarrow> error + uint64" where
  "ParseRate rate0 =
     (let rate1 = TrimSpace (ToLower rate0)
      in if rate1 = [] then Inr 0
         else let (rate2, m) =
                    (if HasSuffix rate1 ''bit'' then (TrimSuffix rate1 ''bit'', 1)
                     else if HasSuffix rate1 ''bps'' then (TrimSuffix rate1 ''bps'', 8)
                     else (rate1, 1));
                  (rate3, base) =
                    (if HasSuffix rate2 ''i'' then (TrimSuffix rate2 ''i'', 1024) else (rate2, 1000));
                  (rate4, mult) = unit_loop [''k'', ''m'', ''g'', ''t''] 0 rate3 base m
              in sbind (ParseUint rate4) (\<lambda>value. Inr (value * mult)))"

text \<open>Burst size of a token bucket filter.\<close>

definition getTbfBurst :: "uint64 \<Rightarrow> uint32" where
  "getTbfBurst rate =
     (let burst = ucast (rate div 250) in if burst < (5000 :: uint32) then 5000 else burst)"

section \<open>Building the disciplines of a link\<close>

definition MakeQdiscs :: "'w netlib \<Rightarrow> pb_LinkProperties option \<Rightarrow> error + qdisc list" where
  "MakeQdiscs N properties =
     (case properties of
        None \<Rightarrow> Inr []
      | Some p \<Rightarrow>
          if nl_protoSize N p = 0 then Inr []
          else
            sbind (ParseDuration (pb_latency p)) (\<lambda>latency.
            sbind (ParseFloatPercentage (pb_latency_corr p)) (\<lambda>latencyCorr.
            sbind (ParseDuration (pb_jitter p)) (\<lambda>jitter.
            sbind (ParseFloatPercentage (pb_loss p)) (\<lambda>loss.
            sbind (ParseFloatPercentage (pb_loss_corr p)) (\<lambda>lossCorr.
            sbind (ParseFloatPercentage (pb_duplicate p)) (\<lambda>duplicate.
            sbind (ParseFloatPercentage (pb_duplicate_corr p)) (\<lambda>duplicateCorr.
            sbind (ParseFloatPercentage (pb_reorder_prob p)) (\<lambda>reorderProb.
            sbind (ParseFloatPercentage (pb_reorder_corr p)) (\<lambda>reorderCorr.
            sbind (ParseFloatPercentage (pb_corrupt_prob p)) (\<lambda>corruptProb.
            sbind (ParseFloatPercentage (pb_corrupt_corr p)) (\<lambda>corruptCorr.
            let netemQdisc = Netem no_qattrs
                  \<lparr> nq_Latency = latency, nq_DelayCorr = latencyCorr, nq_Jitter = jitter,
                    nq_Loss = loss, nq_LossCorr = lossCorr, nq_Gap = pb_gap p,
                    nq_Duplicate = duplicate, nq_DuplicateCorr = duplicateCorr,
                    nq_ReorderProb = reorderProb, nq_ReorderCorr = reorderCorr,
                    nq_CorruptProb = corruptProb, nq_CorruptCorr = corruptCorr \<rparr>
            in sbind (ParseRate (pb_rate p)) (\<lambda>rate.
                 if rate \<noteq> 0
                 then Inr [netemQdisc,
                           Tbf no_qattrs \<lparr> tbf_Rate = rate, tbf_Buffer = getTbfBurst rate,
                                           tbf_Minburst = 1500 \<rparr>]
                 else Inr [netemQdisc])))))))))))))"

section \<open>Installing them on an interface\<close>

text \<open>The namespace of an interface: the current one if it has no name.\<close>

definition vethNs :: "'w netlib \<Rightarrow> string \<Rightarrow> ('w, error + string) go" where
  "vethNs N nsName = (if nsName = [] then ext (nl_GetCurrentNS N) else ext (nl_GetNS N nsName))"

text \<open>Which disciplines \<open>ClearVethQdiscs\<close> deletes: netem, tbf and the clsact discipline.\<close>

definition clear_target :: "'w netlib \<Rightarrow> qdisc \<Rightarrow> bool" where
  "clear_target N q =
     (case q of
        Netem _ _ \<Rightarrow> True
      | Tbf _ _ \<Rightarrow> True
      | GenericQdisc a _ \<Rightarrow> qa_Handle a = nl_MakeHandle N 0xffff 0
      | OtherQdisc _ _ \<Rightarrow> False)"

fun clear_loop :: "'w netlib \<Rightarrow> string \<Rightarrow> qdisc list \<Rightarrow> ('w, error option) go" where
  "clear_loop N ns [] = ret None"
| "clear_loop N ns (q # qs) =
     (if clear_target N q then bnd (ext (nl_QdiscDel N ns q)) (\<lambda>_. clear_loop N ns qs)
      else clear_loop N ns qs)"

definition ClearVethQdiscs :: "'w netlib \<Rightarrow> VEth \<Rightarrow> ('w, error option) go" where
  "ClearVethQdiscs N veth =
     bnd (vethNs N (NsName veth)) (\<lambda>r. case r of
       Inl e \<Rightarrow> ret (Some e)
     | Inr ns \<Rightarrow> ns_do N ns (
         bnd (ext (nl_LinkByName N ns (LinkName veth))) (\<lambda>r. case r of
           Inl e \<Rightarrow> ret (Some e)
         | Inr link \<Rightarrow>
             bnd (ext (nl_QdiscList N ns link)) (\<lambda>r. case r of
               Inl e \<Rightarrow> ret (Some e)
             | Inr qdiscs \<Rightarrow> clear_loop N ns qdiscs))))"

definition AddBpf :: "'w netlib \<Rightarrow> string \<Rightarrow> VEth \<Rightarrow> string \<Rightarrow> string \<Rightarrow> ('w, error option) go" where
  "AddBpf N ns veth path section =
     check (ext (nl_tc N ns [''qdisc'', ''add'', ''dev'', LinkName veth, ''clsact'']))
       (ext (nl_tc N ns [''filter'', ''add'', ''dev'', LinkName veth, ''egress'', ''bpf'', ''obj'', path,
                         ''sec'', section]))"

text \<open>The arguments of the \<open>tc\<close> command for a token bucket filter.\<close>

definition tbf_args :: "VEth \<Rightarrow> bool \<Rightarrow> TbfAttrs \<Rightarrow> string list" where
  "tbf_args veth withNetem t =
     [''qdisc'', ''add'', ''dev'', LinkName veth]
     @ (if withNetem then [''parent'', ''1:1'', ''handle'', ''10:0''] else [''root''])
     @ [''tbf'', ''rate'', nat_str (unat (tbf_Rate t)), ''burst'', nat_str (unat (tbf_Buffer t)),
        ''latency'', ''50ms'', ''minburst'', nat_str (unat (tbf_Minburst t))]"

definition netem_at :: "'w netlib \<Rightarrow> nlink \<Rightarrow> NetemQdiscAttrs \<Rightarrow> qdisc" where
  "netem_at N link n =
     Netem \<lparr> qa_LinkIndex = la_Index (attrs link), qa_Handle = nl_MakeHandle N 1 0,
             qa_Parent = nl_HANDLE_ROOT N \<rparr> n"

fun set_loop :: "'w netlib \<Rightarrow> string \<Rightarrow> VEth \<Rightarrow> nlink \<Rightarrow> qdisc list \<Rightarrow> bool \<Rightarrow> ('w, error option) go" where
  "set_loop N ns veth link [] withNetem = ret None"
| "set_loop N ns veth link (q # qs) withNetem =
     (case q of
        Netem _ n \<Rightarrow> check (ext (nl_QdiscAdd N ns (netem_at N link n))) (set_loop N ns veth link qs True)
      | Tbf _ t \<Rightarrow> check (ext (nl_tc N ns (tbf_args veth withNetem t))) (set_loop N ns veth link qs withNetem)
      | _ \<Rightarrow> set_loop N ns veth link qs withNetem)"

definition SetVethQdiscs :: "'w netlib \<Rightarrow> bool option \<Rightarrow> VEth \<Rightarrow> qdisc list \<Rightarrow> ('w, error option) go" where
  "SetVethQdiscs N bypass veth qdiscs =
     bnd (ClearVethQdiscs N veth) (\<lambda>_.
     if qdiscs = [] then ret None
     else bnd (vethNs N (NsName veth)) (\<lambda>r. case r of
       Inl e \<Rightarrow> ret (Some e)
     | Inr ns \<Rightarrow>
         let tcpIpBypass = (case bypass of Some b \<Rightarrow> b | None \<Rightarrow> False)
         in ns_do N ns (
              bnd (ext (nl_LinkByName N ns (LinkName veth))) (\<lambda>r. case r of
                Inl e \<Rightarrow> ret (Some e)
              | Inr link \<Rightarrow>
                  check (set_loop N ns veth link qdiscs False)
                    (if tcpIpBypass
                     then AddBpf N ns veth ''/opt/kubedtn/redir_disable_bpf.o'' ''egress''
                     else ret None)))))"

section \<open>Vocabulary of the properties\<close>

definition rate_prefixes :: "(string \<times> nat) list" where
  "rate_prefixes = [('''', 0), (''k'', 1), (''m'', 2), (''g'', 3), (''t'', 4)]"

definition rate_suffixes :: "(string \<times> nat) list" where
  "rate_suffixes = [('''', 1), (''bit'', 1), (''bps'', 8)]"

definition netem_ok :: "NetemQdiscAttrs \<Rightarrow> bool" where
  "netem_ok n \<longleftrightarrow> list_all (\<lambda>v. 0 \<le> v \<and> v \<le> 100)
     [nq_DelayCorr n, nq_Loss n, nq_LossCorr n, nq_Duplicate n, nq_DuplicateCorr n,
      nq_ReorderProb n, nq_ReorderCorr n, nq_CorruptProb n, nq_CorruptCorr n]"

definition tbf_for :: "uint64 \<Rightarrow> TbfAttrs" where
  "tbf_for rate = \<lparr> tbf_Rate = rate, tbf_Buffer = getTbfBurst rate, tbf_Minburst = 1500 \<rparr>"

text \<open>The disciplines \<open>MakeQdiscs\<close> can build: none, a netem, or a netem followed by a rate limit.\<close>

fun link_qdiscs :: "qdisc list \<Rightarrow> bool" where
  "link_qdiscs [] = True"
| "link_qdiscs [Netem a n] = (a = no_qattrs \<and> netem_ok n)"
| "link_qdiscs [Netem a n, Tbf b t] =
     (a = no_qattrs \<and> netem_ok n \<and> b = no_qattrs \<and> tbf_Rate t \<noteq> 0 \<and> t = tbf_for (tbf_Rate t))"
| "link_qdiscs _ = False"

fun is_qdisc_del :: "event \<Rightarrow> bool" where
  "is_qdisc_del (EvQdiscDel _ _ _) = True"
| "is_qdisc_del _ = False"

fun install_requests :: "'w netlib \<Rightarrow> string \<Rightarrow> VEth \<Rightarrow> nlink \<Rightarrow> qdisc list \<Rightarrow> bool \<Rightarrow> event list" where
  "install_requests N ns veth link [] withNetem = []"
| "install_requests N ns veth link (q # qs) withNetem =
     (case q of
        Netem _ n \<Rightarrow> EvQdiscAdd ns (netem_at N link n) None # install_requests N ns veth link qs True
      | Tbf _ t \<Rightarrow> EvTc ns (tbf_args veth withNetem t) None # install_requests N ns veth link qs withNetem
      | _ \<Rightarrow> install_requests N ns veth link qs withNetem)"

definition bpf_requests :: "string \<Rightarrow> VEth \<Rightarrow> event list" where
  "bpf_requests ns veth =
     [EvTc ns [''qdisc'', ''add'', ''dev'', LinkName veth, ''clsact''] None,
      EvTc ns [''filter'', ''add'', ''dev'', LinkName veth, ''egress'', ''bpf'', ''obj'',
               ''/opt/kubedtn/redir_disable_bpf.o'', ''sec'', ''egress''] None]"

definition bpf_tail :: "bool option \<Rightarrow> string \<Rightarrow> VEth \<Rightarrow> event list" where
  "bpf_tail bypass ns veth = (if bypass = Some True then bpf_requests ns veth else [])"

section \<open>Parsers\<close>

lemma mul_loop_power: "mul_loop n base m = m * base ^ n"
  by (induction n arbitrary: m) (simp_all add: mult.assoc)

lemma digit_last_not_suffix:
  assumes "list_all is_digit ds" "ds \<noteq> []" "p \<noteq> []" "\<not> is_digit (last p)"
  shows "\<not> HasSuffix ds p"
  using assms HasSuffix_last by (metis last_in_set list_all_iff)

lemma HasSuffix_bit_bps:
  "HasSuffix (xs @ [c]) ''bit'' \<longleftrightarrow> c = CHR ''t'' \<and> HasSuffix xs ''bi''"
  "HasSuffix (xs @ [c]) ''bps'' \<longleftrightarrow> c = CHR ''s'' \<and> HasSuffix xs ''bp''"
  "HasSuffix (xs @ [c]) [d] \<longleftrightarrow> c = d"
  using HasSuffix_snoc [of xs c "''bi''" "CHR ''t''"] HasSuffix_snoc [of xs c "''bp''" "CHR ''s''"]
  by (simp_all add: HasSuffix_single)

lemma rate_digits_suffix:
  assumes "list_all is_digit ds" "ds \<noteq> []"
  shows "\<not> HasSuffix ds ''bit''" "\<not> HasSuffix ds ''bps''" "\<not> HasSuffix ds ''bi''"
    "\<not> is_digit c \<Longrightarrow> \<not> HasSuffix ds [c]"
  using digit_last_not_suffix [OF assms] by (simp_all add: is_digit_def)

lemma unit_stage:
  assumes "list_all is_digit ds" "ds \<noteq> []" "(p, k) \<in> set rate_prefixes"
  shows "unit_loop [''k'', ''m'', ''g'', ''t''] 0 (ds @ p) base m = (ds, m * base ^ k)"
  using assms(3) rate_digits_suffix(4) [OF assms(1,2)] unfolding rate_prefixes_def
  by (auto simp: HasSuffix_bit_bps is_digit_def mul_loop_power mult.assoc power2_eq_square
      power3_eq_cube power4_eq_xxxx)

lemma base_stage:
  assumes "list_all is_digit ds" "ds \<noteq> []" "(p, k) \<in> set rate_prefixes"
  shows "HasSuffix (ds @ p @ (if iec then ''i'' else '''')) ''i'' \<longleftrightarrow> iec"
    and "iec \<Longrightarrow> TrimSuffix (ds @ p @ ''i'') ''i'' = ds @ p"
proof -
  show "HasSuffix (ds @ p @ (if iec then ''i'' else '''')) ''i'' \<longleftrightarrow> iec"
    using assms(3) rate_digits_suffix(4) [OF assms(1,2)] HasSuffix_append [of "ds @ p" "''i''"]
    unfolding rate_prefixes_def by (auto simp: HasSuffix_bit_bps is_digit_def)
  show "TrimSuffix (ds @ p @ ''i'') ''i'' = ds @ p"
    using TrimSuffix_append [of "ds @ p" "''i''"] by simp
qed

lemma plain_stage:
  assumes "list_all is_digit ds" "ds \<noteq> []" "(p, k) \<in> set rate_prefixes"
  shows "\<not> HasSuffix (ds @ p @ (if iec then ''i'' else '''')) ''bit''"
    and "\<not> HasSuffix (ds @ p @ (if iec then ''i'' else '''')) ''bps''"
proof -
  have "HasSuffix ((ds @ p) @ [CHR ''i'']) ''bit'' = False" "HasSuffix ((ds @ p) @ [CHR ''i'']) ''bps'' = False"
    by (simp_all only: HasSuffix_bit_bps) simp_all
  then show "\<not> HasSuffix (ds @ p @ (if iec then ''i'' else '''')) ''bit''"
    and "\<not> HasSuffix (ds @ p @ (if iec then ''i'' else '''')) ''bps''"
    using assms(3) rate_digits_suffix [OF assms(1,2)]
    unfolding rate_prefixes_def by (auto simp: HasSuffix_bit_bps)
qed

lemma ParseRate_accepts:
  assumes ds: "list_all is_digit ds" "ds \<noteq> []" "dec_val ds < 2 ^ 64"
    and p: "(p, k) \<in> set rate_prefixes" and u: "(u, m) \<in> set rate_suffixes"
    and r: "TrimSpace (ToLower r) = ds @ p @ (if iec then ''i'' else '''') @ u"
  shows "ParseRate r = Inr (of_nat (dec_val ds * m * (if iec then 1024 else 1000) ^ k))"
proof -
  let ?b = "ds @ p @ (if iec then ''i'' else '''')"
  have s1: "(if HasSuffix (?b @ u) ''bit'' then (TrimSuffix (?b @ u) ''bit'', 1)
             else if HasSuffix (?b @ u) ''bps'' then (TrimSuffix (?b @ u) ''bps'', 8)
             else (?b @ u, 1)) = (?b, of_nat m :: uint64)"
    using u plain_stage [OF ds(1,2) p, of iec] HasSuffix_append [of ?b "''bit''"]
      HasSuffix_append [of ?b "''bps''"] TrimSuffix_append [of ?b "''bit''"] TrimSuffix_append [of ?b "''bps''"]
      HasSuffix_bit_bps(1) [of "?b @ ''bp''" "CHR ''s''"]
    unfolding rate_suffixes_def by auto
  have s2: "(if HasSuffix ?b ''i'' then (TrimSuffix ?b ''i'', 1024) else (?b, 1000))
            = (ds @ p, if iec then 1024 else 1000 :: uint64)"
    using base_stage [OF ds(1,2) p, of iec] by (cases iec) simp_all
  have r': "TrimSpace (ToLower r) = ?b @ u" using r by simp
  show ?thesis
    unfolding ParseRate_def r' Let_def s1 prod.case s2 unit_stage [OF ds(1,2) p]
    using ds by (simp add: ParseUint_digits mult.assoc)
qed

lemma TrimSuffix_split: "HasSuffix s p \<Longrightarrow> s = TrimSuffix s p @ p"
  by (metis HasSuffix_iff TrimSuffix_append)

lemma unit_loop_split:
  assumes "unit_loop [''k'', ''m'', ''g'', ''t''] 0 r base m = (r', m')"
  shows "\<exists>p k. (p, k) \<in> set rate_prefixes \<and> r = r' @ p \<and> m' = m * base ^ k"
proof -
  have hs: "\<exists>x. r = x @ [c] \<and> TrimSuffix r [c] = x" if "HasSuffix r [c]" for c
    using that by (metis HasSuffix_iff TrimSuffix_append)
  have "(r = r' @ ''k'' \<and> m' = m * base ^ 1) \<or> (r = r' @ ''m'' \<and> m' = m * base ^ 2)
      \<or> (r = r' @ ''g'' \<and> m' = m * base ^ 3) \<or> (r = r' @ ''t'' \<and> m' = m * base ^ 4)
      \<or> (r = r' \<and> m' = m * base ^ 0)"
    using assms hs [of "CHR ''k''"] hs [of "CHR ''m''"] hs [of "CHR ''g''"] hs [of "CHR ''t''"]
    by (auto simp: mul_loop_power mult.assoc power2_eq_square power3_eq_cube power4_eq_xxxx
        split: if_splits)
  then show ?thesis unfolding rate_prefixes_def by force
qed

text \<open>The binary marker and the unit at the end of a rate.\<close>

lemma rate_iec_split:
  assumes "(if HasSuffix r2 ''i'' then (TrimSuffix r2 ''i'', 1024) else (r2, 1000 :: uint64)) = (r3, base)"
  shows "\<exists>iec. r2 = r3 @ (if iec then ''i'' else '''') \<and> base = (if iec then 1024 else 1000)"
proof (cases "HasSuffix r2 ''i''")
  case True
  then show ?thesis using assms TrimSuffix_split [OF True] by (intro exI [of _ True]) simp
next
  case False
  then show ?thesis using assms by (intro exI [of _ False]) simp
qed

lemma rate_unit_split:
  assumes "(if HasSuffix s ''bit'' then (TrimSuffix s ''bit'', 1)
      else if HasSuffix s ''bps'' then (TrimSuffix s ''bps'', 8) else (s, 1 :: uint64)) = (r2, m)"
  shows "\<exists>u n. (u, n) \<in> set rate_suffixes \<and> s = r2 @ u \<and> m = of_nat n"
proof -
  consider "s = r2 @ ''bit'' \<and> m = 1" | "s = r2 @ ''bps'' \<and> m = 8" | "s = r2 \<and> m = 1"
    using assms TrimSuffix_split [of s "''bit''"] TrimSuffix_split [of s "''bps''"]
    by (auto split: if_splits)
  then show ?thesis
  proof cases
    case 1
    then show ?thesis by (intro exI [of _ "''bit''"] exI [of _ 1]) (simp add: rate_suffixes_def)
  next
    case 2
    then show ?thesis by (intro exI [of _ "''bps''"] exI [of _ 8]) (simp add: rate_suffixes_def)
  next
    case 3
    then show ?thesis by (intro exI [of _ "[]"] exI [of _ 1]) (simp add: rate_suffixes_def)
  qed
qed

lemma ParseRate_only:
  assumes "ParseRate r = Inr v" and ne: "TrimSpace (ToLower r) \<noteq> []"
  shows "\<exists>ds p k iec u m. (p, k) \<in> set rate_prefixes \<and> (u, m) \<in> set rate_suffixes
    \<and> ds \<noteq> [] \<and> list_all is_digit ds \<and> dec_val ds < 2 ^ 64
    \<and> TrimSpace (ToLower r) = ds @ p @ (if iec then ''i'' else '''') @ u
    \<and> v = of_nat (dec_val ds * m * (if iec then 1024 else 1000) ^ k)"
proof -
  define s where "s = TrimSpace (ToLower r)"
  obtain r2 m where r2: "(if HasSuffix s ''bit'' then (TrimSuffix s ''bit'', 1)
      else if HasSuffix s ''bps'' then (TrimSuffix s ''bps'', 8) else (s, 1 :: uint64)) = (r2, m)"
    by fastforce
  obtain r3 base where r3: "(if HasSuffix r2 ''i'' then (TrimSuffix r2 ''i'', 1024)
      else (r2, 1000 :: uint64)) = (r3, base)"
    by fastforce
  obtain r4 mult where r4: "unit_loop [''k'', ''m'', ''g'', ''t''] 0 r3 base m = (r4, mult)"
    by fastforce
  have "sbind (ParseUint r4) (\<lambda>value. Inr (value * mult)) = Inr v"
    using assms unfolding ParseRate_def Let_def s_def [symmetric]
    by (simp add: r2 r3 r4 del: unit_loop.simps)
  then obtain w where w: "ParseUint r4 = Inr w" "v = w * mult"
    by (auto simp: sbind_Inr_iff)
  then have ds: "r4 \<noteq> []" "list_all is_digit r4" "dec_val r4 < 2 ^ 64" "w = of_nat (dec_val r4)"
    by (simp_all add: ParseUint_Inr_iff)
  obtain p k where p: "(p, k) \<in> set rate_prefixes" "r3 = r4 @ p" "mult = m * base ^ k"
    using unit_loop_split [OF r4] by blast
  obtain iec where iec: "r2 = r3 @ (if iec then ''i'' else '''')" "base = (if iec then 1024 else 1000)"
    using rate_iec_split [OF r3] by blast
  obtain u n where u: "(u, n) \<in> set rate_suffixes" "s = r2 @ u" "m = of_nat n"
    using rate_unit_split [OF r2] by blast
  have "v = of_nat (dec_val r4 * n * (if iec then 1024 else 1000) ^ k)"
    using w(2) ds(4) p(3) iec(2) u(3) by (simp add: mult.assoc)
  moreover have "s = r4 @ p @ (if iec then ''i'' else '''') @ u"
    using u(2) iec(1) p(2) by simp
  ultimately show ?thesis
    using ds p(1) u(1) unfolding s_def by blast
qed

text \<open>
  C25: \<open>ParseRate\<close> accepts exactly the blank string (rate 0) and, after lower-casing and
  trimming, decimal digits below \<open>2 ^ 64\<close> followed by an optional SI prefix, an optional \<open>i\<close> and an
  optional \<open>bit\<close> or \<open>bps\<close>; its value is the number times 8 for \<open>bps\<close> and the power of 1000, or of
  1024 with \<open>i\<close>, that the prefix names, modulo \<open>2 ^ 64\<close>.
\<close>

theorem ParseRate_language:
  "ParseRate r = Inr v \<longleftrightarrow>
     (TrimSpace (ToLower r) = [] \<and> v = 0) \<or>
     (\<exists>ds p k iec u m. (p, k) \<in> set rate_prefixes \<and> (u, m) \<in> set rate_suffixes
        \<and> ds \<noteq> [] \<and> list_all is_digit ds \<and> dec_val ds < 2 ^ 64
        \<and> TrimSpace (ToLower r) = ds @ p @ (if iec then ''i'' else '''') @ u
        \<and> v = of_nat (dec_val ds * m * (if iec then 1024 else 1000) ^ k))"
proof (cases "TrimSpace (ToLower r) = []")
  case True
  then show ?thesis by (auto simp: ParseRate_def)
next
  case False
  then show ?thesis using ParseRate_only ParseRate_accepts by blast
qed

lemma ParseFloatPercentage_range: "ParseFloatPercentage s = Inr v \<Longrightarrow> 0 \<le> v \<and> v \<le> 100"
  by (auto simp: ParseFloatPercentage_def sbind_def split: if_splits sum.splits fval.splits)

lemma ParseDuration_whole:
  assumes "unitMap u = Some k" "n * k < 2 ^ 63"
  shows "ParseDuration (nat_str n @ u) = Inr (of_nat (n * k div 1000))"
proof -
  have "int (n * k) div 1000 = int (n * k div 1000)" by (simp add: zdiv_int)
  with assms show ?thesis by (simp add: ParseDuration_def time_ParseDuration_whole)
qed

text \<open>
  C40: A whole number of any unit of \<open>time.ParseDuration\<close> that is less than \<open>2 ^ 63\<close> nanoseconds is
  converted to its number of microseconds, rounded down, modulo \<open>2 ^ 32\<close>; any larger one is refused as
  an invalid duration.
\<close>

theorem ParseDuration_microseconds:
  assumes "unitMap u = Some k"
  shows "if n * k < 2 ^ 63 then \<exists>us. ParseDuration (nat_str n @ u) = Inr us \<and> unat us = (n * k div 1000) mod 2 ^ 32
    else ParseDuration (nat_str n @ u) = Inl InvalidDuration"
proof (cases "n * k < 2 ^ 63")
  case True
  with ParseDuration_whole [OF assms True] show ?thesis by (simp add: unat_of_nat)
next
  case False
  then have "time_ParseDuration (nat_str n @ u) = Inl InvalidDuration"
    by (intro time_ParseDuration_large [OF assms]) simp
  with False show ?thesis by (simp add: ParseDuration_def nat_str_nonempty)
qed

theorem ParseDuration_microseconds_witness:
  "(\<exists>us. ParseDuration (nat_str 300 @ ''ms'') = Inr us \<and> unat us = 300000)
   \<and> ParseDuration (nat_str 3000000 @ ''h'') = Inl InvalidDuration"
  using ParseDuration_microseconds [of "''ms''" 1000000 300] ParseDuration_microseconds [of "''h''" 3600000000000 3000000]
  by (simp add: unitMap_def)

lemma nat_str_72: "nat_str 72 = ''72''"
  by code_simp

theorem ParseDuration_wraps: "ParseDuration ''72m'' = Inr 25032704"
  using ParseDuration_whole [of "''m''" 60000000000 72] by (simp add: unitMap_def nat_str_72)

lemmas char_evals = is_digit_def digit_val_def lower_char_def base_digit_def hex_val_def drop_sign_def

theorem percentage_rounds: "ParseFloatPercentage ''100.000001'' = Inr 100"
proof -
  have "read_float ''100.000001'' = Some (False, 100000001, 1000000)"
    by (simp add: read_float_def read_exp_def char_evals)
  moreover have "special ''100.000001'' = None"
    by code_simp
  moreover have "log2_floor 100000001 1000000 = 6"
    by (simp add: log2_floor_def bits.simps scale2_def)
  ultimately show ?thesis
    by (simp add: ParseFloatPercentage_def ParseFloat32_def fround_def div_even_def float32_max_plus_def)
qed

text \<open>
  C26: Whatever the properties, \<open>MakeQdiscs\<close> builds no discipline, one netem, or one netem
  followed by one token bucket filter with a positive rate and the burst \<open>getTbfBurst\<close> gives; every
  percentage of the netem is between 0 and 100.
\<close>

theorem MakeQdiscs_shape:
  assumes "MakeQdiscs N properties = Inr qs"
  shows "link_qdiscs qs"
proof (cases properties)
  case None
  with assms show ?thesis by (simp add: MakeQdiscs_def)
next
  case (Some p)
  with assms show ?thesis
    by (auto simp: MakeQdiscs_def sbind_Inr_iff Let_def netem_ok_def tbf_for_def split: if_splits
        dest!: ParseFloatPercentage_range)
qed

text \<open>
  \<open>MakeQdiscs\<close> succeeds on a message exactly if its wire size is 0 or each of its twelve
  textual fields parses.
\<close>

theorem MakeQdiscs_succeeds:
  "ok (MakeQdiscs N (Some p)) \<longleftrightarrow>
     nl_protoSize N p = 0 \<or>
     (ok (ParseDuration (pb_latency p)) \<and> ok (ParseDuration (pb_jitter p)) \<and> ok (ParseRate (pb_rate p))
      \<and> list_all (\<lambda>s. ok (ParseFloatPercentage s))
          [pb_latency_corr p, pb_loss p, pb_loss_corr p, pb_duplicate p, pb_duplicate_corr p,
           pb_reorder_prob p, pb_reorder_corr p, pb_corrupt_prob p, pb_corrupt_corr p])"
  by (auto simp: MakeQdiscs_def ok_sbind ok_ex Let_def if_distrib [of ok] cong: if_cong)

text \<open>
  The burst is one 250th of the rate, truncated to 32 bits, and at least 5000.
\<close>

theorem getTbfBurst_bounds:
  "unat (getTbfBurst rate) = max 5000 ((unat rate div 250) mod 2 ^ 32)"
proof -
  have "unat (ucast (rate div 250) :: uint32) = (unat rate div 250) mod 2 ^ 32"
    by (simp add: unat_ucast_64_32 unat_div_distrib)
  then show ?thesis
    by (simp add: getTbfBurst_def Let_def word_less_nat_alt)
qed

section \<open>The requests of an installation\<close>

lemma netem_at_recording [simp]: "netem_at (recording N) = netem_at N"
  by (simp add: netem_at_def fun_eq_iff)

lemma clear_loop_emits:
  "emits (clear_loop (recording N) ns qs) (\<lambda>r evs. r = Done None \<and> list_all is_qdisc_del evs)"
  by (induction qs) (auto intro!: emit_rules intro: emits_mono)

lemma emits_vethNs [emit_rules]: 
  "(\<And>a. P (Done a) []) \<Longrightarrow> emits (vethNs (recording N) ns) P"
  by (simp add: vethNs_def emits_asking)

lemma emits_bnd_vethNs [emit_rules]:
  "(\<And>a. emits (f a) P) \<Longrightarrow> emits (bnd (vethNs (recording N) ns) f) P"
  by (simp add: vethNs_def emits_bnd_asking)

lemma ClearVethQdiscs_emits:
  "emits (ClearVethQdiscs (recording N) veth) (\<lambda>r evs. (\<exists>e. r = Done e) \<and> list_all is_qdisc_del evs)"
  unfolding ClearVethQdiscs_def ns_do_def
  by (auto intro!: emit_rules emits_mono [OF clear_loop_emits] split: sum.splits)

lemma set_loop_emits:
  "emits (set_loop (recording N) ns veth link qs b)
     (\<lambda>r evs. (\<exists>e. r = Done e) \<and> (r = Done None \<longrightarrow> evs = install_requests N ns veth link qs b))"
proof (induction qs arbitrary: b)
  case Nil
  then show ?case by (auto intro: emit_rules)
next
  case (Cons q qs)
  then show ?case
    by (cases q) (auto intro!: emit_rules emits_mono [OF Cons])
qed

lemma install_emits:
  "emits (check (set_loop (recording N) ns veth link qs False)
      (if (case bypass of Some b \<Rightarrow> b | None \<Rightarrow> False)
       then AddBpf (recording N) ns veth ''/opt/kubedtn/redir_disable_bpf.o'' ''egress'' else ret None))
     (\<lambda>r evs. (\<exists>e. r = Done e) \<and>
        (r = Done None \<longrightarrow> evs = install_requests N ns veth link qs False @ bpf_tail bypass ns veth))"
  by (rule emits_check [OF set_loop_emits])
    (auto simp: AddBpf_def bpf_requests_def bpf_tail_def intro!: emit_rules split: option.splits)

text \<open>
  What the host says of an interface: asked in \<open>w\<close> for its namespace it names \<open>ns\<close>, which can be entered,
  and there it finds \<open>link\<close> under the name of the interface.
\<close>

definition finds_link :: "'w netlib \<Rightarrow> VEth \<Rightarrow> 'w \<Rightarrow> string \<Rightarrow> nlink \<Rightarrow> 'w \<Rightarrow> bool" where
  "finds_link N veth w ns link w' \<longleftrightarrow> (\<exists>w1 w2.
     (if NsName veth = [] then nl_GetCurrentNS N w else nl_GetNS N (NsName veth) w) = (Inr ns, w1)
     \<and> nl_enter N ns w1 = (None, w2) \<and> nl_LinkByName N ns (LinkName veth) w2 = (Inr link, w'))"

lemma clear_loop_requests:
  "clear_loop (recording N) ns qs (w, l) = (r, (w', l')) \<Longrightarrow>
   \<exists>dels. l' = l @ dels \<and> list_all2 (\<lambda>e q. \<exists>err. e = EvQdiscDel ns q err) dels (filter (clear_target N) qs)"
proof (induction qs arbitrary: w l)
  case (Cons q qs)
  have [simp]: "clear_target (recording N) = clear_target N" by (rule HOL.ext) (simp add: clear_target_def split: qdisc.splits)
  show ?case
  proof (cases "clear_target N q")
    case True
    with Cons.prems have "clear_loop (recording N) ns qs (snd (nl_QdiscDel N ns q w), l @ [EvQdiscDel ns q (fst (nl_QdiscDel N ns q w))])
        = (r, (w', l'))"
      by (simp add: bnd_ext changing_run)
    from Cons.IH [OF this] True show ?thesis by auto
  qed (use Cons in simp)
qed (simp add: ret_run)

lemma located_run:
  "bnd (vethNs (recording N) (NsName veth)) (\<lambda>r. case r of
       Inl e \<Rightarrow> ret (Some e)
     | Inr ns \<Rightarrow> ns_do (recording N) ns (
         bnd (ext (nl_LinkByName (recording N) ns (LinkName veth))) (\<lambda>r. case r of
           Inl e \<Rightarrow> ret (Some e) | Inr link \<Rightarrow> f ns link))) (w, l) = (Done x, (w', l')) \<Longrightarrow>
   (\<exists>e. x = Some e \<and> l' = l) \<or> (\<exists>ns link v. finds_link N veth w ns link v \<and> f ns link (v, l) = (Done x, (w', l')))"
  unfolding finds_link_def vethNs_def ns_do_def
  by (auto simp: bnd_ext check_def asking_run ret_run prod_eq_iff split: sum.splits option.splits if_splits)

lemma ClearVethQdiscs_requests:
  assumes "ClearVethQdiscs (recording N) veth (w, []) = (Done x, (w', dels))"
  shows "dels = [] \<or> (\<exists>ns link v qs v'. finds_link N veth w ns link v \<and> nl_QdiscList N ns link v = (Inr qs, v')
    \<and> list_all2 (\<lambda>e q. \<exists>err. e = EvQdiscDel ns q err) dels (filter (clear_target N) qs))"
proof -
  consider "dels = []"
    | ns link v where "finds_link N veth w ns link v"
      "bnd (ext (nl_QdiscList (recording N) ns link)) (\<lambda>r. case r of
         Inl e \<Rightarrow> ret (Some e) | Inr qdiscs \<Rightarrow> clear_loop (recording N) ns qdiscs) (v, []) = (Done x, (w', dels))"
    using located_run [OF assms [unfolded ClearVethQdiscs_def]] by blast
  then show ?thesis
  proof cases
    case (2 ns link v)
    obtain a v' where a: "nl_QdiscList N ns link v = (a, v')" by fastforce
    show ?thesis
    proof (cases a)
      case (Inl e)
      with 2(2) a show ?thesis by (simp add: bnd_ext asking_run ret_run)
    next
      case (Inr qs)
      with 2(2) a have "clear_loop (recording N) ns qs (v', []) = (Done x, (w', dels))" by (simp add: bnd_ext asking_run)
      from clear_loop_requests [OF this]
      have "list_all2 (\<lambda>e q. \<exists>err. e = EvQdiscDel ns q err) dels (filter (clear_target N) qs)" by simp
      with 2(1) a Inr show ?thesis by blast
    qed
  qed simp
qed

lemma SetVethQdiscs_run:
  assumes "SetVethQdiscs (recording N) bypass veth qs (w, []) = (Done None, (w', evs))" "qs \<noteq> []"
  shows "\<exists>x w1 dels ns link v. ClearVethQdiscs (recording N) veth (w, []) = (Done x, (w1, dels))
    \<and> finds_link N veth w1 ns link v
    \<and> evs = dels @ install_requests N ns veth link qs False @ bpf_tail bypass ns veth"
proof -
  let ?k = "\<lambda>ns link. check (set_loop (recording N) ns veth link qs False)
      (if (case bypass of Some b \<Rightarrow> b | None \<Rightarrow> False)
       then AddBpf (recording N) ns veth ''/opt/kubedtn/redir_disable_bpf.o'' ''egress'' else ret None)"
  obtain r w1 dels where clear: "ClearVethQdiscs (recording N) veth (w, []) = (r, (w1, dels))" by (metis prod.collapse)
  moreover obtain x where "r = Done x" using emits_run [OF ClearVethQdiscs_emits clear] by auto
  ultimately have "bnd (vethNs (recording N) (NsName veth)) (\<lambda>r. case r of
       Inl e \<Rightarrow> ret (Some e)
     | Inr ns \<Rightarrow> ns_do (recording N) ns (
         bnd (ext (nl_LinkByName (recording N) ns (LinkName veth))) (\<lambda>r. case r of
           Inl e \<Rightarrow> ret (Some e) | Inr link \<Rightarrow> ?k ns link))) (w1, dels) = (Done None, (w', evs))"
    using assms by (simp add: SetVethQdiscs_def Let_def del: recording_sel)
  from located_run [OF this] obtain ns link v where
    k: "finds_link N veth w1 ns link v" "?k ns link (v, dels) = (Done None, (w', evs))" by blast
  with emits_run [OF install_emits k(2)] clear \<open>r = Done x\<close> show ?thesis by blast
qed


theorem SetVethQdiscs_clear_failure_ignored:
  assumes "ClearVethQdiscs N veth w = (Done (Some e), w')"
  shows "SetVethQdiscs N bypass veth [] w = (Done None, w')"
  using assms by (simp add: SetVethQdiscs_def ret_run)

lemma returns_vethNs [go_rules]: "returns (vethNs N ns)"
  by (simp add: vethNs_def)

lemma returns_clear_loop [go_rules]: "returns (clear_loop N ns qs)"
  by (induction qs) (auto intro!: go_rules)

lemma returns_ns_do [go_rules]: "returns f \<Longrightarrow> returns (ns_do N ns f)"
  by (auto simp: ns_do_def intro!: go_rules)

lemma returns_ClearVethQdiscs [go_rules]: "returns (ClearVethQdiscs N veth)"
  unfolding ClearVethQdiscs_def by (auto intro!: go_rules split: sum.splits)

lemma returns_set_loop [go_rules]: "returns (set_loop N ns veth link qs b)"
  by (induction qs arbitrary: b) (auto intro!: go_rules split: qdisc.splits)

lemma returns_SetVethQdiscs [go_rules]: "returns (SetVethQdiscs N bypass veth qs)"
  unfolding SetVethQdiscs_def AddBpf_def Let_def by (auto intro!: go_rules split: sum.splits)

section \<open>Witnesses\<close>

definition demo_netem :: NetemQdiscAttrs where
  "demo_netem =
     \<lparr> nq_Latency = 10000, nq_DelayCorr = 0, nq_Jitter = 0, nq_Loss = 5, nq_LossCorr = 0, nq_Gap = 0,
       nq_Duplicate = 0, nq_DuplicateCorr = 0, nq_ReorderProb = 0, nq_ReorderCorr = 0,
       nq_CorruptProb = 0, nq_CorruptCorr = 0 \<rparr>"

definition demo_veth :: VEth where
  "demo_veth = \<lparr> NsName = ''/run/netns/a'', LinkName = ''eth1'', IPAddr = [], HardwareAddr = [] \<rparr>"

text \<open>A host on which the interface has a netem discipline already.\<close>

definition busy_host :: "unit netlib" where
  "busy_host = quiet_host\<lparr> nl_QdiscList := (\<lambda>ns l w. (Inr [Netem no_qattrs demo_netem], w)) \<rparr>"

lemma SetVethQdiscs_busy:
  "SetVethQdiscs (recording busy_host) (Some True) demo_veth
     [Netem no_qattrs demo_netem, Tbf no_qattrs (tbf_for 1000000)] ((), []) = (Done None, ((),
       [EvQdiscDel ''/run/netns/a'' (Netem no_qattrs demo_netem) None,
        EvQdiscAdd ''/run/netns/a'' (netem_at busy_host demo_link demo_netem) None,
        EvTc ''/run/netns/a'' (tbf_args demo_veth True (tbf_for 1000000)) None] @ bpf_requests ''/run/netns/a'' demo_veth))"
  by (simp add: SetVethQdiscs_def ClearVethQdiscs_def vethNs_def demo_veth_def ns_do_def AddBpf_def clear_target_def
      busy_host_def quiet_host_def bpf_requests_def go_simps)


definition demo_properties :: pb_LinkProperties where
  "demo_properties = empty_pb_LinkProperties \<lparr> pb_latency := ''10ms'', pb_rate := ''20mbit'' \<rparr>"

lemma nat_str_10: "nat_str 10 = ''10''"
  by code_simp

lemma demo_latency: "ParseDuration ''10ms'' = Inr 10000"
  using ParseDuration_whole [of "''ms''" 1000000 10] by (simp add: unitMap_def nat_str_10)

lemma demo_rate: "ParseRate ''20mbit'' = Inr 20000000"
proof -
  have "TrimSpace (ToLower ''20mbit'') = ''20'' @ ''m'' @ (if False then ''i'' else '''') @ ''bit''"
    by code_simp
  then have "ParseRate ''20mbit'' = Inr (of_nat (dec_val ''20'' * 1 * (if False then 1024 else 1000) ^ 2))"
    by (intro ParseRate_accepts [where p = "''m''" and u = "''bit''" and ds = "''20''" and m = 1 and k = 2])
      (simp_all add: rate_prefixes_def rate_suffixes_def dec_val_def is_digit_def digit_val_def)
  then show ?thesis by (simp add: dec_val_def digit_val_def)
qed

lemma demo_MakeQdiscs:
  "\<exists>n. MakeQdiscs quiet_host (Some demo_properties) = Inr [Netem no_qattrs n, Tbf no_qattrs (tbf_for 20000000)]"
  by (simp add: MakeQdiscs_def demo_properties_def demo_latency demo_rate quiet_host_def
      empty_pb_LinkProperties_def ParseDuration_def [of "[]"] ParseFloatPercentage_def [of "[]"] tbf_for_def)

theorem MakeQdiscs_shape_witness:
  "\<exists>n. MakeQdiscs (quiet_host :: unit netlib) (Some demo_properties)
       = Inr [Netem no_qattrs n, Tbf no_qattrs (tbf_for 20000000)]
     \<and> link_qdiscs [Netem no_qattrs n, Tbf no_qattrs (tbf_for 20000000)]"
  using demo_MakeQdiscs MakeQdiscs_shape by metis

end
