(* ===== verification/Veth.thy ===== *)
theory Veth
  imports Qdisc
begin

text \<open>
  \<open>common/veth.go\<close>: the description of an end of a link (\<open>MakeVeth\<close>), the creation of a pair of
  interfaces with its disciplines (\<open>CreateVeth\<close>) and the repair of a half-existing pair
  (\<open>SetupVeth\<close>).
\<close>

section \<open>Operations\<close>

definition MakeVeth :: "string \<Rightarrow> string \<Rightarrow> string \<Rightarrow> string \<Rightarrow> error + VEth" where
  "MakeVeth netNS linkName ip mac =
     sbind (if ip \<noteq> [] then
              (case ParseCIDR ip of
                 Inl err \<Rightarrow> Inl (Wrap (''failed to parse CIDR '' @ ip @ '': '') err)
               | Inr (ipAddr, subnetMask) \<Rightarrow> Inr [\<lparr> IP = ipAddr, Mask = subnetMask \<rparr>])
            else Inr []) (\<lambda>addrs.
     sbind (if mac \<noteq> [] then
              (case ParseMAC mac of
                 Inl err \<Rightarrow> Inl (Wrap (''failed to parse MAC '' @ mac @ '': '') err)
               | Inr macAddr \<Rightarrow> Inr macAddr)
            else Inr []) (\<lambda>macAddr.
     Inr \<lparr> NsName = netNS, LinkName = linkName, IPAddr = addrs, HardwareAddr = macAddr \<rparr>))"

definition CreateVeth ::
  "'w netlib \<Rightarrow> bool option \<Rightarrow> VEth \<Rightarrow> VEth \<Rightarrow> pb_LinkProperties option \<Rightarrow> ('w, error option) go" where
  "CreateVeth N bypass self peer properties =
     check (ext (nl_MakeVeth N self peer))
       (case MakeQdiscs N properties of
          Inl err \<Rightarrow> ret (Some (Wrap ''failed to construct qdiscs: '' err))
        | Inr qdiscs \<Rightarrow>
            bnd (SetVethQdiscs N bypass self qdiscs) (\<lambda>r. case r of
              Some err \<Rightarrow> ret (Some (Wrap ''failed to set qdiscs on self veth: '' err))
            | None \<Rightarrow>
                bnd (SetVethQdiscs N bypass peer qdiscs) (\<lambda>r. case r of
                  Some err \<Rightarrow> ret (Some (Wrap ''failed to set qdiscs on peer veth: '' err))
                | None \<Rightarrow> ret None)))"

definition SetupVeth ::
  "'w netlib \<Rightarrow> bool option \<Rightarrow> VEth \<Rightarrow> VEth \<Rightarrow> pb_Link \<Rightarrow> ('w, error option) go" where
  "SetupVeth N bypass self peer link =
     bnd (ext (nl_IsExistLinkInNS N (NsName self) (LinkName self))) (\<lambda>iExist.
     bnd (ext (nl_IsExistLinkInNS N (NsName peer) (LinkName peer))) (\<lambda>pExist.
     if iExist \<and> pExist then ret None
     else
       check (if \<not> iExist \<and> pExist then ext (nl_RemoveVethLink N peer)
              else if iExist \<and> \<not> pExist then ext (nl_RemoveVethLink N self)
              else ret None)
         (CreateVeth N bypass self peer (pb_properties link))))"

section \<open>Totality\<close>

lemma returns_CreateVeth [go_rules]: "returns (CreateVeth N bypass self peer p)"
  unfolding CreateVeth_def by (auto intro!: go_rules split: sum.splits option.splits)

lemma returns_SetupVeth [go_rules]: "returns (SetupVeth N bypass self peer link)"
  unfolding SetupVeth_def by (auto intro!: go_rules)

section \<open>The requests of a set-up\<close>

fun is_qdisc_event :: "event \<Rightarrow> bool" where
  "is_qdisc_event (EvQdiscDel _ _ _) = True"
| "is_qdisc_event (EvQdiscAdd _ _ _) = True"
| "is_qdisc_event (EvTc _ _ _) = True"
| "is_qdisc_event _ = False"

lemma qdisc_del_event: "is_qdisc_del e \<Longrightarrow> is_qdisc_event e"
  by (cases e) simp_all

lemma set_loop_qdisc_events:
  "emits (set_loop (recording N) ns veth link qs b) (\<lambda>r evs. (\<exists>e. r = Done e) \<and> list_all is_qdisc_event evs)"
  by (induction qs arbitrary: b)
    (auto intro!: emit_rules split: qdisc.splits elim!: emits_mono)

lemma SetVethQdiscs_qdisc_events:
  "emits (SetVethQdiscs (recording N) bypass veth qs)
     (\<lambda>r evs. (\<exists>e. r = Done e) \<and> list_all is_qdisc_event evs)"
  unfolding SetVethQdiscs_def ns_do_def Let_def AddBpf_def
  by (rule emits_bnd [OF ClearVethQdiscs_emits])
    (auto intro!: emit_rules emits_check [OF set_loop_qdisc_events] split: sum.splits
      simp: list_all_iff qdisc_del_event)

lemma MakeQdiscs_recording [simp]: "MakeQdiscs (recording N) p = MakeQdiscs N p"
  by (cases p) (simp_all add: MakeQdiscs_def)

lemma qdisc_stage_emits:
  assumes "emits f (\<lambda>r evs. (\<exists>e. r = Done e) \<and> list_all is_qdisc_event evs)"
  shows "emits (bnd (SetVethQdiscs (recording N) bypass veth qs)
      (\<lambda>r. case r of Some err \<Rightarrow> ret (Some (Wrap m err)) | None \<Rightarrow> f))
    (\<lambda>r evs. (\<exists>e. r = Done e) \<and> list_all is_qdisc_event evs)"
  by (rule emits_bnd [OF SetVethQdiscs_qdisc_events])
    (auto intro!: emit_rules emits_mono [OF assms] split: option.splits)

lemma CreateVeth_emits:
  "emits (CreateVeth (recording N) bypass self peer p)
     (\<lambda>r evs. \<exists>a rest. evs = EvMakeVeth self peer a # rest \<and> list_all is_qdisc_event rest
        \<and> (\<exists>x. r = Done x) \<and> (a \<noteq> None \<longrightarrow> rest = [] \<and> r = Done a))"
proof -
  have "emits (case MakeQdiscs N p of
          Inl err \<Rightarrow> ret (Some (Wrap ''failed to construct qdiscs: '' err))
        | Inr qdiscs \<Rightarrow>
            bnd (SetVethQdiscs (recording N) bypass self qdiscs) (\<lambda>r. case r of
              Some err \<Rightarrow> ret (Some (Wrap ''failed to set qdiscs on self veth: '' err))
            | None \<Rightarrow>
                bnd (SetVethQdiscs (recording N) bypass peer qdiscs) (\<lambda>r. case r of
                  Some err \<Rightarrow> ret (Some (Wrap ''failed to set qdiscs on peer veth: '' err))
                | None \<Rightarrow> ret None)))
     (\<lambda>r evs. (\<exists>e. r = Done e) \<and> list_all is_qdisc_event evs)"
    by (auto intro!: qdisc_stage_emits emits_ret split: sum.splits)
  then show ?thesis
    unfolding CreateVeth_def by (auto intro!: emit_rules elim!: emits_mono)
qed

text \<open>What the two existence checks answer.\<close>

definition found :: "'w netlib \<Rightarrow> VEth \<Rightarrow> VEth \<Rightarrow> 'w \<Rightarrow> bool \<times> bool" where
  "found N self peer w =
     (case nl_IsExistLinkInNS N (NsName self) (LinkName self) w of
        (iExist, w1) \<Rightarrow> (iExist, fst (nl_IsExistLinkInNS N (NsName peer) (LinkName peer) w1)))"

text \<open>The ends that exist without the other end.\<close>

definition stale :: "bool \<times> bool \<Rightarrow> VEth \<Rightarrow> VEth \<Rightarrow> VEth list" where
  "stale f self peer = (if f = (False, True) then [peer] else if f = (True, False) then [self] else [])"

lemma SetupVeth_run:
  "SetupVeth (recording N) bypass self peer link (w, l) =
     (let w1 = snd (nl_IsExistLinkInNS N (NsName self) (LinkName self) w);
          w2 = snd (nl_IsExistLinkInNS N (NsName peer) (LinkName peer) w1)
      in if found N self peer w = (True, True) then (Done None, (w2, l))
         else check (case stale (found N self peer w) self peer of
                       [] \<Rightarrow> ret None | v # _ \<Rightarrow> ext (nl_RemoveVethLink (recording N) v))
                (CreateVeth (recording N) bypass self peer (pb_properties link)) (w2, l))"
  by (auto simp: SetupVeth_def found_def stale_def ext_asking ret_run Let_def split: prod.splits)

text \<open>
  C21: Whatever the host does: if both ends exist, \<open>SetupVeth\<close> succeeds and asks for nothing.
  Otherwise it first removes the end that exists alone; if that fails it stops with that error;
  then it creates the pair, and if that fails it stops with that error; every later request concerns
  disciplines only.
\<close>

theorem SetupVeth_requests:
  assumes "SetupVeth (recording N) bypass self peer link (w, []) = (r, (w', evs))"
  shows "if found N self peer w = (True, True) then r = Done None \<and> evs = []
    else (\<exists>v e. stale (found N self peer w) self peer = [v] \<and> r = Done (Some e) \<and> evs = [EvRemoveVeth v (Some e)])
       \<or> (\<exists>a rest. evs = map (\<lambda>v. EvRemoveVeth v None) (stale (found N self peer w) self peer)
                          @ EvMakeVeth self peer a # rest
            \<and> list_all is_qdisc_event rest \<and> (\<exists>x. r = Done x) \<and> (a \<noteq> None \<longrightarrow> rest = [] \<and> r = Done a))"
proof (cases "found N self peer w = (True, True)")
  case True
  with assms show ?thesis by (simp add: SetupVeth_run Let_def)
next
  case False
  let ?st = "stale (found N self peer w) self peer"
  have "emits (check (case ?st of [] \<Rightarrow> ret None | v # _ \<Rightarrow> ext (nl_RemoveVethLink (recording N) v))
                (CreateVeth (recording N) bypass self peer (pb_properties link)))
     (\<lambda>r evs. (\<exists>v e. ?st = [v] \<and> r = Done (Some e) \<and> evs = [EvRemoveVeth v (Some e)])
       \<or> (\<exists>a rest. evs = map (\<lambda>v. EvRemoveVeth v None) ?st @ EvMakeVeth self peer a # rest
            \<and> list_all is_qdisc_event rest \<and> (\<exists>x. r = Done x) \<and> (a \<noteq> None \<longrightarrow> rest = [] \<and> r = Done a)))"
    by (auto simp: stale_def check_def intro!: emit_rules emits_mono [OF CreateVeth_emits]
        split: option.splits)
  with assms False show ?thesis
    by (auto simp: SetupVeth_run Let_def dest!: emits_run)
qed

section \<open>Set-up is idempotent\<close>

definition present :: "'w netlib \<Rightarrow> 'w \<Rightarrow> VEth \<Rightarrow> bool" where
  "present N w v = fst (nl_IsExistLinkInNS N (NsName v) (LinkName v) w)"

text \<open>
  What the packages document of interfaces: creating a pair makes both ends exist, and neither the
  existence check nor an operation on namespaces or disciplines makes an interface appear or vanish.
\<close>

definition keeps :: "'w netlib \<Rightarrow> ('w \<Rightarrow> 'a \<times> 'w) \<Rightarrow> bool" where
  "keeps N f \<longleftrightarrow> (\<forall>w. present N (snd (f w)) = present N w)"

definition veth_host :: "'w netlib \<Rightarrow> bool" where
  "veth_host N \<longleftrightarrow>
     (\<forall>a b w. fst (nl_MakeVeth N a b w) = None \<longrightarrow>
        present N (snd (nl_MakeVeth N a b w)) a \<and> present N (snd (nl_MakeVeth N a b w)) b)
     \<and> (\<forall>ns n. keeps N (nl_IsExistLinkInNS N ns n)) \<and> keeps N (nl_GetCurrentNS N)
     \<and> (\<forall>p. keeps N (nl_GetNS N p)) \<and> (\<forall>p. keeps N (nl_enter N p))
     \<and> (\<forall>ns n. keeps N (nl_LinkByName N ns n)) \<and> (\<forall>ns l. keeps N (nl_QdiscList N ns l))
     \<and> (\<forall>ns q. keeps N (nl_QdiscDel N ns q)) \<and> (\<forall>ns q. keeps N (nl_QdiscAdd N ns q))
     \<and> (\<forall>ns a. keeps N (nl_tc N ns a))"

lemma keeps_ext: "keeps N f \<Longrightarrow> unchanged (present N) (ext f)"
  by (simp add: keeps_def unchanged_def ext_run)

lemma veth_host_unchanged:
  assumes "veth_host N"
  shows "unchanged (present N) (ext (nl_IsExistLinkInNS N ns n))"
    "unchanged (present N) (ext (nl_GetCurrentNS N))" "unchanged (present N) (ext (nl_GetNS N ns))"
    "unchanged (present N) (ext (nl_enter N ns))" "unchanged (present N) (ext (nl_LinkByName N ns n))"
    "unchanged (present N) (ext (nl_QdiscList N ns l))" "unchanged (present N) (ext (nl_QdiscDel N ns q))"
    "unchanged (present N) (ext (nl_QdiscAdd N ns q))" "unchanged (present N) (ext (nl_tc N ns a))"
  using assms unfolding veth_host_def by (simp_all add: keeps_ext)



lemma clear_loop_keeps: "veth_host N \<Longrightarrow> unchanged (present N) (clear_loop N ns qs)"
  by (induction qs) (auto intro!: go_rules veth_host_unchanged)

lemma set_loop_keeps: "veth_host N \<Longrightarrow> unchanged (present N) (set_loop N ns veth link qs b)"
  by (induction qs arbitrary: b) (auto intro!: go_rules veth_host_unchanged split: qdisc.splits)

lemma ClearVethQdiscs_keeps: "veth_host N \<Longrightarrow> unchanged (present N) (ClearVethQdiscs N veth)"
  unfolding ClearVethQdiscs_def vethNs_def ns_do_def
  by (auto intro!: go_rules veth_host_unchanged clear_loop_keeps split: sum.splits)

lemma SetVethQdiscs_keeps: "veth_host N \<Longrightarrow> unchanged (present N) (SetVethQdiscs N bypass veth qs)"
  unfolding SetVethQdiscs_def vethNs_def ns_do_def Let_def AddBpf_def
  by (auto intro!: go_rules veth_host_unchanged ClearVethQdiscs_keeps set_loop_keeps split: sum.splits)

lemma CreateVeth_present:
  assumes "veth_host N" "CreateVeth N bypass self peer p w = (Done None, w')"
  shows "present N w' self \<and> present N w' peer"
proof -
  obtain a w1 where mk: "nl_MakeVeth N self peer w = (a, w1)" by (cases "nl_MakeVeth N self peer w")
  let ?rest = "case MakeQdiscs N p of
          Inl err \<Rightarrow> ret (Some (Wrap ''failed to construct qdiscs: '' err))
        | Inr qdiscs \<Rightarrow>
            bnd (SetVethQdiscs N bypass self qdiscs) (\<lambda>r. case r of
              Some err \<Rightarrow> ret (Some (Wrap ''failed to set qdiscs on self veth: '' err))
            | None \<Rightarrow>
                bnd (SetVethQdiscs N bypass peer qdiscs) (\<lambda>r. case r of
                  Some err \<Rightarrow> ret (Some (Wrap ''failed to set qdiscs on peer veth: '' err))
                | None \<Rightarrow> ret None))"
  have "unchanged (present N) ?rest"
    using assms(1) by (auto intro!: go_rules SetVethQdiscs_keeps split: sum.splits option.splits)
  moreover have "a = None" "?rest w1 = (Done None, w')"
    using assms(2) mk unfolding CreateVeth_def
    by (cases a; simp add: check_def bnd_def ext_def ret_run)+
  ultimately have "present N w' = present N w1" by (blast dest: unchangedD)
  moreover have "present N w1 self \<and> present N w1 peer"
    using assms(1) mk \<open>a = None\<close> unfolding veth_host_def by (metis fst_conv snd_conv)
  ultimately show ?thesis by simp
qed

lemma SetupVeth_present:
  assumes "veth_host N" "SetupVeth N bypass self peer link w = (Done None, w')"
  shows "present N w' self \<and> present N w' peer"
proof -
  obtain i w1 where i: "nl_IsExistLinkInNS N (NsName self) (LinkName self) w = (i, w1)" by fastforce
  obtain j w2 where j: "nl_IsExistLinkInNS N (NsName peer) (LinkName peer) w1 = (j, w2)" by fastforce
  have pres: "present N w1 = present N w" "present N w2 = present N w1"
    using assms(1) i j unfolding veth_host_def keeps_def by (metis snd_conv)+
  have val: "present N w self = i" "present N w1 peer = j" by (simp_all add: present_def i j)
  show ?thesis
  proof (cases "i \<and> j")
    case True
    then have "w' = w2" using assms(2) i j by (simp add: SetupVeth_def ext_run ret_run)
    with True pres val show ?thesis by simp
  next
    case False
    then obtain m where "check m (CreateVeth N bypass self peer (pb_properties link)) w2 = (Done None, w')"
      using assms(2) i j by (auto simp: SetupVeth_def ext_run)
    then obtain w3 where "CreateVeth N bypass self peer (pb_properties link) w3 = (Done None, w')"
      by (auto simp: check_def ret_run split: option.splits elim!: bnd_cases)
    with assms(1) show ?thesis by (rule CreateVeth_present)
  qed
qed

text \<open>
  C22: After a successful \<open>SetupVeth\<close>, a second one succeeds and asks for no change, provided interfaces
  come and go only as the packages document.
\<close>

theorem SetupVeth_idempotent:
  assumes "veth_host N" and "SetupVeth N bypass self peer link w = (Done None, w')"
  shows "\<exists>w2. SetupVeth (recording N) bypass self peer link (w', l) = (Done None, (w2, l))"
proof -
  have "present N (snd (nl_IsExistLinkInNS N (NsName self) (LinkName self) w')) peer = present N w' peer"
    using assms(1) by (simp add: veth_host_def keeps_def)
  with SetupVeth_present [OF assms] have "found N self peer w' = (True, True)"
    by (simp add: found_def present_def case_prod_beta)
  then show ?thesis by (simp add: SetupVeth_run Let_def)
qed

section \<open>Descriptions of interfaces\<close>

lemma MakeVeth_Inr_iff:
  "MakeVeth netNS linkName ip mac = Inr v \<longleftrightarrow>
     NsName v = netNS \<and> LinkName v = linkName
     \<and> (if ip = [] then IPAddr v = [] else \<exists>a m. ParseCIDR ip = Inr (a, m) \<and> IPAddr v = [\<lparr> IP = a, Mask = m \<rparr>])
     \<and> (if mac = [] then HardwareAddr v = [] else ParseMAC mac = Inr (HardwareAddr v))"
  by (cases v) (auto simp: MakeVeth_def sbind_def split: sum.splits)

lemma MakeVeth_only_addresses:
  "ok (MakeVeth netNS linkName ip mac) = ok (MakeVeth netNS' linkName' ip mac)"
  by (auto simp: MakeVeth_def sbind_def split: sum.splits)

text \<open>An address without a prefix length, which the resource definition admits, is refused.\<close>

lemma MakeVeth_needs_prefix_length: "\<not> ok (MakeVeth netNS linkName ''10.0.0.1'' mac)"
  by (simp add: MakeVeth_def ParseCIDR_no_slash)

section \<open>Witnesses\<close>

text \<open>A host whose world is the set of existing interfaces.\<close>

definition set_host :: "(string \<times> string) set netlib" where
  "set_host = quiet_host
     \<lparr> nl_MakeVeth := (\<lambda>a b w. (None, insert (NsName a, LinkName a) (insert (NsName b, LinkName b) w))),
       nl_RemoveVethLink := (\<lambda>v w. (None, w - {(NsName v, LinkName v)})),
       nl_IsExistLinkInNS := (\<lambda>ns n w. ((ns, n) \<in> w, w)) \<rparr>"

lemma set_host_veth_host: "veth_host set_host"
  by (simp add: veth_host_def keeps_def present_def set_host_def quiet_host_def)

definition demo_peer :: VEth where
  "demo_peer = \<lparr> NsName = ''/run/netns/b'', LinkName = ''eth1'', IPAddr = [], HardwareAddr = [] \<rparr>"

definition demo_pb_link :: pb_Link where
  "demo_pb_link =
     \<lparr> pb_peer_pod = ''r2'', pb_local_intf = ''eth1'', pb_peer_intf = ''eth1'', pb_local_ip = [],
       pb_peer_ip = [], pb_local_mac = [], pb_peer_mac = [], pb_uid = 1, pb_properties = None \<rparr>"

lemma SetupVeth_set_host:
  "fst (SetupVeth set_host None demo_veth demo_peer demo_pb_link {(''/run/netns/b'', ''eth1'')}) = Done None"
  by (simp add: SetupVeth_def CreateVeth_def MakeQdiscs_def SetVethQdiscs_def ClearVethQdiscs_def
      vethNs_def ns_do_def demo_veth_def demo_peer_def demo_pb_link_def set_host_def quiet_host_def go_simps)

theorem SetupVeth_idempotent_witness:
  "\<exists>w w2. SetupVeth set_host None demo_veth demo_peer demo_pb_link {(''/run/netns/b'', ''eth1'')} = (Done None, w)
     \<and> SetupVeth (recording set_host) None demo_veth demo_peer demo_pb_link (w, []) = (Done None, (w2, []))"
proof -
  obtain w where "SetupVeth set_host None demo_veth demo_peer demo_pb_link {(''/run/netns/b'', ''eth1'')}
      = (Done None, w)"
    using SetupVeth_set_host by (metis prod.collapse)
  with SetupVeth_idempotent [OF set_host_veth_host this] show ?thesis by blast
qed

theorem SetupVeth_requests_witness:
  "\<exists>r w evs. SetupVeth (recording set_host) None demo_veth demo_peer demo_pb_link
        ({(''/run/netns/b'', ''eth1'')}, []) = (r, (w, evs))
     \<and> evs \<noteq> [] \<and> hd evs \<in> {EvRemoveVeth demo_peer None} \<union> range (\<lambda>e. EvRemoveVeth demo_peer (Some e))"
proof -
  let ?w = "{(''/run/netns/b'', ''eth1'')}"
  obtain r w evs where run: "SetupVeth (recording set_host) None demo_veth demo_peer demo_pb_link (?w, [])
      = (r, (w, evs))"
    by (metis prod.collapse)
  have "found set_host demo_veth demo_peer ?w = (False, True)"
    by (simp add: found_def set_host_def demo_veth_def demo_peer_def)
  with SetupVeth_requests [OF run] run show ?thesis by (auto simp: stale_def)
qed

end
