(* ===== verification/Vxlan.thy ===== *)
theory Vxlan
  imports Utils Registry Veth
begin

text \<open>
  \<open>daemon/vxlan\<close>: creation and repair of a VXLAN end of a link (\<open>vxlan.go\<close>) and the table from VXLAN
  network identifiers to network namespaces (\<open>manager.go\<close>), which stores pointers to strings.
\<close>

section \<open>Looking up the source interface\<close>

record VxlanSpec =
  vs_NetNs :: string
  vs_IntfName :: string
  vs_IntfIp :: string
  vs_PeerVtep :: string
  vs_Vni :: int32
  vs_SrcIp :: string
  vs_SrcIntf :: string

text \<open>The two nested loops over interfaces and their addresses: the first match returns.\<close>

fun addr_loop :: "ip \<Rightarrow> ip list \<Rightarrow> bool" where
  "addr_loop nIP [] = False"
| "addr_loop nIP (a # as) = (if IP_Equal nIP a then True else addr_loop nIP as)"

fun iface_loop :: "ip \<Rightarrow> HostIface list \<Rightarrow> string option" where
  "iface_loop nIP [] = None"
| "iface_loop nIP (i # is) = (if addr_loop nIP (hi_Addrs i) then Some (hi_Name i) else iface_loop nIP is)"

definition GetVxlanSource :: "'w netlib \<Rightarrow> string \<Rightarrow> ('w, error + string \<times> string) go" where
  "GetVxlanSource N nodeIP =
     (if nodeIP = [] then ret (Inl (Errorf (''kubedtnd provided no HOST_IP address: '' @ nodeIP)))
      else case ParseIP nodeIP of
        None \<Rightarrow> ret (Inl (Errorf (''parsing failed for kubedtnd provided no HOST_IP address: '' @ nodeIP)))
      | Some nIP \<Rightarrow>
          bnd (ext (nl_Interfaces N)) (\<lambda>ifaces.
            case iface_loop nIP ifaces of
              Some name \<Rightarrow> ret (Inr (nodeIP, name))
            | None \<Rightarrow> ret (Inl (Errorf (''no iface found for address '' @ nodeIP)))))"

text \<open>A route is the text of its source address and its link index. \<open>r[0]\<close> of an empty slice panics.\<close>

definition GetDefaultVxlanSource :: "'w netlib \<Rightarrow> ('w, error + string \<times> string) go" where
  "GetDefaultVxlanSource N =
     bnd (ext (nl_RouteGet N (v4InV6Prefix @ [1, 1, 1, 1]))) (\<lambda>(r, err).
       if err \<noteq> None \<and> length r < 1 then ret (Inl (Wrap ''error getting default route: '' (the err)))
       else case r of
         [] \<Rightarrow> halt (Panic ''index out of range'')
       | (src, index) # _ \<Rightarrow>
           bnd (ext (nl_LinkByIndex N index)) (\<lambda>r. case r of
             Inl err \<Rightarrow> ret (Inl (Wrap ''error looking up link by its index: '' err))
           | Inr link \<Rightarrow> ret (Inr (src, la_Name (attrs link)))))"

section \<open>Creating the interface\<close>

text \<open>The link of that name in the namespace; \<open>None\<close> is Go's \<open>nil\<close>.\<close>

definition getLinkFromNS :: "'w netlib \<Rightarrow> string \<Rightarrow> string \<Rightarrow> ('w, nlink option) go" where
  "getLinkFromNS N nsName linkName =
     bnd (ext (nl_GetNS N nsName)) (\<lambda>r. case r of
       Inl _ \<Rightarrow> ret None
     | Inr ns \<Rightarrow>
         bnd (ext (nl_enter N ns)) (\<lambda>r. case r of
           Some _ \<Rightarrow> ret None
         | None \<Rightarrow> bnd (ext (nl_LinkByName N ns linkName)) (\<lambda>r. case r of
             Inl _ \<Rightarrow> ret None | Inr link \<Rightarrow> ret (Some link))))"

definition vxlanEqual :: "int64 \<Rightarrow> ip \<Rightarrow> VxLan \<Rightarrow> bool" where
  "vxlanEqual l1_VxlanId l1_Group l2 =
     (if l1_VxlanId \<noteq> vx_ID l2 then False else if \<not> IP_Equal l1_Group (vx_IPAddr l2) then False else True)"

text \<open>The loop over the links of the namespace deletes the first VXLAN link with the identifier.\<close>

fun remove_vni_loop :: "'w netlib \<Rightarrow> string \<Rightarrow> int32 \<Rightarrow> nlink list \<Rightarrow> ('w, error option) go" where
  "remove_vni_loop N ns vni [] = ret None"
| "remove_vni_loop N ns vni (link # links) =
     (case link of
        Vxlan a vid g \<Rightarrow>
          if ucast vid = vni then
            bnd (ext (nl_LinkDel N ns link)) (\<lambda>r. case r of
              Some err \<Rightarrow> ret (Some (Wrap ''error deleting vxlan link: '' err))
            | None \<Rightarrow> ret None)
          else remove_vni_loop N ns vni links
      | OtherLink _ _ \<Rightarrow> remove_vni_loop N ns vni links)"

definition RemoveLinkWithVni :: "'w netlib \<Rightarrow> int32 \<Rightarrow> string \<Rightarrow> ('w, error option) go" where
  "RemoveLinkWithVni N vni netns =
     bnd (ext (nl_GetNS N netns)) (\<lambda>r. case r of
       Inl err \<Rightarrow> ret (Some err)
     | Inr ns \<Rightarrow> ns_do N ns (
         bnd (ext (nl_LinkList N ns)) (\<lambda>r. case r of
           Inl err \<Rightarrow> ret (Some (Wrap ''error listing links: '' err))
         | Inr links \<Rightarrow> remove_vni_loop N ns vni links)))"

text \<open>The source interface, the description of the end in the pod and the parameters of the tunnel.\<close>

definition vxlan_source :: "'w netlib \<Rightarrow> VxlanSpec \<Rightarrow> ('w, error + string \<times> string) go" where
  "vxlan_source N v =
     (if vs_SrcIntf v = [] then
        (if vs_SrcIp v = [] then GetDefaultVxlanSource N else GetVxlanSource N (vs_SrcIp v))
      else ret (Inr (vs_SrcIp v, vs_SrcIntf v)))"

definition vxlan_veth :: "VxlanSpec \<Rightarrow> error + VEth" where
  "vxlan_veth v =
     sbind (if vs_IntfIp v \<noteq> [] then
              (case ParseCIDR (vs_IntfIp v) of
                 Inl err \<Rightarrow> Inl (Wrap (''error parsing CIDR '' @ vs_IntfIp v @ '': '') err)
               | Inr (ipAddr, subnetMask) \<Rightarrow> Inr [\<lparr> IP = ipAddr, Mask = subnetMask \<rparr>])
            else Inr []) (\<lambda>addrs.
     Inr \<lparr> NsName = vs_NetNs v, LinkName = vs_IntfName v, IPAddr = addrs, HardwareAddr = [] \<rparr>)"

definition vxlan_params :: "string \<Rightarrow> VxlanSpec \<Rightarrow> VxLan" where
  "vxlan_params srcIntf v =
     \<lparr> vx_ParentIF = srcIntf,
       vx_IPAddr = (case ParseIP (vs_PeerVtep v) of None \<Rightarrow> [] | Some a \<Rightarrow> a),
       vx_ID = scast (vs_Vni v) \<rparr>"

text \<open>Removing what is there and creating the interface, once more after a conflict.\<close>

definition make_vxlan :: "'w netlib \<Rightarrow> VxlanSpec \<Rightarrow> VEth \<Rightarrow> VxLan \<Rightarrow> ('w, error + VEth) go" where
  "make_vxlan N v veth vxlan =
     bnd (ext (nl_MakeVxLan N veth vxlan)) (\<lambda>r. case r of
       None \<Rightarrow> ret (Inr veth)
     | Some err \<Rightarrow>
         if Contains (error_text err) ''file exists'' then
           bnd (RemoveLinkWithVni N (vs_Vni v) (NsName veth)) (\<lambda>r. case r of
             Some e \<Rightarrow> ret (Inl err)
           | None \<Rightarrow>
               bnd (ext (nl_MakeVxLan N veth vxlan)) (\<lambda>r. case r of
                 Some err \<Rightarrow> ret (Inl (Wrap ''error when creating a Vxlan interface with koko: '' err))
               | None \<Rightarrow> ret (Inr veth)))
         else ret (Inl (Wrap ''error when creating a Vxlan interface with koko: '' err)))"

definition update_link :: "'w netlib \<Rightarrow> VxlanSpec \<Rightarrow> VEth \<Rightarrow> VxLan \<Rightarrow> nlink option \<Rightarrow> ('w, error + VEth) go" where
  "update_link N v veth vxlan link =
     (case link of
        Some (Vxlan a vid g) \<Rightarrow>
          if vxlanEqual vid g vxlan then ret (Inr veth)
          else bnd (ext (nl_RemoveVethLink N veth)) (\<lambda>r. case r of
            Some err \<Rightarrow> ret (Inl (Wrap ''error when removing an old Vxlan interface with koko: '' err))
          | None \<Rightarrow> make_vxlan N v veth vxlan)
      | Some (OtherLink a t) \<Rightarrow>
          bnd (ext (nl_RemoveVethLink N veth)) (\<lambda>r. case r of
            Some err \<Rightarrow> ret (Inl (Wrap ''error when removing an old non-Vxlan interface with koko: '' err))
          | None \<Rightarrow> make_vxlan N v veth vxlan)
      | None \<Rightarrow> make_vxlan N v veth vxlan)"

definition CreateOrUpdate :: "'w netlib \<Rightarrow> VxlanSpec \<Rightarrow> ('w, error + VEth) go" where
  "CreateOrUpdate N v =
     orelse (vxlan_source N v) (\<lambda>(srcIP, srcIntf).
     orelse (ret (vxlan_veth v)) (\<lambda>veth.
     bnd (getLinkFromNS N (NsName veth) (LinkName veth)) (\<lambda>link.
     update_link N v veth (vxlan_params srcIntf v) link)))"

definition SetupVxLan ::
  "'w netlib \<Rightarrow> bool option \<Rightarrow> VxlanSpec \<Rightarrow> pb_LinkProperties option \<Rightarrow> ('w, error option) go" where
  "SetupVxLan N bypass v properties =
     bnd (CreateOrUpdate N v) (\<lambda>r. case r of
       Inl err \<Rightarrow> ret (Some err)
     | Inr veth \<Rightarrow>
         (case MakeQdiscs N properties of
            Inl err \<Rightarrow> ret (Some err)
          | Inr qdiscs \<Rightarrow> SetVethQdiscs N bypass veth qdiscs))"

section \<open>The table of network identifiers\<close>

record VxlanManager =
  vxlans :: "int32 \<Rightarrow> ptr option"

definition NewVxlanManager :: VxlanManager where
  "NewVxlanManager = \<lparr> vxlans = (\<lambda>_. None) \<rparr>"

definition VxlanManager_Add :: "int32 \<Rightarrow> ptr \<Rightarrow> VxlanManager \<Rightarrow> VxlanManager" where
  "VxlanManager_Add vni netns m = m\<lparr> vxlans := (vxlans m)(vni \<mapsto> netns) \<rparr>"

definition VxlanManager_Delete :: "int32 \<Rightarrow> VxlanManager \<Rightarrow> VxlanManager" where
  "VxlanManager_Delete vni m = m\<lparr> vxlans := (vxlans m)(vni := None) \<rparr>"

definition VxlanManager_Get :: "int32 \<Rightarrow> VxlanManager \<Rightarrow> ptr option" where
  "VxlanManager_Get vni m = vxlans m vni"

text \<open>
  \<open>Init\<close>. The range variable \<open>topology\<close> is one variable for the whole loop; \<open>p\<close> is the address of its
  field \<open>Status.NetNs\<close>, which every iteration overwrites.
\<close>

fun store_vnis :: "ptr \<Rightarrow> nlink list \<Rightarrow> VxlanManager \<Rightarrow> VxlanManager" where
  "store_vnis p [] m = m"
| "store_vnis p (link # links) m =
     (case link of
        Vxlan a vid g \<Rightarrow> store_vnis p links (m\<lparr> vxlans := (vxlans m)(ucast vid \<mapsto> p) \<rparr>)
      | OtherLink _ _ \<Rightarrow> store_vnis p links m)"

text \<open>The links of a namespace, none if the namespace cannot be opened, entered or listed.\<close>

definition netns_links :: "'w netlib \<Rightarrow> string \<Rightarrow> ('w, nlink list) go" where
  "netns_links N netns =
     bnd (ext (nl_GetNS N netns)) (\<lambda>r. case r of
       Inl _ \<Rightarrow> ret []
     | Inr ns \<Rightarrow>
         bnd (ext (nl_enter N ns)) (\<lambda>r. case r of
           Some _ \<Rightarrow> ret []
         | None \<Rightarrow> bnd (ext (nl_LinkList N ns)) (\<lambda>r. case r of Inl _ \<Rightarrow> ret [] | Inr links \<Rightarrow> ret links)))"

fun init_loop ::
  "'w netlib \<Rightarrow> ptr \<Rightarrow> Topology list \<Rightarrow> string mem \<Rightarrow> VxlanManager \<Rightarrow> ('w, string mem \<times> VxlanManager) go" where
  "init_loop N p [] h m = ret (h, m)"
| "init_loop N p (topology # ts) h m =
     (let h' = store p (NetNs (Status topology)) h
      in if NetNs (Status topology) = [] then init_loop N p ts h' m
         else bnd (netns_links N (NetNs (Status topology))) (\<lambda>links.
                init_loop N p ts h' (store_vnis p links m)))"

definition VxlanManager_Init ::
  "'w netlib \<Rightarrow> TopologyList \<Rightarrow> string mem \<Rightarrow> VxlanManager \<Rightarrow> ('w, string mem \<times> VxlanManager) go" where
  "VxlanManager_Init N topologies h m =
     (case alloc '''' h of (p, h') \<Rightarrow> init_loop N p (Items topologies) h' m)"

section \<open>The table keeps what was written last\<close>

interpretation vm: registry "\<lambda>_. True" fst snd "\<lambda>vni. vni" NewVxlanManager
  "\<lambda>(vni, netns). VxlanManager_Add vni netns" VxlanManager_Delete VxlanManager_Get
  by unfold_locales
    (auto simp: NewVxlanManager_def VxlanManager_Add_def VxlanManager_Delete_def VxlanManager_Get_def)

definition vm_exec :: "(int32 \<times> ptr, int32) tableop \<Rightarrow> VxlanManager \<Rightarrow> VxlanManager" where
  "vm_exec x m =
     (case x of Put (vni, netns) \<Rightarrow> VxlanManager_Add vni netns m | Drop vni \<Rightarrow> VxlanManager_Delete vni m)"

lemma vm_exec_eq: "vm_exec = vm.exec"
  by (auto simp: vm_exec_def vm.exec_def fun_eq_iff split: tableop.splits)

text \<open>
  After any sequence of additions and deletions on a new table, \<open>Get\<close> returns what the last
  operation on that identifier left.
\<close>

theorem VxlanManager_last_write:
  "VxlanManager_Get vni (fold vm_exec ops NewVxlanManager) = last_write fst snd (\<lambda>d. d) vni ops None"
  unfolding vm_exec_eq by (rule vm.get_exec_from_empty) (simp_all add: list_all_iff)

section \<open>Initialisation\<close>

definition has_vni :: "int32 \<Rightarrow> nlink \<Rightarrow> bool" where
  "has_vni vni link = (case link of Vxlan _ vid _ \<Rightarrow> ucast vid = vni | OtherLink _ _ \<Rightarrow> False)"

lemma store_vnis_get:
  "VxlanManager_Get vni (store_vnis p links m) =
     (if list_ex (has_vni vni) links then Some p else VxlanManager_Get vni m)"
  by (induction links arbitrary: m)
    (auto simp: VxlanManager_Get_def has_vni_def split: nlink.splits)

lemma returns_netns_links [go_rules]: "returns (netns_links N netns)"
  unfolding netns_links_def by (auto intro!: go_rules split: sum.splits option.splits)

lemma init_loop_aliases:
  assumes "init_loop N p ts h m w = (Done (h', m'), w')"
    and "\<And>vni q. VxlanManager_Get vni m = Some q \<Longrightarrow> q = p \<and> ts \<noteq> [] \<or> q = p \<and> cells h p = Some v"
  shows "VxlanManager_Get vni m' = Some q \<Longrightarrow>
     q = p \<and> cells h' p = Some (if ts = [] then v else NetNs (Status (last ts)))"
  using assms
proof (induction ts arbitrary: h m w v)
  case Nil
  then show ?case by (fastforce simp: ret_run)
next
  case (Cons topology ts)
  let ?h = "store p (NetNs (Status topology)) h"
  have cell: "cells ?h p = Some (NetNs (Status topology))" by simp
  have old: "q = p" if "VxlanManager_Get vni m = Some q" for vni q
    using Cons.prems(3) that by blast
  have step: "q = p \<and> cells h' p = Some (if ts = [] then NetNs (Status topology) else NetNs (Status (last ts)))"
    if "init_loop N p ts ?h m1 w1 = (Done (h', m'), w')" "\<And>vni q. VxlanManager_Get vni m1 = Some q \<Longrightarrow> q = p"
    for m1 w1
    using Cons.IH [OF Cons.prems(1) that(1)] that(2) cell by blast
  show ?case
  proof (cases "NetNs (Status topology) = []")
    case True
    then show ?thesis using Cons.prems(2) step [of m w] old by (simp add: Let_def)
  next
    case False
    obtain links w1 where links: "netns_links N (NetNs (Status topology)) w = (Done links, w1)"
      using returnsD [OF returns_netns_links, of N "NetNs (Status topology)" w] by blast
    have "init_loop N p ts ?h (store_vnis p links m) w1 = (Done (h', m'), w')"
      using Cons.prems(2) False links by (simp add: Let_def)
    moreover have "q = p" if "VxlanManager_Get vni (store_vnis p links m) = Some q" for vni q
      using that old by (simp add: store_vnis_get split: if_splits)
    ultimately show ?thesis using step [of "store_vnis p links m" w1] by simp
  qed
qed

text \<open>
  C32: After \<open>Init\<close> on a new table, every identifier it found refers to the namespace of the last
  topology of the list, whichever namespace its interface is in: the loop stores the address of the
  range variable.
\<close>

theorem VxlanManager_Init_aliases:
  assumes "VxlanManager_Init N topologies h NewVxlanManager w = (Done (h', m), w')"
    and "VxlanManager_Get vni m = Some q"
  shows "cells h' q = Some (NetNs (Status (last (Items topologies))))"
proof -
  obtain p h1 where a: "alloc '''' h = (p, h1)" by fastforce
  then have run: "init_loop N p (Items topologies) h1 NewVxlanManager w = (Done (h', m), w')"
    using assms(1) by (simp add: VxlanManager_Init_def)
  have "Items topologies \<noteq> []"
  proof
    assume "Items topologies = []"
    with run assms(2) show False by (simp add: ret_run vm.get_empty)
  qed
  then show ?thesis
    using init_loop_aliases [OF run _ assms(2)] by (simp add: vm.get_empty)
qed

section \<open>Source interface\<close>

lemma addr_loop_iff: "addr_loop nIP as \<longleftrightarrow> list_ex (IP_Equal nIP) as"
  by (induction as) simp_all

lemma iface_loop_find:
  "iface_loop nIP is = map_option hi_Name (find (\<lambda>i. list_ex (IP_Equal nIP) (hi_Addrs i)) is)"
  by (induction "is") (simp_all add: addr_loop_iff)

lemma GetDefaultVxlanSource_panics_iff:
  "(\<exists>x. fst (GetDefaultVxlanSource N w) = Abort x)
     \<longleftrightarrow> fst (nl_RouteGet N (v4InV6Prefix @ [1, 1, 1, 1]) w) = ([], None)"
proof -
  obtain r err w1 where "nl_RouteGet N (v4InV6Prefix @ [1, 1, 1, 1]) w = ((r, err), w1)"
    by (metis prod.collapse)
  then show ?thesis
    by (auto simp: GetDefaultVxlanSource_def bnd_ext ret_run halt_run split: list.splits sum.splits)
qed

section \<open>Removing a link by its identifier\<close>

lemma remove_vni_loop_find:
  "remove_vni_loop N ns vni links =
     (case find (has_vni vni) links of
        None \<Rightarrow> ret None
      | Some link \<Rightarrow> bnd (ext (nl_LinkDel N ns link)) (\<lambda>r. case r of
          Some err \<Rightarrow> ret (Some (Wrap ''error deleting vxlan link: '' err)) | None \<Rightarrow> ret None))"
  by (induction links) (auto simp: has_vni_def split: nlink.splits)

definition del_of_vni :: "int32 \<Rightarrow> event \<Rightarrow> bool" where
  "del_of_vni vni e = (case e of EvLinkDel _ link _ \<Rightarrow> has_vni vni link | _ \<Rightarrow> False)"

definition failed :: "event \<Rightarrow> bool" where
  "failed e = (case e of EvLinkDel _ _ r \<Rightarrow> r \<noteq> None | _ \<Rightarrow> False)"

lemma RemoveLinkWithVni_emits:
  "emits (RemoveLinkWithVni (recording N) vni netns)
     (\<lambda>r evs. (\<exists>x. r = Done x) \<and> length evs \<le> 1 \<and> list_all (del_of_vni vni) evs
        \<and> (r = Done None \<longrightarrow> \<not> list_ex failed evs))"
  unfolding RemoveLinkWithVni_def ns_do_def remove_vni_loop_find
  by (auto intro!: emit_rules simp: del_of_vni_def failed_def find_Some_iff
      split: sum.splits option.splits)

lemma returns_RemoveLinkWithVni [go_rules]: "returns (RemoveLinkWithVni N vni netns)"
  unfolding RemoveLinkWithVni_def remove_vni_loop_find
  by (auto intro!: go_rules split: sum.splits option.splits)

section \<open>The requests of a creation\<close>

text \<open>
  The requests that create an interface: one creation, or a creation refused because of an existing
  file, at most one successful deletion of a VXLAN link with the same identifier, and a second
  creation.
\<close>

definition creation :: "int32 \<Rightarrow> VEth \<Rightarrow> VxLan \<Rightarrow> event list \<Rightarrow> bool" where
  "creation vni veth vxlan evs \<longleftrightarrow>
     evs = [EvMakeVxLan veth vxlan None]
     \<or> (\<exists>err dels. Contains (error_text err) ''file exists'' \<and> length dels \<le> 1 \<and> list_all (del_of_vni vni) dels
          \<and> \<not> list_ex failed dels
          \<and> evs = EvMakeVxLan veth vxlan (Some err) # dels @ [EvMakeVxLan veth vxlan None])"

lemma make_vxlan_emits:
  "emits (make_vxlan (recording N) v veth vxlan)
     (\<lambda>r evs. (\<exists>x. r = Done x) \<and> (\<forall>u. r = Done (Inr u) \<longrightarrow> u = veth \<and> creation (vs_Vni v) veth vxlan evs))"
  unfolding make_vxlan_def recording_sel
  apply (rule emits_bnd_changing)
  subgoal for a
    by (cases a)
      (auto intro!: emit_rules emits_bnd [OF RemoveLinkWithVni_emits] simp: creation_def split: option.splits)
  done

lemma emits_vxlan_source:
  "emits (vxlan_source (recording N) v) (\<lambda>r evs. evs = [])"
  unfolding vxlan_source_def GetDefaultVxlanSource_def GetVxlanSource_def
  by (auto intro!: emit_rules split: option.splits list.splits sum.splits)

lemma emits_getLinkFromNS:
  "emits (getLinkFromNS (recording N) ns n) (\<lambda>r evs. evs = [] \<and> (\<exists>x. r = Done x))"
  unfolding getLinkFromNS_def by (auto intro!: emit_rules split: sum.splits option.splits)

lemma vxlan_veth_names: "vxlan_veth v = Inr veth \<Longrightarrow> NsName veth = vs_NetNs v \<and> LinkName veth = vs_IntfName v"
  by (auto simp: vxlan_veth_def sbind_Inr_iff)

lemma replace_emits:
  "emits (bnd (ext (nl_RemoveVethLink (recording N) veth)) (\<lambda>r. case r of
       Some err \<Rightarrow> ret (Inl (Wrap t err)) | None \<Rightarrow> make_vxlan (recording N) v veth vxlan))
     (\<lambda>r evs. \<forall>u. r = Done (Inr u) \<longrightarrow> u = veth \<and>
        (\<exists>evs'. evs = EvRemoveVeth veth None # evs' \<and> creation (vs_Vni v) veth vxlan evs'))"
  unfolding recording_sel
  apply (rule emits_bnd_changing)
  subgoal for a by (cases a) (auto intro!: emit_rules emits_mono [OF make_vxlan_emits])
  done

lemma update_link_emits:
  "emits (update_link (recording N) v veth vxlan link)
     (\<lambda>r evs. \<forall>u. r = Done (Inr u) \<longrightarrow> u = veth \<and>
        (evs = [] \<or> (\<exists>evs'. creation (vs_Vni v) veth vxlan evs'
            \<and> (evs = evs' \<or> evs = EvRemoveVeth veth None # evs'))))"
proof (cases link)
  case None
  then show ?thesis by (auto simp: update_link_def intro!: emits_mono [OF make_vxlan_emits])
next
  case (Some l)
  then show ?thesis
  proof (cases l)
    case (Vxlan a vid g)
    with Some show ?thesis
      by (cases "vxlanEqual vid g vxlan")
        (auto simp: update_link_def simp del: recording_sel intro!: emits_ret emits_mono [OF replace_emits])
  next
    case (OtherLink a t)
    with Some show ?thesis
      by (auto simp: update_link_def simp del: recording_sel intro!: emits_mono [OF replace_emits])
  qed
qed

lemma CreateOrUpdate_emits:
  "emits (CreateOrUpdate (recording N) v)
     (\<lambda>r evs. \<forall>veth. r = Done (Inr veth) \<longrightarrow> vxlan_veth v = Inr veth \<and>
        (evs = [] \<or> (\<exists>srcIntf evs'. creation (vs_Vni v) veth (vxlan_params srcIntf v) evs'
            \<and> (evs = evs' \<or> evs = EvRemoveVeth veth None # evs'))))"
proof (cases "vxlan_veth v")
  case (Inl e)
  then show ?thesis
    unfolding CreateOrUpdate_def
    by (intro emits_orelse [OF emits_vxlan_source]) (auto intro!: emits_ret)
next
  case (Inr veth)
  then show ?thesis
    unfolding CreateOrUpdate_def
    by (intro emits_orelse [OF emits_vxlan_source])
      (auto intro!: emits_bnd [OF emits_getLinkFromNS] emits_mono [OF update_link_emits])
qed

text \<open>
  C23: Whatever the host does, a successful \<open>CreateOrUpdate\<close> describes the interface the specification
  names and either asked for nothing or asked, after at most one successful removal of the interface of
  that name, for a creation: one that succeeded, or one refused because a file exists, then at most
  one successful deletion of a VXLAN link with the same identifier, then one that succeeded.
\<close>

theorem CreateOrUpdate_requests:
  assumes "CreateOrUpdate (recording N) v (w, []) = (Done (Inr veth), (w', evs))"
  shows "NsName veth = vs_NetNs v \<and> LinkName veth = vs_IntfName v \<and>
    (evs = [] \<or> (\<exists>srcIntf evs'. creation (vs_Vni v) veth (vxlan_params srcIntf v) evs'
       \<and> (evs = evs' \<or> evs = EvRemoveVeth veth None # evs')))"
  using emits_run [OF CreateOrUpdate_emits assms] vxlan_veth_names by auto

section \<open>Creation is idempotent\<close>

definition lookup :: "'w netlib \<Rightarrow> 'w \<Rightarrow> VEth \<Rightarrow> nlink option" where
  "lookup N w v = (case fst (getLinkFromNS N (NsName v) (LinkName v) w) of Done l \<Rightarrow> l | Abort _ \<Rightarrow> None)"

text \<open>
  What the packages document: a VXLAN interface that was created is found under its name with its
  identifier and remote address, and looking up links does not change them.
\<close>

definition vxlan_host :: "'w netlib \<Rightarrow> bool" where
  "vxlan_host N \<longleftrightarrow>
     (\<forall>veth vxlan w. fst (nl_MakeVxLan N veth vxlan w) = None \<longrightarrow>
        (\<exists>a. lookup N (snd (nl_MakeVxLan N veth vxlan w)) veth = Some (Vxlan a (vx_ID vxlan) (vx_IPAddr vxlan))))
     \<and> (\<forall>ns n w. lookup N (snd (getLinkFromNS N ns n w)) = lookup N w)"

definition up_to_date :: "'w netlib \<Rightarrow> VEth \<Rightarrow> VxLan \<Rightarrow> 'w \<Rightarrow> bool" where
  "up_to_date N veth vxlan w \<longleftrightarrow>
     (\<exists>a vid g. lookup N w veth = Some (Vxlan a vid g) \<and> vxlanEqual vid g vxlan)"

lemma returns_getLinkFromNS [go_rules]: "returns (getLinkFromNS N ns n)"
  unfolding getLinkFromNS_def by (auto intro!: go_rules split: sum.splits option.splits)

lemma make_vxlan_creates:
  assumes "vxlan_host N" "make_vxlan N v veth vxlan w = (Done (Inr u), w')"
  shows "up_to_date N veth vxlan w'"
proof -
  have "\<exists>w1. fst (nl_MakeVxLan N veth vxlan w1) = None \<and> w' = snd (nl_MakeVxLan N veth vxlan w1)"
    using assms(2) unfolding make_vxlan_def
    by (auto simp: bnd_ext ret_run split: option.splits if_splits elim!: bnd_cases)
  then obtain a where "lookup N w' veth = Some (Vxlan a (vx_ID vxlan) (vx_IPAddr vxlan))"
    using assms(1) unfolding vxlan_host_def by blast
  then show ?thesis by (simp add: up_to_date_def vxlanEqual_def)
qed

lemma update_link_creates:
  assumes "vxlan_host N" "update_link N v veth vxlan (lookup N w veth) w = (Done (Inr u), w')"
  shows "up_to_date N veth vxlan w'"
  using assms make_vxlan_creates [OF assms(1)]
  by (auto simp: update_link_def up_to_date_def bnd_ext ret_run
      split: option.splits nlink.splits if_splits)

lemma getLinkFromNS_lookup:
  "\<exists>w1. getLinkFromNS N (NsName v) (LinkName v) w = (Done (lookup N w v), w1)"
  using returnsD [OF returns_getLinkFromNS, of N "NsName v" "LinkName v" w] by (auto simp: lookup_def)

lemma vxlan_params_same: "vs_SrcIntf v \<noteq> [] \<Longrightarrow> vxlan_source N v = ret (Inr (vs_SrcIp v, vs_SrcIntf v))"
  by (simp add: vxlan_source_def)

lemma CreateOrUpdate_up_to_date:
  assumes "vxlan_host N" "vs_SrcIntf v \<noteq> []" "CreateOrUpdate N v w = (Done (Inr veth), w')"
  shows "vxlan_veth v = Inr veth \<and> up_to_date N veth (vxlan_params (vs_SrcIntf v) v) w'"
proof (cases "vxlan_veth v")
  case (Inl e)
  with assms show ?thesis by (simp add: CreateOrUpdate_def vxlan_params_same ret_run)
next
  case (Inr u)
  obtain w1 where w1: "getLinkFromNS N (NsName u) (LinkName u) w = (Done (lookup N w u), w1)"
    using getLinkFromNS_lookup [of N u w] by blast
  have "lookup N w1 = lookup N w" using assms(1) w1 unfolding vxlan_host_def by (metis snd_conv)
  then have upd: "update_link N v u (vxlan_params (vs_SrcIntf v) v) (lookup N w1 u) w1 = (Done (Inr veth), w')"
    using assms(3) w1 by (simp add: CreateOrUpdate_def vxlan_params_same [OF assms(2)] Inr)
  have "veth = u"
    using upd by (auto simp: update_link_def make_vxlan_def bnd_ext ret_run
        split: option.splits nlink.splits if_splits elim!: bnd_cases)
  with Inr update_link_creates [OF assms(1) upd] show ?thesis by simp
qed


section \<open>Witnesses\<close>

text \<open>A host whose world is the table of its VXLAN interfaces.\<close>

definition vxlan_table_host :: "(string \<times> string \<Rightarrow> nlink option) netlib" where
  "vxlan_table_host = quiet_host
     \<lparr> nl_LinkByName := (\<lambda>ns n w. (case w (ns, n) of Some l \<Rightarrow> Inr l | None \<Rightarrow> Inl (ExtError ''Link not found''), w)),
       nl_MakeVxLan := (\<lambda>v x w. (None, w((NsName v, LinkName v) \<mapsto> Vxlan (attrs demo_link) (vx_ID x) (vx_IPAddr x)))) \<rparr>"

lemma vxlan_table_lookup: "getLinkFromNS vxlan_table_host ns n w = (Done (w (ns, n)), w)"
  by (simp add: getLinkFromNS_def vxlan_table_host_def quiet_host_def bnd_ext ret_run split: option.splits)

lemma vxlan_table_host_ok: "vxlan_host vxlan_table_host"
  by (simp add: vxlan_host_def lookup_def vxlan_table_lookup) (simp add: vxlan_table_host_def)

definition demo_spec :: VxlanSpec where
  "demo_spec =
     \<lparr> vs_NetNs = ''/run/netns/a'', vs_IntfName = ''eth1'', vs_IntfIp = [], vs_PeerVtep = [],
       vs_Vni = 5001, vs_SrcIp = [], vs_SrcIntf = ''ens3'' \<rparr>"

lemma demo_spec_veth: "vxlan_veth demo_spec = Inr demo_veth"
  by (simp add: vxlan_veth_def demo_spec_def demo_veth_def)

lemma demo_CreateOrUpdate:
  "\<exists>w'. CreateOrUpdate vxlan_table_host demo_spec (\<lambda>_. None) = (Done (Inr demo_veth), w')"
  by (simp add: CreateOrUpdate_def vxlan_params_same demo_spec_veth vxlan_table_lookup update_link_def
      make_vxlan_def bnd_ext ret_run demo_spec_def [THEN arg_cong, of vs_SrcIntf])
    (simp add: vxlan_table_host_def ret_run)


lemma demo_CreateOrUpdate_log:
  "\<exists>w'. CreateOrUpdate (recording vxlan_table_host) demo_spec ((\<lambda>_. None), []) =
     (Done (Inr demo_veth), (w', [EvMakeVxLan demo_veth (vxlan_params ''ens3'' demo_spec) None]))"
proof -
  have "getLinkFromNS (recording vxlan_table_host) ns n ((\<lambda>_. None), []) = (Done None, ((\<lambda>_. None), []))" for ns n
    by (simp add: getLinkFromNS_def vxlan_table_host_def quiet_host_def bnd_ext asking_run ret_run)
  moreover have "vs_SrcIntf demo_spec = ''ens3''" by (simp add: demo_spec_def)
  ultimately show ?thesis
    by (simp add: CreateOrUpdate_def vxlan_params_same demo_spec_veth update_link_def make_vxlan_def bnd_ext
        changing_run ret_run vxlan_table_host_def)
qed

theorem CreateOrUpdate_requests_witness:
  "\<exists>w evs. CreateOrUpdate (recording vxlan_table_host) demo_spec ((\<lambda>_. None), []) = (Done (Inr demo_veth), (w, evs))
     \<and> length evs = 1 \<and> NsName demo_veth = ''/run/netns/a''
     \<and> (\<exists>srcIntf evs'. creation 5001 demo_veth (vxlan_params srcIntf demo_spec) evs'
          \<and> (evs = evs' \<or> evs = EvRemoveVeth demo_veth None # evs'))"
proof -
  obtain w where run: "CreateOrUpdate (recording vxlan_table_host) demo_spec ((\<lambda>_. None), []) =
     (Done (Inr demo_veth), (w, [EvMakeVxLan demo_veth (vxlan_params ''ens3'' demo_spec) None]))"
    using demo_CreateOrUpdate_log by blast
  have "vs_Vni demo_spec = 5001" "vs_NetNs demo_spec = ''/run/netns/a''" by (simp_all add: demo_spec_def)
  with CreateOrUpdate_requests [OF run] run show ?thesis by (metis length_Cons list.size(3) One_nat_def list.distinct(1))
qed

text \<open>Two topologies on one host, each with one VXLAN interface in its own namespace.\<close>

definition two_ns_host :: "unit netlib" where
  "two_ns_host = quiet_host
     \<lparr> nl_LinkList := (\<lambda>ns w. (Inr [Vxlan (attrs demo_link) (if ns = ''/run/netns/a'' then 5001 else 5002) []], w)) \<rparr>"

definition topology_in :: "string \<Rightarrow> string \<Rightarrow> Topology" where
  "topology_in name netns =
     \<lparr> Name = name, Namespace = ''default'', Finalizers = [], ResourceVersion = ''1'',
       Spec = \<lparr> SpecLinks = None \<rparr>,
       Status = \<lparr> Skipped = None, SrcIP = ''10.0.0.1'', NetNs = netns, StatusLinks = None \<rparr> \<rparr>"

theorem VxlanManager_Init_aliases_witness:
  "\<exists>h m q. VxlanManager_Init two_ns_host
        \<lparr> Items = [topology_in ''r1'' ''/run/netns/a'', topology_in ''r2'' ''/run/netns/b''] \<rparr>
        empty_mem NewVxlanManager () = (Done (h, m), ())
     \<and> VxlanManager_Get 5001 m = Some q \<and> cells h q = Some ''/run/netns/b''"
proof -
  let ?ts = "\<lparr> Items = [topology_in ''r1'' ''/run/netns/a'', topology_in ''r2'' ''/run/netns/b''] \<rparr>"
  obtain h m q where run: "VxlanManager_Init two_ns_host ?ts empty_mem NewVxlanManager () = (Done (h, m), ())"
    and get: "VxlanManager_Get 5001 m = Some q"
    by (simp add: VxlanManager_Init_def alloc_def empty_mem_def topology_in_def netns_links_def two_ns_host_def
        quiet_host_def bnd_ext ret_run VxlanManager_Get_def)
  show ?thesis
    using VxlanManager_Init_aliases [OF run get] run get by (auto simp: topology_in_def)
qed

end
