(* ===== verification/Metrics.thy ===== *)
theory Metrics
  imports NetLib Registry "HOL-Library.AList" "HOL-Library.Multiset"
begin

text \<open>
  \<open>daemon/metrics\<close>: the table of local topologies and the collector that reports the counters of
  their interfaces. The table holds pointers to topologies. Go's iteration order over a map is
  unspecified: \<open>List\<close> takes the order as a parameter, a function that permutes the entries.
\<close>

section \<open>The table of topologies\<close>

record TopologyManager =
  topologies :: "(string \<times> ptr) list"

definition NewTopologyManager :: TopologyManager where
  "NewTopologyManager = \<lparr> topologies = [] \<rparr>"

definition topology_key :: "string \<Rightarrow> string \<Rightarrow> string" where
  "topology_key ns name = ns @ ''/'' @ name"

text \<open>Every iteration of \<open>Init\<close> has its own copy of the topology.\<close>

fun topologies_init_loop ::
  "Topology list \<Rightarrow> Topology mem \<Rightarrow> TopologyManager \<Rightarrow> Topology mem \<times> TopologyManager" where
  "topologies_init_loop [] h m = (h, m)"
| "topologies_init_loop (topology # ts) h m =
     (case alloc topology h of (p, h') \<Rightarrow>
        topologies_init_loop ts h' (m\<lparr> topologies := AList.update (Name topology) p (topologies m) \<rparr>))"

definition TopologyManager_Init ::
  "TopologyList \<Rightarrow> Topology mem \<Rightarrow> TopologyManager \<Rightarrow> Topology mem \<times> TopologyManager" where
  "TopologyManager_Init list h m = topologies_init_loop (Items list) h m"

text \<open>\<open>Add\<close> and \<open>Update\<close> take a pointer and the topology it points to.\<close>

definition TopologyManager_Add :: "ptr \<Rightarrow> Topology \<Rightarrow> TopologyManager \<Rightarrow> TopologyManager" where
  "TopologyManager_Add p topology m =
     (let key = topology_key (Namespace topology) (Name topology)
      in m\<lparr> topologies := AList.update key p (topologies m) \<rparr>)"

definition TopologyManager_Delete :: "string \<Rightarrow> string \<Rightarrow> TopologyManager \<Rightarrow> TopologyManager" where
  "TopologyManager_Delete name ns m =
     (let key = topology_key ns name in m\<lparr> topologies := AList.delete key (topologies m) \<rparr>)"

definition TopologyManager_Get :: "string \<Rightarrow> string \<Rightarrow> TopologyManager \<Rightarrow> ptr option" where
  "TopologyManager_Get name ns m = map_of (topologies m) (topology_key ns name)"

definition TopologyManager_List ::
  "((string \<times> ptr) list \<Rightarrow> (string \<times> ptr) list) \<Rightarrow> TopologyManager \<Rightarrow> ptr list" where
  "TopologyManager_List order m = map snd (order (topologies m))"

definition TopologyManager_Update :: "ptr \<Rightarrow> Topology \<Rightarrow> TopologyManager \<Rightarrow> TopologyManager" where
  "TopologyManager_Update p topology m =
     m\<lparr> topologies := AList.update (Name topology) p (topologies m) \<rparr>"

section \<open>Interface statistics\<close>

datatype metric_desc =
    rxPacketsDesc | rxBytesDesc | txPacketsDesc | txBytesDesc
  | rxErrorsDesc | txErrorsDesc | rxDroppedDesc | txDroppedDesc

record metric =
  mt_desc :: metric_desc
  mt_value :: rat
  mt_labels :: "string list"

definition Describe :: "metric_desc list" where
  "Describe = [rxPacketsDesc, rxBytesDesc, txPacketsDesc, txBytesDesc,
               rxErrorsDesc, txErrorsDesc, rxDroppedDesc, txDroppedDesc]"

definition float64_of :: "uint64 \<Rightarrow> rat" where
  "float64_of v = fround 53 (-1074) (unat v) 1"

definition listLinks :: "'w netlib \<Rightarrow> string \<Rightarrow> ('w, error + nlink list) go" where
  "listLinks N nsName =
     bnd (if nsName = [] then ext (nl_GetCurrentNS N) else ext (nl_GetNS N nsName)) (\<lambda>r. case r of
       Inl err \<Rightarrow> ret (Inl err)
     | Inr ns \<Rightarrow>
         bnd (ext (nl_enter N ns)) (\<lambda>r. case r of
           Some err \<Rightarrow> ret (Inl err)
         | None \<Rightarrow> ext (nl_LinkList N ns)))"

definition link_metrics :: "Topology \<Rightarrow> LinkAttrs \<Rightarrow> LinkStatistics \<Rightarrow> metric list" where
  "link_metrics topology la stats =
     (let mk = (\<lambda>d v. \<lparr> mt_desc = d, mt_value = float64_of v,
                       mt_labels = [la_Name la, Name topology, Namespace topology] \<rparr>)
      in [mk rxBytesDesc (RxBytes stats), mk rxPacketsDesc (RxPackets stats),
          mk txBytesDesc (TxBytes stats), mk txPacketsDesc (TxPackets stats),
          mk rxErrorsDesc (RxErrors stats), mk txErrorsDesc (TxErrors stats),
          mk rxDroppedDesc (RxDropped stats), mk txDroppedDesc (TxDropped stats)])"

text \<open>A link without statistics is a nil pointer dereference.\<close>

fun metrics_loop :: "Topology \<Rightarrow> nlink list \<Rightarrow> ('w, metric list) go" where
  "metrics_loop topology [] = ret []"
| "metrics_loop topology (link # links) =
     (case la_Statistics (attrs link) of
        None \<Rightarrow> halt (Panic ''nil pointer dereference'')
      | Some stats \<Rightarrow>
          bnd (metrics_loop topology links) (\<lambda>ms. ret (link_metrics topology (attrs link) stats @ ms)))"

definition collectIpRouteMetrics :: "'w netlib \<Rightarrow> Topology \<Rightarrow> ('w, metric list) go" where
  "collectIpRouteMetrics N topology =
     bnd (listLinks N (NetNs (Status topology))) (\<lambda>r. case r of
       Inl _ \<Rightarrow> ret []
     | Inr links \<Rightarrow> metrics_loop topology links)"

text \<open>The collector dereferences each pointer of the table; a dangling one is a nil dereference.\<close>

fun collect_loop :: "'w netlib \<Rightarrow> Topology mem \<Rightarrow> ptr list \<Rightarrow> ('w, metric list) go" where
  "collect_loop N h [] = ret []"
| "collect_loop N h (p # ps) =
     (case cells h p of
        None \<Rightarrow> halt (Panic ''nil pointer dereference'')
      | Some topology \<Rightarrow>
          if NetNs (Status topology) = [] then collect_loop N h ps
          else bnd (collectIpRouteMetrics N topology) (\<lambda>ms.
                 bnd (collect_loop N h ps) (\<lambda>ms'. ret (ms @ ms'))))"

definition Collect ::
  "'w netlib \<Rightarrow> ((string \<times> ptr) list \<Rightarrow> (string \<times> ptr) list) \<Rightarrow> Topology mem \<Rightarrow> TopologyManager
   \<Rightarrow> ('w, metric list) go" where
  "Collect N order h m = collect_loop N h (TopologyManager_List order m)"

section \<open>The table keeps what was written last\<close>

lemma topology_key_inject:
  assumes "CHR ''/'' \<notin> set ns" "CHR ''/'' \<notin> set ns'"
  shows "topology_key ns name = topology_key ns' name' \<longleftrightarrow> ns = ns' \<and> name = name'"
proof
  assume eq: "topology_key ns name = topology_key ns' name'"
  have split: "takeWhile (\<lambda>c. c \<noteq> CHR ''/'') (topology_key n x) = n" if "CHR ''/'' \<notin> set n" for n x
    using that by (simp add: topology_key_def takeWhile_append)
  have "ns = ns'" using split [OF assms(1), of name] split [OF assms(2), of name'] eq by simp
  with eq show "ns = ns' \<and> name = name'" by (simp add: topology_key_def)
qed simp

definition topology_id :: "Topology \<Rightarrow> string \<times> string" where
  "topology_id topology = (Name topology, Namespace topology)"

interpretation tm: registry "\<lambda>(name, ns). CHR ''/'' \<notin> set ns" "\<lambda>(p, topology). topology_id topology" fst "\<lambda>d. d"
  NewTopologyManager "\<lambda>(p, topology). TopologyManager_Add p topology"
  "\<lambda>(name, ns). TopologyManager_Delete name ns" "\<lambda>(name, ns). TopologyManager_Get name ns"
  by unfold_locales
    (auto simp: NewTopologyManager_def TopologyManager_Get_def TopologyManager_Add_def topology_id_def
      TopologyManager_Delete_def Let_def update_conv' delete_conv' topology_key_inject split: if_splits)

definition tm_exec :: "(ptr \<times> Topology, string \<times> string) tableop \<Rightarrow> TopologyManager \<Rightarrow> TopologyManager" where
  "tm_exec x m =
     (case x of
        Put (p, topology) \<Rightarrow> TopologyManager_Add p topology m
      | Drop (name, ns) \<Rightarrow> TopologyManager_Delete name ns m)"

lemma tm_exec_eq: "tm_exec = tm.exec"
  by (auto simp: tm_exec_def tm.exec_def fun_eq_iff split: tableop.splits)

text \<open>
  After any sequence of \<open>Add\<close> and \<open>Delete\<close> on a new table, with namespaces that have no slash, \<open>Get\<close>
  returns what the last operation on that name and namespace left.
\<close>

theorem TopologyManager_last_write:
  assumes "CHR ''/'' \<notin> set ns"
    and "list_all (\<lambda>x. CHR ''/'' \<notin> set (snd (op_key (\<lambda>(p, t). topology_id t) (\<lambda>d. d) x))) ops"
  shows "TopologyManager_Get name ns (fold tm_exec ops NewTopologyManager)
    = last_write (\<lambda>(p, t). topology_id t) fst (\<lambda>d. d) (name, ns) ops None"
  using tm.get_exec_from_empty [of "(name, ns)" ops] assms
  by (simp add: tm_exec_eq case_prod_beta)

definition named :: "string \<Rightarrow> string \<Rightarrow> Topology" where
  "named name ns =
     \<lparr> Name = name, Namespace = ns, Finalizers = [], ResourceVersion = [], Spec = \<lparr> SpecLinks = None \<rparr>,
       Status = \<lparr> Skipped = None, SrcIP = [], NetNs = [], StatusLinks = None \<rparr> \<rparr>"

theorem TopologyManager_last_write_witness:
  "TopologyManager_Get ''r1'' ''default''
     (fold tm_exec [Put (3, named ''r1'' ''default''), Drop (''r1'', ''prod'')] NewTopologyManager) = Some 3"
  using TopologyManager_last_write [of "''default''" "[Put (3, named ''r1'' ''default''), Drop (''r1'', ''prod'')]" "''r1''"]
  by (simp add: named_def topology_id_def)

section \<open>Topologies loaded at start\<close>

lemma topologies_init_keys:
  "fst ` set (topologies (snd (topologies_init_loop ts h m))) = fst ` set (topologies m) \<union> Name ` set ts"
proof (induction ts arbitrary: h m)
  case Nil
  then show ?case by simp
next
  case (Cons t ts)
  then show ?case by (auto simp: alloc_def dom_update split: prod.splits)
qed

lemma topologies_init_mono:
  "k \<notin> Name ` set ts \<Longrightarrow> map_of (topologies (snd (topologies_init_loop ts h m))) k = map_of (topologies m) k"
  by (induction ts arbitrary: h m) (auto simp: update_conv' split: prod.splits)

text \<open>
  C33: A topology loaded by \<open>Init\<close> is stored under its bare name, so \<open>Get\<close> with its name and namespace
  does not find it and \<open>Delete\<close> with them leaves it in the table, for every list of topologies whose
  names have no slash.
\<close>

theorem TopologyManager_Init_unreachable:
  assumes "list_all (\<lambda>t. CHR ''/'' \<notin> set (Name t)) (Items list)"
    and "TopologyManager_Init list h NewTopologyManager = (h', m)" and "t \<in> set (Items list)"
  shows "TopologyManager_Get (Name t) (Namespace t) m = None
    \<and> Name t \<in> fst ` set (topologies (TopologyManager_Delete (Name t) (Namespace t) m))"
proof
  have m: "m = snd (topologies_init_loop (Items list) h NewTopologyManager)"
    using assms(2) by (simp add: TopologyManager_Init_def)
  have key: "topology_key ns n \<notin> Name ` set (Items list)" for ns n
  proof
    assume "topology_key ns n \<in> Name ` set (Items list)"
    with assms(1) have "CHR ''/'' \<notin> set (topology_key ns n)" by (auto simp: list_all_iff)
    then show False by (simp add: topology_key_def)
  qed
  show "TopologyManager_Get (Name t) (Namespace t) m = None"
    by (simp add: TopologyManager_Get_def m topologies_init_mono [OF key] NewTopologyManager_def)
  have "Name t \<in> fst ` set (topologies m)"
    using assms(3) unfolding m topologies_init_keys by blast
  moreover have "Name t \<noteq> topology_key (Namespace t) (Name t)" by (simp add: topology_key_def)
  ultimately show "Name t \<in> fst ` set (topologies (TopologyManager_Delete (Name t) (Namespace t) m))"
    by (simp add: TopologyManager_Delete_def Let_def delete_keys [symmetric] AList.delete_eq) force
qed

theorem TopologyManager_Init_unreachable_witness:
  "TopologyManager_Get ''r1'' ''default''
      (snd (TopologyManager_Init \<lparr> Items = [named ''r1'' ''default''] \<rparr> empty_mem NewTopologyManager)) = None"
  using TopologyManager_Init_unreachable [of "\<lparr> Items = [named ''r1'' ''default''] \<rparr>" empty_mem _ _ "named ''r1'' ''default''",
      OF _ surjective_pairing]
  by (simp add: named_def)

section \<open>Registration\<close>

text \<open>
  \<open>metrics/main.go\<close> and \<open>latency_histograms.go\<close>: the collectors of the daemon. A registry of the package
  \<open>prometheus\<close> is a parameter; \<open>MustRegister\<close> panics at the first collector it refuses.
\<close>

record LatencyHistograms =
  hist_Name :: string
  hist_Help :: string
  hist_Buckets :: "nat list"
  hist_labels :: "string list"

datatype collector =
    BuildInfoCollector
  | GoCollector string
  | ProcessCollector
  | InterfaceStatisticsCollector ptr
  | HistogramVec LatencyHistograms

record 'r prometheus =
  prom_Register :: "collector \<Rightarrow> 'r \<Rightarrow> error option \<times> 'r"

fun MustRegister :: "'r prometheus \<Rightarrow> collector list \<Rightarrow> ('r, unit) go" where
  "MustRegister P [] = ret ()"
| "MustRegister P (c # cs) =
     bnd (ext (prom_Register P c)) (\<lambda>r. case r of
       Some err \<Rightarrow> halt (Panic ''MustRegister'')
     | None \<Rightarrow> MustRegister P cs)"

definition NewInterfaceStatisticsCollector :: "ptr \<Rightarrow> collector" where
  "NewInterfaceStatisticsCollector manager = InterfaceStatisticsCollector manager"

definition NewRegistry :: "'r prometheus \<Rightarrow> ptr \<Rightarrow> ('r, unit) go" where
  "NewRegistry P manager =
     MustRegister P
       [BuildInfoCollector,
        GoCollector ''/.*'',
        ProcessCollector,
        NewInterfaceStatisticsCollector manager]"

definition NewLatencyHistograms :: LatencyHistograms where
  "NewLatencyHistograms =
     \<lparr> hist_Name = ''kubedtnd_request_duration_milliseconds'',
       hist_Help = ''Latency of requests in milliseconds'',
       hist_Buckets = [0, 1, 5, 10, 20, 50, 100, 200, 500, 1000, 2000, 5000],
       hist_labels = [''method''] \<rparr>"

definition LatencyHistograms_Register :: "'r prometheus \<Rightarrow> LatencyHistograms \<Rightarrow> ('r, unit) go" where
  "LatencyHistograms_Register P l = MustRegister P [HistogramVec l]"

text \<open>The buckets are the increasing sequence a histogram needs.\<close>

lemma buckets_increasing: "sorted_wrt (<) (hist_Buckets NewLatencyHistograms)"
  by (simp add: NewLatencyHistograms_def)

text \<open>A registry that refuses only collectors it already has gets all five, without a panic.\<close>

lemma registration_succeeds:
  assumes "\<And>c r. c \<notin> has r \<Longrightarrow> fst (prom_Register P c r) = None \<and> has (snd (prom_Register P c r)) = insert c (has r)"
    and "has r = {}"
  shows "\<exists>r'. bnd (NewRegistry P manager) (\<lambda>_. LatencyHistograms_Register P NewLatencyHistograms) r = (Done (), r')
    \<and> has r' = {BuildInfoCollector, GoCollector ''/.*'', ProcessCollector, InterfaceStatisticsCollector manager,
        HistogramVec NewLatencyHistograms}"
proof -
  have register: "\<exists>r'. MustRegister P cs r = (Done (), r') \<and> has r' = set cs \<union> has r"
    if "distinct cs" "set cs \<inter> has r = {}" for cs r
    using that
  proof (induction cs arbitrary: r)
    case (Cons c cs)
    then have "fst (prom_Register P c r) = None \<and> has (snd (prom_Register P c r)) = insert c (has r)" using assms(1) by simp
    moreover from this Cons.prems have "distinct cs" "set cs \<inter> has (snd (prom_Register P c r)) = {}" by auto
    note Cons.IH [OF this]
    ultimately show ?case by (auto simp: bnd_ext split: prod.splits)
  qed (simp add: ret_run)
  obtain r1 where r1: "NewRegistry P manager r = (Done (), r1)"
      "has r1 = {BuildInfoCollector, GoCollector ''/.*'', ProcessCollector, InterfaceStatisticsCollector manager}"
    using register [of "[BuildInfoCollector, GoCollector ''/.*'', ProcessCollector, InterfaceStatisticsCollector manager]" r] assms(2)
    by (auto simp: NewRegistry_def NewInterfaceStatisticsCollector_def)
  moreover obtain r2 where "LatencyHistograms_Register P NewLatencyHistograms r1 = (Done (), r2)"
      "has r2 = insert (HistogramVec NewLatencyHistograms) (has r1)"
    using register [of "[HistogramVec NewLatencyHistograms]" r1] r1(2) by (auto simp: LatencyHistograms_Register_def)
  ultimately show ?thesis by (auto simp: bnd_def)
qed

section \<open>What the collector reports\<close>

lemma metrics_loop_labels:
  assumes "metrics_loop topology links w = (Done ms, w')" "x \<in> set ms"
  shows "\<exists>link \<in> set links. mt_labels x = [la_Name (attrs link), Name topology, Namespace topology]"
  using assms
proof (induction links arbitrary: ms w)
  case Nil
  then show ?case by (simp add: ret_run)
next
  case (Cons link links)
  then show ?case
    by (auto simp: link_metrics_def halt_run ret_run split: option.splits elim!: bnd_cases) blast+
qed

lemma collect_loop_labels:
  assumes "collect_loop N h ps w = (Done ms, w')" "x \<in> set ms"
  shows "\<exists>p \<in> set ps. \<exists>t n. cells h p = Some t \<and> NetNs (Status t) \<noteq> [] \<and> mt_labels x = [n, Name t, Namespace t]"
  using assms
proof (induction ps arbitrary: ms w)
  case Nil
  then show ?case by (simp add: ret_run)
next
  case (Cons p ps)
  show ?case
  proof (cases "cells h p")
    case None
    with Cons.prems show ?thesis by (simp add: halt_run)
  next
    case (Some t)
    show ?thesis
    proof (cases "NetNs (Status t) = []")
      case True
      with Some Cons show ?thesis by auto
    next
      case False
      with Some Cons.prems obtain ms1 ms2 w1 where
        "collectIpRouteMetrics N t w = (Done ms1, w1)" "collect_loop N h ps w1 = (Done ms2, w')"
        "ms = ms1 @ ms2"
        by (auto simp: ret_run elim!: bnd_cases)
      moreover from this(1) have "\<exists>n. mt_labels y = [n, Name t, Namespace t]" if "y \<in> set ms1" for y
        using that by (auto simp: collectIpRouteMetrics_def ret_run split: sum.splits elim!: bnd_cases
            dest!: metrics_loop_labels)
      ultimately show ?thesis using Cons Some False by auto
    qed
  qed
qed

text \<open>
  Every counter the collector reports is labelled with the name and namespace of a topology of the
  table that has a network namespace, in whatever order the table is traversed.
\<close>

theorem Collect_labels:
  assumes "\<And>xs. mset (order xs) = mset xs" and "Collect N order h m w = (Done ms, w')" and "x \<in> set ms"
  shows "\<exists>k p t n. (k, p) \<in> set (topologies m) \<and> cells h p = Some t \<and> NetNs (Status t) \<noteq> []
    \<and> mt_labels x = [n, Name t, Namespace t]"
proof -
  have "set (order (topologies m)) = set (topologies m)" using assms(1) by (metis set_mset_mset)
  with collect_loop_labels [OF assms(2) [unfolded Collect_def] assms(3)] show ?thesis
    by (auto simp: TopologyManager_List_def) blast
qed

definition demo_nlink :: nlink where
  "demo_nlink = OtherLink \<lparr> la_Index = 7, la_Name = ''eth1'', la_Statistics = Some
     \<lparr> RxPackets = 0, TxPackets = 0, RxBytes = 0, TxBytes = 0, RxErrors = 0, TxErrors = 0,
       RxDropped = 0, TxDropped = 0 \<rparr> \<rparr> ''veth''"

definition counting_host :: "unit netlib" where
  "counting_host = quiet_host
     \<lparr> nl_LinkList := (\<lambda>ns w. (Inr [demo_nlink], w)) \<rparr>"

definition demo_topology :: Topology where
  "demo_topology = (named ''r1'' ''default'')\<lparr> Status :=
     \<lparr> Skipped = None, SrcIP = ''10.0.0.1'', NetNs = ''/run/netns/a'', StatusLinks = None \<rparr> \<rparr>"

lemma demo_listLinks: "listLinks counting_host ''/run/netns/a'' () = (Done (Inr [demo_nlink]), ())"
  by (simp add: listLinks_def counting_host_def quiet_host_def bnd_ext ext_run)

lemma demo_metrics: "\<exists>x ms. collectIpRouteMetrics counting_host demo_topology () = (Done (x # ms), ())"
proof -
  have "NetNs (Status demo_topology) = ''/run/netns/a''" by (simp add: demo_topology_def)
  then show ?thesis
    by (simp add: collectIpRouteMetrics_def demo_listLinks demo_nlink_def link_metrics_def Let_def ret_run)
qed

lemma demo_Collect:
  "\<exists>x ms. Collect counting_host (\<lambda>xs. xs) (snd (alloc demo_topology empty_mem))
     (TopologyManager_Add 0 demo_topology NewTopologyManager) () = (Done (x # ms), ())"
proof -
  obtain x ms where "collectIpRouteMetrics counting_host demo_topology () = (Done (x # ms), ())"
    using demo_metrics by blast
  moreover have "NetNs (Status demo_topology) \<noteq> []" by (simp add: demo_topology_def)
  ultimately show ?thesis
    by (simp add: Collect_def TopologyManager_List_def TopologyManager_Add_def NewTopologyManager_def Let_def
        alloc_def empty_mem_def ret_run)
qed

theorem Collect_labels_witness:
  "\<exists>x ms. Collect counting_host (\<lambda>xs. xs) (snd (alloc demo_topology empty_mem))
       (TopologyManager_Add 0 demo_topology NewTopologyManager) () = (Done (x # ms), ())
     \<and> (\<exists>n. mt_labels x = [n, ''r1'', ''default''])"
proof -
  obtain x ms where run: "Collect counting_host (\<lambda>xs. xs) (snd (alloc demo_topology empty_mem))
       (TopologyManager_Add 0 demo_topology NewTopologyManager) () = (Done (x # ms), ())"
    using demo_Collect by blast
  have "\<exists>k p t n. (k, p) \<in> set (topologies (TopologyManager_Add 0 demo_topology NewTopologyManager))
      \<and> cells (snd (alloc demo_topology empty_mem)) p = Some t \<and> NetNs (Status t) \<noteq> []
      \<and> mt_labels x = [n, Name t, Namespace t]"
    by (rule Collect_labels [OF _ run]) simp_all
  with run show ?thesis
    by (auto simp: TopologyManager_Add_def NewTopologyManager_def Let_def alloc_def empty_mem_def
        demo_topology_def named_def split: if_splits)
qed

end
