(* ===== verification/GrpcWire.thy ===== *)
theory GrpcWire
  imports NetLib Registry "HOL-Library.AList" "HOL-Library.Multiset"
begin

text \<open>
  \<open>daemon/grpcwire\<close> and the handlers of \<open>daemon/kubedtn/handler.go\<close> that serve gRPC wires: the index
  generator for node interfaces, the table of wires and packet handles, creation and removal of a
  wire's local end, and delivery of packets.

  The state of a process is \<open>wstate\<close>: the package variables \<open>indexGen\<close> and \<open>wires\<close>, the channels that
  were created and closed, and the receive threads that were started, the newest first. Functions act
  on it together with the world of the host. A wire is written only before it enters the table, so
  pointers to wires are the wires themselves; \<open>order\<close> is the unspecified order in which Go traverses
  the table.
\<close>

section \<open>State\<close>

datatype grpcWireOriginator = HOST_CREATED_WIRE | PEER_CREATED_WIRE

record GRPCWire =
  gw_UID :: int64
  gw_Namespace :: string
  LocalNodeIfaceID :: int64
  LocalNodeIfaceName :: string
  LocalPodIP :: string
  LocalPodName :: string
  LocalPodIfaceName :: string
  LocalPodNetNS :: string
  PeerIfaceID :: int64
  PeerNodeIP :: string
  IsReady :: bool
  Originator :: grpcWireOriginator
  OriginatorIP :: string
  StopC :: nat

type_synonym linkKey = "string \<times> int64"

record wireMap =
  wires :: "(linkKey \<times> GRPCWire) list"
  handles :: "int64 \<Rightarrow> pcap_handle option"

record wstate =
  currId :: int64
  wmap :: wireMap
  channels :: nat
  closed :: "nat set"
  threads :: "GRPCWire list"

definition on_host :: "('w, 'a) go \<Rightarrow> ('w \<times> 's, 'a) go" where
  "on_host m = zoom fst (\<lambda>w s. (w, snd s)) m"

definition with_state :: "('s \<Rightarrow> 'a \<times> 's) \<Rightarrow> ('w \<times> 's, 'a) go" where
  "with_state f = (\<lambda>(w, s). case f s of (a, t) \<Rightarrow> (Done a, (w, t)))"

lemma on_host_ext [go_simps]: "on_host (ext f) (w, s) = (Done (fst (f w)), (snd (f w), s))"
  by (simp add: on_host_def zoom_def ext_def split: prod.splits)

lemma bnd_on_host [go_simps]: "bnd (on_host (ext f)) g (w, s) = g (fst (f w)) (snd (f w), s)"
  by (simp add: bnd_def on_host_ext)

lemma bnd_with_state [go_simps]: "bnd (with_state f) g (w, s) = g (fst (f s)) (w, snd (f s))"
  by (simp add: bnd_def with_state_def split: prod.splits)

lemma with_state_run [go_simps]: "with_state f (w, s) = (Done (fst (f s)), (w, snd (f s)))"
  by (simp add: with_state_def split: prod.splits)

section \<open>Names of node interfaces\<close>

definition NextIndex :: "wstate \<Rightarrow> int64 \<times> wstate" where
  "NextIndex s = (let i = currId s + 1 in (i, s\<lparr> currId := i \<rparr>))"

text \<open>\<open>%d\<close> and \<open>%04d\<close>\<close>

definition format_d :: "int64 \<Rightarrow> string" where
  "format_d i = (if 0 \<le> sint i then nat_str (nat (sint i)) else ''-'' @ nat_str (nat (- sint i)))"

definition format_04d :: "int64 \<Rightarrow> string" where
  "format_04d i =
     (if 0 \<le> sint i then pad_zero 4 (nat_str (nat (sint i)))
      else ''-'' @ pad_zero 3 (nat_str (nat (- sint i))))"

text \<open>\<open>%.5s%.5s-%04d\<close> on ASCII names\<close>

definition iface_name :: "string \<Rightarrow> string \<Rightarrow> int64 \<Rightarrow> string" where
  "iface_name podName podIfaceName i = take 5 podName @ take 5 podIfaceName @ ''-'' @ format_04d i"

definition GenNodeIfaceName :: "string \<Rightarrow> string \<Rightarrow> wstate \<Rightarrow> (error + string) \<times> wstate" where
  "GenNodeIfaceName podName podIfaceName s =
     (case NextIndex s of (i, s') \<Rightarrow> (Inr (iface_name podName podIfaceName i), s'))"

section \<open>The table of wires\<close>

definition wire_key :: "GRPCWire \<Rightarrow> linkKey" where
  "wire_key wire = (LocalPodNetNS wire, gw_UID wire)"

definition GetWire :: "linkKey \<Rightarrow> wireMap \<Rightarrow> GRPCWire option" where
  "GetWire key m = map_of (wires m) key"

definition GetHandle :: "int64 \<Rightarrow> wireMap \<Rightarrow> pcap_handle option" where
  "GetHandle key m = handles m key"

definition wireMap_Add :: "GRPCWire \<Rightarrow> pcap_handle \<Rightarrow> wireMap \<Rightarrow> wireMap" where
  "wireMap_Add wire handle m =
     m\<lparr> wires := AList.update (wire_key wire) wire (wires m),
        handles := (handles m)(LocalNodeIfaceID wire \<mapsto> handle) \<rparr>"

definition wireMap_Delete :: "GRPCWire \<Rightarrow> wireMap \<Rightarrow> wireMap" where
  "wireMap_Delete wire m =
     m\<lparr> wires := AList.delete (wire_key wire) (wires m),
        handles := (handles m)(LocalNodeIfaceID wire := None) \<rparr>"

definition empty_wireMap :: wireMap where
  "empty_wireMap = \<lparr> wires = [], handles = (\<lambda>_. None) \<rparr>"

type_synonym wire_order = "(linkKey \<times> GRPCWire) list \<Rightarrow> (linkKey \<times> GRPCWire) list"

definition GetWiresByPod :: "wire_order \<Rightarrow> string \<Rightarrow> string \<Rightarrow> wstate \<Rightarrow> GRPCWire list" where
  "GetWiresByPod order namespace podName s =
     filter (\<lambda>wire. LocalPodName wire = podName \<and> gw_Namespace wire = namespace)
       (map snd (order (wires (wmap s))))"

definition GetWireByUID :: "string \<Rightarrow> int64 \<Rightarrow> wstate \<Rightarrow> GRPCWire option" where
  "GetWireByUID namespace linkUID s = GetWire (namespace, linkUID) (wmap s)"

definition AddWire :: "GRPCWire \<Rightarrow> pcap_handle \<Rightarrow> wstate \<Rightarrow> nat \<times> wstate" where
  "AddWire wire handle s =
     (let s' = s\<lparr> wmap := wireMap_Add (wire\<lparr> IsReady := True \<rparr>) handle (wmap s) \<rparr>
      in (length (wires (wmap s')), s'))"

definition DeleteWire :: "GRPCWire \<Rightarrow> wstate \<Rightarrow> nat \<times> wstate" where
  "DeleteWire wire s =
     (let s' = s\<lparr> wmap := wireMap_Delete wire (wmap s) \<rparr> in (length (wires (wmap s')), s'))"

definition GetHostIntfHndl :: "int64 \<Rightarrow> wstate \<Rightarrow> error + pcap_handle" where
  "GetHostIntfHndl intfID s =
     (case GetHandle intfID (wmap s) of
        Some val \<Rightarrow> Inr val
      | None \<Rightarrow> Inl (Errorf (''node interface '' @ format_d intfID @ '' is not found in local db'')))"

section \<open>Channels\<close>

definition make_chan :: "wstate \<Rightarrow> nat \<times> wstate" where
  "make_chan s = (channels s, s\<lparr> channels := channels s + 1 \<rparr>)"

definition close_chan :: "nat \<Rightarrow> ('w \<times> wstate, unit) go" where
  "close_chan c = (\<lambda>(w, s).
     if c \<in> closed s then (Abort (Panic ''close of closed channel''), (w, s))
     else (Done (), (w, s\<lparr> closed := insert c (closed s) \<rparr>)))"

section \<open>Removing wires\<close>

definition node_veth :: "string \<Rightarrow> VEth" where
  "node_veth name = \<lparr> NsName = [], LinkName = name, IPAddr = [], HardwareAddr = [] \<rparr>"

text \<open>
  The interface is removed a second time after the conditional; with no interface found, \<open>intf\<close> is a
  nil pointer there.
\<close>

definition RemoveWire :: "'w netlib \<Rightarrow> GRPCWire option \<Rightarrow> ('w \<times> wstate, error option) go" where
  "RemoveWire N wire =
     (case wire of
        None \<Rightarrow> ret None
      | Some wire \<Rightarrow>
          bnd (close_chan (StopC wire)) (\<lambda>_.
          bnd (on_host (ext (nl_InterfaceByIndex N (LocalNodeIfaceID wire)))) (\<lambda>intf.
          check (case intf of
                   Inl err \<Rightarrow> ret None
                 | Inr intf \<Rightarrow>
                     bnd (on_host (ext (nl_RemoveVethLink N (node_veth (la_Name intf))))) (\<lambda>r. case r of
                       Some err \<Rightarrow> ret (Some (Wrap ''[WIRE-DELETE]:failed to remove veth link: '' err))
                     | None \<Rightarrow> ret None))
            (case intf of
               Inl err \<Rightarrow> halt (Panic ''nil pointer dereference'')
             | Inr intf \<Rightarrow>
                 bnd (on_host (ext (nl_RemoveVethLink N (node_veth (la_Name intf))))) (\<lambda>r. case r of
                   Some err \<Rightarrow> ret (Some (Wrap ''failed to remove veth link: '' err))
                 | None \<Rightarrow> bnd (with_state (DeleteWire wire)) (\<lambda>_. ret None))))))"

text \<open>The loop collects the errors of the wires it could not remove.\<close>

fun remove_wires_loop :: "'w netlib \<Rightarrow> GRPCWire list \<Rightarrow> error list \<Rightarrow> ('w \<times> wstate, error list) go" where
  "remove_wires_loop N [] errs = ret errs"
| "remove_wires_loop N (w # ws) errs =
     bnd (RemoveWire N (Some w)) (\<lambda>r. case r of
       Some err \<Rightarrow> remove_wires_loop N ws (errs @ [err])
     | None \<Rightarrow> remove_wires_loop N ws errs)"

text \<open>\<open>errlist\<close> stands for the package that joins a non-empty list of errors into one.\<close>

definition DeleteWiresByPod ::
  "'w netlib \<Rightarrow> (error list \<Rightarrow> error) \<Rightarrow> wire_order \<Rightarrow> string \<Rightarrow> string \<Rightarrow> ('w \<times> wstate, error option) go" where
  "DeleteWiresByPod N errlist order namespace podName =
     bnd (reads (\<lambda>(w, s). GetWiresByPod order namespace podName s)) (\<lambda>ws.
     if ws = [] then ret None
     else bnd (remove_wires_loop N ws []) (\<lambda>errs.
            if errs \<noteq> [] then
              ret (Some (Wrap (''[WIRE-DELETE]:failed to remove all grpc-wires for pod '' @ podName @ ''@''
                                 @ namespace @ '': '') (errlist errs)))
            else ret None))"

section \<open>Creating the local end of a wire\<close>

definition wire_addrs :: "pb_WireDef \<Rightarrow> error + ipnet list" where
  "wire_addrs wireDef =
     (if wd_local_pod_ip wireDef \<noteq> [] then
        (case ParseCIDR (wd_local_pod_ip wireDef) of
           Inl err \<Rightarrow> Inl (Wrap (''failed to create remote end of GRPC wire('' @ wd_intf_name_in_pod wireDef
             @ ''@'' @ wd_local_pod_name wireDef @ ''), failed to parse CIDR '' @ wd_local_pod_ip wireDef @ '': '') err)
         | Inr (ipAddr, subnetMask) \<Rightarrow> Inr [\<lparr> IP = ipAddr, Mask = subnetMask \<rparr>])
      else Inr [])"

definition remote_wire :: "pb_WireDef \<Rightarrow> string \<Rightarrow> int64 \<Rightarrow> nat \<Rightarrow> GRPCWire" where
  "remote_wire wireDef nodeIface index stopC =
     \<lparr> gw_UID = wd_link_uid wireDef,
       gw_Namespace = wd_kube_ns wireDef,
       LocalNodeIfaceID = index,
       LocalNodeIfaceName = nodeIface,
       LocalPodIP = wd_local_pod_ip wireDef,
       LocalPodName = wd_local_pod_name wireDef,
       LocalPodIfaceName = wd_intf_name_in_pod wireDef,
       LocalPodNetNS = wd_local_pod_net_ns wireDef,
       PeerIfaceID = wd_peer_intf_id wireDef,
       PeerNodeIP = wd_peer_ip wireDef,
       IsReady = True,
       Originator = PEER_CREATED_WIRE,
       OriginatorIP = wd_peer_ip wireDef,
       StopC = stopC \<rparr>"

definition create_remote_end :: "'w netlib \<Rightarrow> pb_WireDef \<Rightarrow> nat \<Rightarrow> string \<Rightarrow> ('w \<times> wstate, error + GRPCWire) go" where
  "create_remote_end N wireDef stopC outIfNm =
     bnd (on_host (ext (nl_GetCurrentNS N))) (\<lambda>r. case r of
       Inl err \<Rightarrow> ret (Inl (Wrap ''[ADD-WIRE:REMOTE-END] could not get current network namespace: '' err))
     | Inr currNs \<Rightarrow>
         let hostEndVeth = \<lparr> NsName = currNs, LinkName = outIfNm, IPAddr = [], HardwareAddr = [] \<rparr>
         in orelse (ret (wire_addrs wireDef)) (\<lambda>addrs.
              let inContainerVeth = \<lparr> NsName = wd_local_pod_net_ns wireDef,
                                      LinkName = wd_intf_name_in_pod wireDef,
                                      IPAddr = addrs, HardwareAddr = [] \<rparr>
              in bnd (on_host (ext (nl_MakeVeth N inContainerVeth hostEndVeth))) (\<lambda>r. case r of
                   Some err \<Rightarrow> ret (Inl err)
                 | None \<Rightarrow>
                     bnd (on_host (ext (nl_InterfaceByName N outIfNm))) (\<lambda>r. case r of
                       Inl err \<Rightarrow> halt (Fatal ''[ADD-WIRE:REMOTE-END] Could not get interface index'')
                     | Inr locIface \<Rightarrow>
                         let aWire = remote_wire wireDef outIfNm (la_Index locIface) stopC
                         in bnd (on_host (ext (nl_OpenLive N outIfNm))) (\<lambda>r. case r of
                              Inl err \<Rightarrow> halt (Fatal ''[ADD-WIRE:REMOTE-END] Could not open interface'')
                            | Inr wrHandle \<Rightarrow>
                                bnd (with_state (AddWire aWire wrHandle)) (\<lambda>_. ret (Inr aWire)))))))"

definition CreateGRPCWireRemoteTriggered ::
  "'w netlib \<Rightarrow> pb_WireDef \<Rightarrow> nat \<Rightarrow> ('w \<times> wstate, error + GRPCWire) go" where
  "CreateGRPCWireRemoteTriggered N wireDef stopC =
     bnd (reads (\<lambda>(w, s). GetWireByUID (wd_local_pod_net_ns wireDef) (wd_link_uid wireDef) s)) (\<lambda>grpcWire.
     if (case grpcWire of Some wire \<Rightarrow> IsReady wire | None \<Rightarrow> False) then ret (Inr (the grpcWire))
     else bnd (with_state (GenNodeIfaceName (wd_local_pod_name wireDef) (wd_intf_name_in_pod wireDef))) (\<lambda>r. case r of
       Inl err \<Rightarrow> ret (Inl (Wrap ''[ADD-WIRE:REMOTE-END] could not get current network namespace: '' err))
     | Inr outIfNm \<Rightarrow> create_remote_end N wireDef stopC outIfNm))"

section \<open>Handlers\<close>

text \<open>A response with its error; \<open>go f()\<close> is a receive thread started for the wire.\<close>

type_synonym bool_response = "bool \<times> error option"

definition start_thread :: "GRPCWire \<Rightarrow> wstate \<Rightarrow> unit \<times> wstate" where
  "start_thread wire s = ((), s\<lparr> threads := wire # threads s \<rparr>)"

definition RemGRPCWire ::
  "'w netlib \<Rightarrow> (error list \<Rightarrow> error) \<Rightarrow> wire_order \<Rightarrow> pb_WireDef \<Rightarrow> ('w \<times> wstate, bool_response) go" where
  "RemGRPCWire N errlist order wireDef =
     bnd (DeleteWiresByPod N errlist order (wd_kube_ns wireDef) (wd_local_pod_name wireDef)) (\<lambda>r. case r of
       Some err \<Rightarrow> ret (False, Some err)
     | None \<Rightarrow> ret (True, None))"

definition local_wire :: "pb_WireDef \<Rightarrow> int64 \<Rightarrow> nat \<Rightarrow> GRPCWire" where
  "local_wire wireDef index stopC =
     \<lparr> gw_UID = wd_link_uid wireDef,
       gw_Namespace = wd_kube_ns wireDef,
       LocalNodeIfaceID = index,
       LocalNodeIfaceName = wd_veth_name_local_host wireDef,
       LocalPodIP = wd_local_pod_ip wireDef,
       LocalPodName = wd_local_pod_name wireDef,
       LocalPodIfaceName = wd_intf_name_in_pod wireDef,
       LocalPodNetNS = wd_local_pod_net_ns wireDef,
       PeerIfaceID = wd_peer_intf_id wireDef,
       PeerNodeIP = wd_peer_ip wireDef,
       IsReady = False,
       Originator = HOST_CREATED_WIRE,
       OriginatorIP = ''unknown'',
       StopC = stopC \<rparr>"

definition AddGRPCWireLocal :: "'w netlib \<Rightarrow> pb_WireDef \<Rightarrow> ('w \<times> wstate, bool_response) go" where
  "AddGRPCWireLocal N wireDef =
     bnd (on_host (ext (nl_InterfaceByName N (wd_veth_name_local_host wireDef)))) (\<lambda>r. case r of
       Inl err \<Rightarrow> ret (False, Some err)
     | Inr locInf \<Rightarrow>
         bnd (on_host (ext (nl_OpenLive N (wd_veth_name_local_host wireDef)))) (\<lambda>r. case r of
           Inl err \<Rightarrow> halt (Fatal ''[ADD-WIRE:LOCAL-END]Could not open interface'')
         | Inr wrHandle \<Rightarrow>
             bnd (with_state make_chan) (\<lambda>stopC.
             let aWire = local_wire wireDef (la_Index locInf) stopC
             in bnd (with_state (AddWire aWire wrHandle)) (\<lambda>_.
                bnd (with_state (start_thread (aWire\<lparr> IsReady := True \<rparr>))) (\<lambda>_. ret (True, None))))))"

definition SendToOnce :: "'w netlib \<Rightarrow> pb_Packet \<Rightarrow> ('w \<times> wstate, bool_response) go" where
  "SendToOnce N pkt =
     bnd (reads (\<lambda>(w, s). GetHostIntfHndl (pkt_remot_intf_id pkt) s)) (\<lambda>r. case r of
       Inl err \<Rightarrow> ret (False, Some err)
     | Inr wrHandle \<Rightarrow>
         bnd (on_host (ext (nl_WritePacketData N wrHandle (pkt_frame pkt)))) (\<lambda>r. case r of
           Some err \<Rightarrow> ret (False, Some err)
         | None \<Rightarrow> ret (True, None)))"

definition AddGRPCWireRemote ::
  "'w netlib \<Rightarrow> pb_WireDef \<Rightarrow> ('w \<times> wstate, pb_WireCreateResponse \<times> error option) go" where
  "AddGRPCWireRemote N wireDef =
     bnd (with_state make_chan) (\<lambda>stopC.
     bnd (CreateGRPCWireRemoteTriggered N wireDef stopC) (\<lambda>r. case r of
       Inr wire \<Rightarrow>
         bnd (with_state (start_thread wire)) (\<lambda>_.
           ret (\<lparr> wcr_response = True, wcr_peer_intf_id = LocalNodeIfaceID wire \<rparr>, None))
     | Inl err \<Rightarrow> ret (\<lparr> wcr_response = False, wcr_peer_intf_id = wd_peer_intf_id wireDef \<rparr>, Some err)))"

definition GRPCWireExists :: "pb_WireDef \<Rightarrow> wstate \<Rightarrow> pb_WireCreateResponse" where
  "GRPCWireExists wireDef s =
     (case GetWireByUID (wd_local_pod_net_ns wireDef) (wd_link_uid wireDef) s of
        None \<Rightarrow> \<lparr> wcr_response = False, wcr_peer_intf_id = wd_peer_intf_id wireDef \<rparr>
      | Some wire \<Rightarrow> \<lparr> wcr_response = True, wcr_peer_intf_id = PeerIfaceID wire \<rparr>)"

text \<open>The response is the name, whose absence is an error.\<close>

definition GenerateNodeInterfaceName :: "string \<Rightarrow> string \<Rightarrow> wstate \<Rightarrow> (bool \<times> string) \<times> wstate" where
  "GenerateNodeInterfaceName podName podIntfName s =
     (case GenNodeIfaceName podName podIntfName s of
        (Inl err, s') \<Rightarrow> ((False, []), s')
      | (Inr locIfNm, s') \<Rightarrow> ((True, locIfNm), s'))"

section \<open>The table keeps what was written last\<close>

interpretation wt: registry "\<lambda>_. True" "\<lambda>(wire, handle). wire_key wire" fst wire_key empty_wireMap
  "\<lambda>(wire, handle). wireMap_Add wire handle" wireMap_Delete GetWire
  by unfold_locales
    (auto simp: empty_wireMap_def GetWire_def wireMap_Add_def wireMap_Delete_def update_conv' delete_conv')

definition wt_exec :: "(GRPCWire \<times> pcap_handle, GRPCWire) tableop \<Rightarrow> wireMap \<Rightarrow> wireMap" where
  "wt_exec x m = (case x of Put (wire, handle) \<Rightarrow> wireMap_Add wire handle m | Drop wire \<Rightarrow> wireMap_Delete wire m)"

lemma wt_exec_eq: "wt_exec = wt.exec"
  by (auto simp: wt_exec_def wt.exec_def fun_eq_iff split: tableop.splits)

text \<open>
  After any sequence of additions and deletions of wires, a lookup by network namespace and link UID
  returns what the last operation on that pair left.
\<close>

theorem wireMap_last_write:
  "GetWire k (fold wt_exec ops empty_wireMap) = last_write (\<lambda>(wire, handle). wire_key wire) fst wire_key k ops None"
  unfolding wt_exec_eq by (rule wt.get_exec_from_empty) (simp_all add: list_all_iff)

section \<open>Interface names are unique\<close>

lemma format_04d_digits: "0 \<le> sint i \<Longrightarrow> list_all is_digit (format_04d i)"
  by (simp add: format_04d_def pad_zero_digits)

lemma format_04d_inject: "0 \<le> sint i \<Longrightarrow> 0 \<le> sint j \<Longrightarrow> format_04d i = format_04d j \<Longrightarrow> i = j"
proof -
  assume i: "0 \<le> sint i" and j: "0 \<le> sint j" and eq: "format_04d i = format_04d j"
  have "dec_val (format_04d i) = dec_val (format_04d j)" using eq by simp
  then have "sint i = sint j" using i j by (simp add: format_04d_def)
  then show "i = j" by (simp add: signed_word_eqI)
qed

lemma digits_after_dash:
  assumes "list_all is_digit x" "list_all is_digit y" "a @ ''-'' @ x = b @ ''-'' @ y"
  shows "x = y"
proof -
  have tw: "takeWhile is_digit (rev (c @ ''-'' @ z)) = rev z" if "list_all is_digit z" for c z
    using that by (simp add: takeWhile_append list_all_iff is_digit_def)
  then have "rev x = rev y" using assms by metis
  then show ?thesis by simp
qed

lemma iface_name_inject:
  assumes "0 \<le> sint i" "0 \<le> sint j" "iface_name p q i = iface_name r s j"
  shows "i = j"
  using assms digits_after_dash [of "format_04d i" "format_04d j" "take 5 p @ take 5 q" "take 5 r @ take 5 s"]
  by (simp add: iface_name_def format_04d_digits format_04d_inject)

text \<open>The names generated for a sequence of requests.\<close>

fun generate :: "(string \<times> string) list \<Rightarrow> wstate \<Rightarrow> string list" where
  "generate [] s = []"
| "generate ((pod, iface) # rs) s =
     (case GenerateNodeInterfaceName pod iface s of ((_, name), s') \<Rightarrow> name # generate rs s')"

lemma generate_eq:
  "generate rs s = map (\<lambda>(n, (pod, iface)). iface_name pod iface (currId s + of_nat (Suc n))) (enumerate 0 rs)"
proof (induction rs arbitrary: s)
  case Nil
  then show ?case by simp
next
  case (Cons r rs)
  obtain pod iface where r: "r = (pod, iface)" by fastforce
  have "enumerate (Suc 0) rs = map (\<lambda>(n, x). (Suc n, x)) (enumerate 0 rs)"
    by (auto simp: enumerate_Suc_eq [of 0 rs])
  with r Cons show ?case
    by (simp add: GenerateNodeInterfaceName_def GenNodeIfaceName_def NextIndex_def Let_def case_prod_beta
        comp_def add.commute add.left_commute)
qed

lemma sint_of_nat_small: "n < 2 ^ 63 \<Longrightarrow> sint (of_nat n :: int64) = int n"
  by (simp add: signed_of_nat signed_take_bit_int_eq_self)

text \<open>
  C29: A process that has generated no name yet generates pairwise different interface names, whatever
  pods and interfaces they are for, up to \<open>2 ^ 63 - 1\<close> of them; the first 9999 of them have at most
  15 characters.
\<close>

theorem interface_names_unique:
  assumes "currId s = 0" and "length requests < 2 ^ 63"
  shows "distinct (generate requests s)
    \<and> (\<forall>n < length requests. n < 9999 \<longrightarrow> length (generate requests s ! n) \<le> 15)"
proof
  let ?f = "\<lambda>(n, (pod, iface)). iface_name pod iface (of_nat (Suc n))"
  have gen: "generate requests s = map ?f (enumerate 0 requests)"
    using generate_eq [of requests s] assms(1) by simp
  have "inj_on ?f (set (enumerate 0 requests))"
  proof (rule inj_onI)
    fix x y
    assume xy: "x \<in> set (enumerate 0 requests)" "y \<in> set (enumerate 0 requests)" "?f x = ?f y"
    have bound: "fst z < length requests \<and> snd z = requests ! fst z" if "z \<in> set (enumerate 0 requests)" for z
      using that by (auto simp: in_set_enumerate_eq)
    have "(of_nat (Suc (fst x)) :: int64) = of_nat (Suc (fst y))"
      using xy(3) bound [OF xy(1)] bound [OF xy(2)] assms(2)
      by (intro iface_name_inject) (auto simp: case_prod_beta sint_of_nat_small simp del: of_nat_Suc)
    then have "sint (of_nat (Suc (fst x)) :: int64) = sint (of_nat (Suc (fst y)) :: int64)" by simp
    then have "fst x = fst y"
      using bound [OF xy(1)] bound [OF xy(2)] assms(2) by (simp add: sint_of_nat_small del: of_nat_Suc)
    then show "x = y" using bound [OF xy(1)] bound [OF xy(2)] by (simp add: prod_eq_iff)
  qed
  then show "distinct (generate requests s)" by (simp add: gen distinct_map)
  have "length (iface_name p q (of_nat (Suc n))) \<le> 15" if "n < 9999" for n p q
  proof -
    have "length (nat_str (Suc n)) \<le> 4" using that by (intro nat_str_length_le) simp_all
    then show ?thesis
      using that by (simp add: iface_name_def format_04d_def sint_of_nat_small length_pad_zero del: of_nat_Suc)
  qed
  then show "\<forall>n < length requests. n < 9999 \<longrightarrow> length (generate requests s ! n) \<le> 15"
    by (simp add: gen nth_enumerate_eq case_prod_beta del: of_nat_Suc)
qed

section \<open>Invariant of the wire state\<close>

text \<open>
  Keys are unique, every wire is stored under its own key and marked ready, and stop channels exist.
\<close>

definition wires_ok :: "wstate \<Rightarrow> bool" where
  "wires_ok s \<longleftrightarrow>
     distinct (map fst (wires (wmap s)))
     \<and> (\<forall>(k, wire) \<in> set (wires (wmap s)). k = wire_key wire \<and> IsReady wire \<and> StopC wire < channels s)
     \<and> (\<forall>c \<in> closed s. c < channels s)"

definition inv_chan :: "nat \<Rightarrow> 'w \<times> wstate \<Rightarrow> bool" where
  "inv_chan c = (\<lambda>(w, s). wires_ok s \<and> c \<le> channels s)"

lemma preserves_on_host [go_rules]: "preserves (inv_chan c) (on_host (ext f))"
  by (auto simp: preserves_def on_host_ext inv_chan_def)

lemma preserves_with_state:
  "(\<And>s. wires_ok s \<Longrightarrow> c \<le> channels s \<Longrightarrow> wires_ok (snd (f s)) \<and> c \<le> channels (snd (f s))) \<Longrightarrow>
   preserves (inv_chan c) (with_state f)"
  by (auto simp: preserves_def with_state_run inv_chan_def)

lemma set_update_subset: "set (AList.update k v al) \<subseteq> insert (k, v) (set al)"
  by (induction al) auto

lemma AddWire_ok: "wires_ok s \<Longrightarrow> StopC wire < channels s \<Longrightarrow> wires_ok (snd (AddWire wire h s))"
  using set_update_subset [of "wire_key wire" "wire\<lparr> IsReady := True \<rparr>" "wires (wmap s)"]
  by (fastforce simp: wires_ok_def AddWire_def wireMap_Add_def Let_def wire_key_def distinct_update)

lemma DeleteWire_ok: "wires_ok s \<Longrightarrow> wires_ok (snd (DeleteWire wire s))"
  by (auto simp: wires_ok_def DeleteWire_def wireMap_Delete_def Let_def AList.delete_eq distinct_map_filter)

lemma other_updates_ok [simp]:
  "wires_ok (s\<lparr> currId := i \<rparr>) = wires_ok s" "wires_ok (s\<lparr> threads := ts \<rparr>) = wires_ok s"
  by (simp_all add: wires_ok_def)

lemma channels_keep [simp]:
  "channels (snd (AddWire wire h s)) = channels s" "channels (snd (DeleteWire wire s)) = channels s"
  "channels (snd (start_thread wire s)) = channels s" "channels (snd (GenNodeIfaceName p q s)) = channels s"
  by (simp_all add: AddWire_def DeleteWire_def start_thread_def GenNodeIfaceName_def NextIndex_def Let_def)

lemma GenNodeIfaceName_ok: "wires_ok s \<Longrightarrow> wires_ok (snd (GenNodeIfaceName p q s))"
  by (simp add: GenNodeIfaceName_def NextIndex_def Let_def)

lemma start_thread_ok: "wires_ok s \<Longrightarrow> wires_ok (snd (start_thread wire s))"
  by (simp add: start_thread_def)

lemma make_chan_ok: "wires_ok s \<Longrightarrow> wires_ok (snd (make_chan s)) \<and> fst (make_chan s) < channels (snd (make_chan s))"
  by (fastforce simp: wires_ok_def make_chan_def)

lemmas wire_steps = AddWire_ok DeleteWire_ok GenNodeIfaceName_ok start_thread_ok

lemma preserves_RemoveWire [go_rules]:
  assumes "StopC wire < c"
  shows "preserves (inv_chan c) (RemoveWire N (Some wire))"
proof -
  have "preserves (inv_chan c) (close_chan (StopC wire))"
    using assms by (auto simp: preserves_def close_chan_def inv_chan_def wires_ok_def)
  then show ?thesis
    unfolding RemoveWire_def
    by (auto intro!: go_rules preserves_with_state wire_steps split: sum.splits option.splits)
qed

lemma preserves_remove_wires_loop:
  "list_all (\<lambda>wire. StopC wire < c) ws \<Longrightarrow> preserves (inv_chan c) (remove_wires_loop N ws errs)"
  by (induction ws arbitrary: errs) (auto intro!: go_rules split: option.splits)

lemma preserves_create_remote_end:
  assumes "c < d"
  shows "preserves (inv_chan d) (create_remote_end N wireDef c name)"
  unfolding create_remote_end_def Let_def
  using assms by (auto intro!: go_rules preserves_with_state wire_steps simp: remote_wire_def
      split: sum.splits option.splits)

lemma preserves_CreateGRPCWire:
  assumes "c < d"
  shows "preserves (inv_chan d) (CreateGRPCWireRemoteTriggered N wireDef c)"
  unfolding CreateGRPCWireRemoteTriggered_def
  using assms by (auto intro!: go_rules preserves_with_state wire_steps preserves_create_remote_end
      split: sum.splits option.splits)

lemma inv_run: "preserves (inv_chan c) m \<Longrightarrow> wires_ok s \<Longrightarrow> c \<le> channels s \<Longrightarrow> wires_ok (snd (snd (m (w, s))))"
  by (cases "m (w, s)") (auto simp: inv_chan_def dest: preservesD)

lemma AddGRPCWireRemote_ok:
  assumes "wires_ok s"
  shows "wires_ok (snd (snd (AddGRPCWireRemote N wireDef (w, s))))"
proof -
  let ?c = "fst (make_chan s)" and ?s = "snd (make_chan s)"
  have s: "wires_ok ?s" "Suc ?c \<le> channels ?s" using make_chan_ok [OF assms] by auto
  have "preserves (inv_chan (Suc ?c)) (bnd (CreateGRPCWireRemoteTriggered N wireDef ?c) (\<lambda>r. case r of
       Inr wire \<Rightarrow>
         bnd (with_state (start_thread wire)) (\<lambda>_.
           ret (\<lparr> wcr_response = True, wcr_peer_intf_id = LocalNodeIfaceID wire \<rparr>, None))
     | Inl err \<Rightarrow> ret (\<lparr> wcr_response = False, wcr_peer_intf_id = wd_peer_intf_id wireDef \<rparr>, Some err)))"
    by (auto intro!: go_rules preserves_CreateGRPCWire preserves_with_state wire_steps split: sum.splits)
  from inv_run [OF this s] show ?thesis
    unfolding AddGRPCWireRemote_def bnd_with_state .
qed

lemma AddGRPCWireLocal_ok:
  assumes "wires_ok s"
  shows "wires_ok (snd (snd (AddGRPCWireLocal N wireDef (w, s))))"
  using assms make_chan_ok [OF assms]
  by (auto simp: AddGRPCWireLocal_def bnd_on_host bnd_with_state ret_run halt_run Let_def local_wire_def
      intro!: wire_steps split: sum.splits)

lemma bnd_bnd_reads: "bnd (bnd (reads g) f) k s = bnd (f (g s)) k s"
  by (simp add: bnd_def)

lemma RemGRPCWire_ok:
  assumes "\<And>xs. mset (order xs) = mset xs" "wires_ok s"
  shows "wires_ok (snd (snd (RemGRPCWire N errlist order wireDef (w, s))))"
proof -
  let ?ws = "GetWiresByPod order (wd_kube_ns wireDef) (wd_local_pod_name wireDef) s"
  have "set (order (wires (wmap s))) = set (wires (wmap s))" using assms(1) by (metis set_mset_mset)
  then have "list_all (\<lambda>wire. StopC wire < channels s) ?ws"
    using assms(2) by (fastforce simp: GetWiresByPod_def wires_ok_def list_all_iff)
  then have "preserves (inv_chan (channels s)) (bnd
      (if ?ws = [] then ret None
       else bnd (remove_wires_loop N ?ws []) (\<lambda>errs.
            if errs \<noteq> [] then
              ret (Some (Wrap (''[WIRE-DELETE]:failed to remove all grpc-wires for pod ''
                 @ wd_local_pod_name wireDef @ ''@'' @ wd_kube_ns wireDef @ '': '') (errlist errs)))
            else ret None))
      (\<lambda>r. case r of Some err \<Rightarrow> ret (False, Some err) | None \<Rightarrow> ret (True, None)))"
    by (auto intro!: go_rules preserves_remove_wires_loop split: option.splits)
  from inv_run [OF this assms(2) order_refl] show ?thesis
    by (simp only: RemGRPCWire_def DeleteWiresByPod_def bnd_bnd_reads prod.case)
qed

text \<open>One request served by the process, or a change of the host by others.\<close>

inductive wire_step :: "'w netlib \<Rightarrow> 'w \<times> wstate \<Rightarrow> 'w \<times> wstate \<Rightarrow> bool" for N where
  host: "wire_step N (w, s) (w', s)"
| add_local: "wire_step N st (snd (AddGRPCWireLocal N d st))"
| add_remote: "wire_step N st (snd (AddGRPCWireRemote N d st))"
| rem: "(\<And>xs. mset (order xs) = mset xs) \<Longrightarrow> wire_step N st (snd (RemGRPCWire N errlist order d st))"
| send: "wire_step N st (snd (SendToOnce N pkt st))"
| gen: "wire_step N (w, s) (w, snd (GenerateNodeInterfaceName p q s))"

definition initial_wires :: wstate where
  "initial_wires = \<lparr> currId = 0, wmap = empty_wireMap, channels = 0, closed = {}, threads = [] \<rparr>"

lemma initial_wires_ok: "wires_ok initial_wires"
  by (simp add: initial_wires_def wires_ok_def empty_wireMap_def)

lemma SendToOnce_state: "snd (snd (SendToOnce N pkt (w, s))) = s"
  by (simp add: SendToOnce_def bnd_reads bnd_on_host ret_run split: sum.splits option.splits)

lemma wire_step_ok: "wire_step N st st' \<Longrightarrow> wires_ok (snd st) \<Longrightarrow> wires_ok (snd st')"
proof (induction rule: wire_step.induct)
  case (add_local st d)
  then show ?case by (cases st) (simp add: AddGRPCWireLocal_ok)
next
  case (add_remote st d)
  then show ?case by (cases st) (simp add: AddGRPCWireRemote_ok)
next
  case (rem order st errlist d)
  then show ?case by (cases st) (simp add: RemGRPCWire_ok)
next
  case (send st pkt)
  then show ?case by (cases st) (simp add: SendToOnce_state)
next
  case (gen w s p q)
  then show ?case
    using GenNodeIfaceName_ok [of s p q]
    by (auto simp: GenerateNodeInterfaceName_def split: prod.splits sum.splits)
qed simp

text \<open>
  C27: In every state a daemon reaches, whatever requests it serves and whatever the host does, each wire
  is stored under the namespace and UID it carries, under one key only, and is ready.
\<close>

theorem reachable_wires_ok:
  assumes "(wire_step N)\<^sup>*\<^sup>* (w, initial_wires) (w', s)"
  shows "wires_ok s"
proof -
  have "wires_ok (snd (w', s))"
    using assms by (induction rule: rtranclp_induct) (auto simp: initial_wires_ok dest: wire_step_ok)
  then show ?thesis by simp
qed

section \<open>Removal\<close>

text \<open>An interface that was removed cannot be removed again.\<close>

definition removal_once :: "'w netlib \<Rightarrow> bool" where
  "removal_once N \<longleftrightarrow>
     (\<forall>v w w'. nl_RemoveVethLink N v w = (None, w') \<longrightarrow> fst (nl_RemoveVethLink N v w') \<noteq> None)"

lemma RemoveWire_fails:
  assumes "removal_once N" and "RemoveWire N (Some wire) (w, s) = (r, (w', s'))"
  shows "wmap s' = wmap s \<and>
    (if StopC wire \<in> closed s then r = Abort (Panic ''close of closed channel'')
     else case fst (nl_InterfaceByIndex N (LocalNodeIfaceID wire) w) of
            Inl _ \<Rightarrow> r = Abort (Panic ''nil pointer dereference'')
          | Inr _ \<Rightarrow> \<exists>e. r = Done (Some e))"
proof (cases "StopC wire \<in> closed s")
  case True
  with assms(2) show ?thesis by (auto simp: RemoveWire_def close_chan_def)
next
  case False
  let ?s = "s\<lparr> closed := insert (StopC wire) (closed s) \<rparr>"
  obtain i w1 where i: "nl_InterfaceByIndex N (LocalNodeIfaceID wire) w = (i, w1)" by fastforce
  show ?thesis
  proof (cases i)
    case (Inl e)
    with False assms(2) i show ?thesis
      by (auto simp: RemoveWire_def close_chan_def bnd_on_host halt_run)
  next
    case (Inr intf)
    let ?v = "node_veth (la_Name intf)"
    obtain a w2 where a: "nl_RemoveVethLink N ?v w1 = (a, w2)" by fastforce
    show ?thesis
    proof (cases a)
      case (Some e)
      with False assms(2) i Inr a show ?thesis
        by (auto simp: RemoveWire_def close_chan_def bnd_on_host ret_run check_def bnd_bnd)
    next
      case None
      with assms(1) a obtain e w3 where "nl_RemoveVethLink N ?v w2 = (Some e, w3)"
        unfolding removal_once_def by (metis fst_conv old.prod.exhaust option.exhaust)
      with None False assms(2) i Inr a show ?thesis
        by (auto simp: RemoveWire_def close_chan_def bnd_on_host ret_run check_def bnd_bnd)
    qed
  qed
qed

lemma remove_wires_loop_errors:
  assumes "removal_once N" "remove_wires_loop N ws errs (w, s) = (Done errs', st)"
  shows "length errs' = length errs + length ws"
  using assms(2)
proof (induction ws arbitrary: errs w s)
  case Nil
  then show ?case by (simp add: ret_run)
next
  case (Cons wire ws)
  obtain r w1 s1 where run: "RemoveWire N (Some wire) (w, s) = (r, (w1, s1))" by (metis prod.collapse)
  with RemoveWire_fails [OF assms(1) run] Cons.prems obtain e where "r = Done (Some e)"
    by (auto split: if_splits sum.splits)
  with run Cons.prems Cons.IH [of "errs @ [e]" w1 s1] show ?case by simp
qed

text \<open>So the removal of a pod's wires succeeds only if there are none.\<close>

lemma RemGRPCWire_fails:
  assumes "removal_once N" "GetWiresByPod order (wd_kube_ns d) (wd_local_pod_name d) s \<noteq> []"
    and "RemGRPCWire N errlist order d (w, s) = (r, st)"
  shows "(\<exists>e. r = Done (False, Some e)) \<or> (\<exists>x. r = Abort x)"
proof -
  let ?ws = "GetWiresByPod order (wd_kube_ns d) (wd_local_pod_name d) s"
  obtain r1 st1 where run: "remove_wires_loop N ?ws [] (w, s) = (r1, st1)" by (metis prod.collapse)
  show ?thesis
  proof (cases r1)
    case (Done errs)
    with remove_wires_loop_errors [OF assms(1), of ?ws "[]" w s errs st1] run assms(2) have "errs \<noteq> []" by auto
    with Done run assms(2,3) show ?thesis
      by (auto simp: RemGRPCWire_def DeleteWiresByPod_def bnd_bnd bnd_reads ret_run)
  next
    case (Abort x)
    with run assms(2,3) show ?thesis
      by (auto simp: RemGRPCWire_def DeleteWiresByPod_def bnd_bnd bnd_reads)
  qed
qed

text \<open>
  C30: On a host where a removed interface cannot be removed again, \<open>RemoveWire\<close> never succeeds on a
  wire and never takes it out of the table. If the wire's channel was closed before, it panics at
  once; if not and the host does not find the interface of the wire, it panics when it reads the name
  of that interface; if the host finds it, it returns an error.
\<close>

theorem RemoveWire_never_succeeds:
  assumes "removal_once N" and "RemoveWire N (Some wire) (w, s) = (r, (w', s'))"
  shows "wmap s' = wmap s \<and>
    (if StopC wire \<in> closed s then r = Abort (Panic ''close of closed channel'')
     else case fst (nl_InterfaceByIndex N (LocalNodeIfaceID wire) w) of
            Inl _ \<Rightarrow> r = Abort (Panic ''nil pointer dereference'')
          | Inr _ \<Rightarrow> \<exists>e. r = Done (Some e))"
  using assms by (rule RemoveWire_fails)

lemma RemoveWire_twice_panics:
  assumes "StopC wire \<in> closed s"
  shows "RemoveWire N (Some wire) (w, s) = (Abort (Panic ''close of closed channel''), (w, s))"
  using assms by (simp add: RemoveWire_def close_chan_def)

section \<open>Creation and delivery\<close>

text \<open>
  C31: If a ready wire exists for the namespace and UID, \<open>AddGRPCWireRemote\<close> reports success with its
  interface and leaves the table as it is, but starts a further receive thread for that wire.
\<close>

theorem AddGRPCWireRemote_existing:
  assumes "GetWireByUID (wd_local_pod_net_ns wireDef) (wd_link_uid wireDef) s = Some wire" and "IsReady wire"
  shows "AddGRPCWireRemote N wireDef (w, s) =
    (Done (\<lparr> wcr_response = True, wcr_peer_intf_id = LocalNodeIfaceID wire \<rparr>, None),
     (w, s\<lparr> channels := channels s + 1, threads := wire # threads s \<rparr>))"
  using assms
  by (simp add: AddGRPCWireRemote_def CreateGRPCWireRemoteTriggered_def bnd_bnd bnd_with_state bnd_reads
      make_chan_def GetWireByUID_def start_thread_def ret_run)

lemma create_remote_end_result:
  assumes "create_remote_end N wireDef c name (w, s) = (Done (Inr wire), (w', s'))"
  shows "\<exists>h i w1. nl_OpenLive N name w1 = (Inr h, w') \<and> wire = remote_wire wireDef name i c
    \<and> s' = snd (AddWire wire h s)"
  using assms
  by (auto simp: create_remote_end_def bnd_on_host bnd_with_state orelse_def ret_run halt_run Let_def
      split: sum.splits option.splits) (metis prod.collapse fst_conv snd_conv)+

lemma AddGRPCWireRemote_new:
  assumes "\<not> (\<exists>wire. GetWireByUID (wd_local_pod_net_ns wireDef) (wd_link_uid wireDef) s = Some wire \<and> IsReady wire)"
    and "AddGRPCWireRemote N wireDef (w, s) = (Done (resp, None), (w', s'))"
  obtains h i name where
    "wmap s' = wireMap_Add (remote_wire wireDef name i (channels s)) h (wmap s)"
    "resp = \<lparr> wcr_response = True, wcr_peer_intf_id = i \<rparr>"
proof -
  let ?s = "snd (make_chan s)"
  let ?g = "GenNodeIfaceName (wd_local_pod_name wireDef) (wd_intf_name_in_pod wireDef) ?s"
  obtain name s1 where g: "?g = (Inr name, s1)" and s1: "wmap s1 = wmap s"
    by (simp add: GenNodeIfaceName_def NextIndex_def Let_def make_chan_def)
  have no: "(case GetWireByUID (wd_local_pod_net_ns wireDef) (wd_link_uid wireDef) ?s of
      Some wire \<Rightarrow> IsReady wire | None \<Rightarrow> False) = False"
    using assms(1) by (auto simp: GetWireByUID_def make_chan_def split: option.splits)
  have "bnd (create_remote_end N wireDef (channels s) name) (\<lambda>r. case r of
       Inr wire \<Rightarrow>
         bnd (with_state (start_thread wire)) (\<lambda>_.
           ret (\<lparr> wcr_response = True, wcr_peer_intf_id = LocalNodeIfaceID wire \<rparr>, None))
     | Inl err \<Rightarrow> ret (\<lparr> wcr_response = False, wcr_peer_intf_id = wd_peer_intf_id wireDef \<rparr>, Some err))
     (w, s1) = (Done (resp, None), (w', s'))"
    using assms(2) g no
    by (simp add: AddGRPCWireRemote_def CreateGRPCWireRemoteTriggered_def bnd_bnd bnd_with_state bnd_reads)
      (simp add: make_chan_def)
  then obtain wire w1 s2 where c: "create_remote_end N wireDef (channels s) name (w, s1) = (Done (Inr wire), (w1, s2))"
    and s': "s' = snd (start_thread wire s2)" and resp: "resp = \<lparr> wcr_response = True, wcr_peer_intf_id = LocalNodeIfaceID wire \<rparr>"
    by (auto simp: ret_run bnd_with_state split: sum.splits elim!: bnd_cases)
  obtain h i where "wire = remote_wire wireDef name i (channels s)" "s2 = snd (AddWire wire h s1)"
    using create_remote_end_result [OF c] by blast
  then show ?thesis
    using that [of name i h] s' resp s1
    by (simp add: AddWire_def start_thread_def remote_wire_def Let_def)
qed

text \<open>
  C28: After \<open>AddGRPCWireRemote\<close> created a wire, \<open>GRPCWireExists\<close> finds it with the peer's interface,
  and a packet addressed to the interface it returned is written to one packet handle; \<open>SendToOnce\<close>
  reports exactly whether that write succeeded.
\<close>

theorem created_wire_delivers:
  assumes "\<not> (\<exists>wire. GetWireByUID (wd_local_pod_net_ns wireDef) (wd_link_uid wireDef) s = Some wire \<and> IsReady wire)"
    and "AddGRPCWireRemote N wireDef (w, s) = (Done (resp, None), (w', s'))"
  shows "GRPCWireExists wireDef s' = \<lparr> wcr_response = True, wcr_peer_intf_id = wd_peer_intf_id wireDef \<rparr>
    \<and> (\<exists>h. \<forall>frame w1.
         SendToOnce N \<lparr> pkt_remot_intf_id = wcr_peer_intf_id resp, pkt_frame = frame \<rparr> (w1, s') =
           (case nl_WritePacketData N h frame w1 of
              (None, w2) \<Rightarrow> (Done (True, None), (w2, s'))
            | (Some e, w2) \<Rightarrow> (Done (False, Some e), (w2, s'))))"
proof -
  obtain h i name where m: "wmap s' = wireMap_Add (remote_wire wireDef name i (channels s)) h (wmap s)"
    and resp: "resp = \<lparr> wcr_response = True, wcr_peer_intf_id = i \<rparr>"
    using AddGRPCWireRemote_new [OF assms] by metis
  have "GetHandle i (wmap s') = Some h"
    by (simp add: m GetHandle_def wireMap_Add_def remote_wire_def)
  then have "SendToOnce N \<lparr> pkt_remot_intf_id = wcr_peer_intf_id resp, pkt_frame = frame \<rparr> (w1, s') =
           (case nl_WritePacketData N h frame w1 of
              (None, w2) \<Rightarrow> (Done (True, None), (w2, s'))
            | (Some e, w2) \<Rightarrow> (Done (False, Some e), (w2, s')))" for frame w1
    by (simp add: resp SendToOnce_def GetHostIntfHndl_def bnd_reads bnd_on_host ret_run
        split: option.splits prod.splits)
  moreover have "GRPCWireExists wireDef s' = \<lparr> wcr_response = True, wcr_peer_intf_id = wd_peer_intf_id wireDef \<rparr>"
    by (simp add: GRPCWireExists_def GetWireByUID_def GetWire_def m wireMap_Add_def update_conv' wire_key_def
        remote_wire_def)
  ultimately show ?thesis by blast
qed

section \<open>Witnesses\<close>

definition demo_wire_def :: pb_WireDef where
  "demo_wire_def =
     \<lparr> wd_peer_intf_id = 12, wd_peer_ip = ''10.0.0.2'', wd_intf_name_in_pod = ''eth1'',
       wd_local_pod_net_ns = ''/run/netns/a'', wd_link_uid = 1, wd_local_pod_name = ''r1'',
       wd_veth_name_local_host = [], wd_kube_ns = ''default'', wd_local_pod_ip = [] \<rparr>"

lemma demo_add_remote:
  "\<exists>resp s. AddGRPCWireRemote quiet_host demo_wire_def ((), initial_wires) = (Done (resp, None), ((), s))
     \<and> GetWireByUID ''/run/netns/a'' 1 s = Some (remote_wire demo_wire_def (iface_name ''r1'' ''eth1'' 1) 7 0)"
  by (simp add: AddGRPCWireRemote_def CreateGRPCWireRemoteTriggered_def create_remote_end_def bnd_bnd
      bnd_with_state bnd_reads bnd_on_host make_chan_def GetWireByUID_def GetWire_def initial_wires_def
      empty_wireMap_def demo_wire_def_def GenNodeIfaceName_def NextIndex_def wire_addrs_def quiet_host_def
      Let_def AddWire_def wireMap_Add_def remote_wire_def wire_key_def start_thread_def ret_run demo_link_def)

theorem interface_names_unique_witness:
  "distinct (generate [(''r1'', ''eth1''), (''r2'', ''eth1''), (''r1'', ''eth1'')] initial_wires)"
  using interface_names_unique [of initial_wires "[(''r1'', ''eth1''), (''r2'', ''eth1''), (''r1'', ''eth1'')]"]
  by (simp add: initial_wires_def)

theorem reachable_wires_ok_witness:
  "\<exists>s. (wire_step quiet_host)\<^sup>*\<^sup>* ((), initial_wires) ((), s) \<and> wires_ok s
     \<and> GetWireByUID ''/run/netns/a'' 1 s \<noteq> None"
proof -
  obtain resp s where run: "AddGRPCWireRemote quiet_host demo_wire_def ((), initial_wires) = (Done (resp, None), ((), s))"
    and wire: "GetWireByUID ''/run/netns/a'' 1 s \<noteq> None"
    using demo_add_remote by force
  have "wire_step quiet_host ((), initial_wires) ((), s)"
    using wire_step.add_remote [of quiet_host "((), initial_wires)" demo_wire_def] run by simp
  then have "(wire_step quiet_host)\<^sup>*\<^sup>* ((), initial_wires) ((), s)" by simp
  with reachable_wires_ok [OF this] wire show ?thesis by blast
qed

text \<open>A host whose world is the set of names of its interfaces.\<close>

definition names_host :: "string set netlib" where
  "names_host = quiet_host
     \<lparr> nl_RemoveVethLink := (\<lambda>v w. if LinkName v \<in> w then (None, w - {LinkName v})
                                  else (Some (ExtError ''Link not found''), w)) \<rparr>"

definition demo_wire :: GRPCWire where
  "demo_wire = remote_wire demo_wire_def ''r1eth1-0001'' 7 0"

theorem RemoveWire_never_succeeds_witness:
  "\<exists>e w s. RemoveWire names_host (Some demo_wire) ({''eth1''}, snd (AddWire demo_wire 1 initial_wires)) = (Done (Some e), (w, s))
     \<and> wmap s = wmap (snd (AddWire demo_wire 1 initial_wires)) \<and> w = {}"
proof -
  let ?s = "snd (AddWire demo_wire 1 initial_wires)"
  have law: "removal_once names_host" by (auto simp: removal_once_def names_host_def)
  obtain r w s where run: "RemoveWire names_host (Some demo_wire) ({''eth1''}, ?s) = (r, (w, s))"
    by (metis prod.collapse)
  have closed: "StopC demo_wire \<notin> closed ?s" by (simp add: AddWire_def initial_wires_def split: prod.splits)
  have found: "nl_InterfaceByIndex names_host i u = (Inr (attrs demo_link), u)" for i u
    by (simp add: names_host_def quiet_host_def)
  have "w = {}"
    using run closed
    by (simp add: RemoveWire_def close_chan_def bnd_on_host ret_run check_def bnd_bnd found)
      (simp add: names_host_def node_veth_def demo_link_def bnd_on_host ret_run)
  with RemoveWire_never_succeeds [OF law run] run closed found show ?thesis by auto
qed

theorem AddGRPCWireRemote_existing_witness:
  "\<exists>s. GetWireByUID ''/run/netns/a'' 1 s \<noteq> None
     \<and> length (threads (snd (snd (AddGRPCWireRemote (quiet_host :: unit netlib) demo_wire_def ((), s))))) = length (threads s) + 1"
proof -
  obtain s where wire: "GetWireByUID ''/run/netns/a'' 1 s = Some (remote_wire demo_wire_def (iface_name ''r1'' ''eth1'' 1) 7 0)"
    using demo_add_remote by blast
  have "AddGRPCWireRemote (quiet_host :: unit netlib) demo_wire_def ((), s) =
    (Done (\<lparr> wcr_response = True, wcr_peer_intf_id = LocalNodeIfaceID (remote_wire demo_wire_def (iface_name ''r1'' ''eth1'' 1) 7 0) \<rparr>, None),
     ((), s\<lparr> channels := channels s + 1, threads := remote_wire demo_wire_def (iface_name ''r1'' ''eth1'' 1) 7 0 # threads s \<rparr>))"
    by (rule AddGRPCWireRemote_existing) (use wire in \<open>simp_all add: demo_wire_def_def remote_wire_def\<close>)
  with wire show ?thesis by (intro exI [of _ s]) simp
qed

theorem created_wire_delivers_witness:
  "\<exists>resp s h. AddGRPCWireRemote quiet_host demo_wire_def ((), initial_wires) = (Done (resp, None), ((), s))
     \<and> GRPCWireExists demo_wire_def s = \<lparr> wcr_response = True, wcr_peer_intf_id = 12 \<rparr>
     \<and> SendToOnce quiet_host \<lparr> pkt_remot_intf_id = wcr_peer_intf_id resp, pkt_frame = [1, 2] \<rparr> ((), s)
         = (Done (True, None), ((), s))"
proof -
  obtain resp s where run: "AddGRPCWireRemote quiet_host demo_wire_def ((), initial_wires) = (Done (resp, None), ((), s))"
    using demo_add_remote by blast
  have "\<not> (\<exists>wire. GetWireByUID (wd_local_pod_net_ns demo_wire_def) (wd_link_uid demo_wire_def) initial_wires
      = Some wire \<and> IsReady wire)"
    by (simp add: GetWireByUID_def GetWire_def initial_wires_def empty_wireMap_def)
  from created_wire_delivers [OF this run] run show ?thesis
    by (auto simp: quiet_host_def demo_wire_def_def)
qed

end
