(* ===== verification/Frames.thy ===== *)
theory Frames
  imports GrpcWire Utils
begin

text \<open>
  The second half of \<open>daemon/grpcwire/grpcwire.go\<close>: the thread that forwards the packets of a pod to the
  other end of a wire, and the functions that describe a frame for the log.

  \<open>'p gopacket\<close> holds the dissector (package \<open>gopacket\<close>): \<open>NewPacket\<close> and, for each type of layer the
  code asks for, the first such layer of a packet. A layer is a record of the fields that are read.
  \<open>None\<close> as the result of a decoder means that it does not return; \<open>Some (Abort x)\<close> is a panic.
\<close>

section \<open>Addresses as text\<close>

fun hex_str :: "nat \<Rightarrow> string" where
  "hex_str n =
     (let c = char_of (if n mod 16 < 10 then 48 + n mod 16 else 87 + n mod 16)
      in if n < 16 then [c] else hex_str (n div 16) @ [c])"

declare hex_str.simps [simp del]

fun ip_groups :: "ip \<Rightarrow> nat list" where
  "ip_groups (a # b # bs) = (unat a * 256 + unat b) # ip_groups bs"
| "ip_groups _ = []"

text \<open>The first of the longest runs of zero groups: where it starts and how long it is.\<close>

definition zero_run :: "nat list \<Rightarrow> nat \<times> nat" where
  "zero_run gs =
     foldl (\<lambda>(e, n) i. let r = length (takeWhile (\<lambda>g. g = 0) (drop i gs)) in if r > n then (i, r) else (e, n))
       (0, 0) [0..<length gs]"

definition hex_byte :: "byte \<Rightarrow> string" where
  "hex_byte b = pad_zero 2 (hex_str (unat b))"

text \<open>\<open>net.IP.String\<close>\<close>

definition IP_String :: "ip \<Rightarrow> string" where
  "IP_String a =
     (if a = [] then ''<nil>''
      else if length a = 4 then join_with ''.'' (map (\<lambda>b. nat_str (unat b)) a)
      else if is_v4_mapped a then join_with ''.'' (map (\<lambda>b. nat_str (unat b)) (drop 12 a))
      else if length a \<noteq> 16 then ''?'' @ concat (map hex_byte a)
      else (case zero_run (ip_groups a) of (e, n) \<Rightarrow>
        if n \<le> 1 then join_with '':'' (map hex_str (ip_groups a))
        else join_with '':'' (map hex_str (take e (ip_groups a))) @ ''::''
               @ join_with '':'' (map hex_str (drop (e + n) (ip_groups a)))))"

section \<open>The dissector\<close>

type_synonym uint16 = "16 word"

datatype layer_type =
    LayerTypeZero | LayerTypeEthernet | LayerTypeIPv4 | LayerTypeIPv6 | LayerTypeLLC | LayerTypeARP
  | LayerTypeDot1Q | LayerTypeOther nat

record Ethernet =
  eth_NextLayerType :: layer_type
  eth_Length :: uint16

record LLC =
  DSAP :: byte
  SSAP :: byte
  Control :: uint16
  llc_Payload :: "byte list"

record Dot1Q =
  vlan_NextLayerType :: layer_type
  vlan_Type :: uint16
  vlan_Payload :: "byte list"

text \<open>IPv4 and IPv6 headers; \<open>Protocol\<close> is \<open>NextHeader\<close> for the latter.\<close>

record IPLayer =
  ip_Length :: uint16
  ip_SrcIP :: ip
  ip_DstIP :: ip
  ip_Protocol :: byte

record 'p gopacket =
  NewPacket :: "byte list \<Rightarrow> layer_type \<Rightarrow> 'p"
  layer_Ethernet :: "'p \<Rightarrow> Ethernet option"
  layer_LLC :: "'p \<Rightarrow> LLC option"
  layer_Dot1Q :: "'p \<Rightarrow> Dot1Q option"
  layer_IPv4 :: "'p \<Rightarrow> IPLayer option"
  layer_IPv6 :: "'p \<Rightarrow> IPLayer option"
  layer_TCP_DstPort :: "'p \<Rightarrow> uint16 option"

section \<open>Describing a packet\<close>

definition addresses :: "IPLayer \<Rightarrow> string" where
  "addresses p = ''[s:'' @ IP_String (ip_SrcIP p) @ '', d:'' @ IP_String (ip_DstIP p) @ '']''"

definition decodeIPv4Pkt :: "'p gopacket \<Rightarrow> 'p \<Rightarrow> nat \<times> string" where
  "decodeIPv4Pkt G packet =
     (case layer_IPv4 G packet of
        None \<Rightarrow> (0, '':IPv4'')
      | Some p \<Rightarrow> (unat (ip_Length p), '':IPv4'' @ addresses p @
          (if ip_Protocol p = 1 then '':ICMP''
           else if ip_Protocol p = 6 then '':TCP'' @
             (case layer_TCP_DstPort G packet of
                None \<Rightarrow> []
              | Some port \<Rightarrow> if port = 179 then '':BGP'' else '':[Port:'' @ nat_str (unat port) @ '']'')
           else '':IPv4 with protocol : '' @ nat_str (unat (ip_Protocol p)))))"

definition decodeIPv6Pkt :: "'p gopacket \<Rightarrow> 'p \<Rightarrow> nat \<times> string" where
  "decodeIPv6Pkt G packet =
     (case layer_IPv6 G packet of
        None \<Rightarrow> (0, '':IPv6'')
      | Some p \<Rightarrow> (unat (ip_Length p), '':IPv6'' @ addresses p @
          (if ip_Protocol p = 58 then '':ICMPv6''
           else if ip_Protocol p = 6 then '':TCP'' @
             (case layer_TCP_DstPort G packet of
                None \<Rightarrow> []
              | Some port \<Rightarrow> if port = 179 then '':BGP'' else ''[Port:'' @ nat_str (unat port) @ '']'')
           else '':IPv6 with protocol : '' @ nat_str (unat (ip_Protocol p)))))"

definition index_panic :: abort where
  "index_panic = Panic ''index out of range''"

definition decode_llc :: "'p gopacket \<Rightarrow> 'p \<Rightarrow> uint16 \<Rightarrow> (nat \<times> string) out" where
  "decode_llc G packet len =
     (case layer_LLC G packet of
        None \<Rightarrow> Done (unat len, [])
      | Some llc \<Rightarrow>
          if DSAP llc = 0xFE \<and> SSAP llc = 0xFE \<and> Control llc = 0x3 then
            (case llc_Payload llc of
               [] \<Rightarrow> Abort index_panic
             | b # _ \<Rightarrow> Done (unat len, if b = 0x83 then '':LLC:ISIS'' else '':LLC''))
          else Done (unat len, '':LLC''))"

text \<open>\<open>p[0] == 0xFE && p[1] == 0xFE && p[2] == 0x03\<close>, left to right; \<open>None\<close> is an index out of range.\<close>

definition known_llc :: "byte list \<Rightarrow> bool option" where
  "known_llc p =
     (case p of
        [] \<Rightarrow> None
      | a # p1 \<Rightarrow> if a \<noteq> 0xFE then Some False else (case p1 of
          [] \<Rightarrow> None
        | b # p2 \<Rightarrow> if b \<noteq> 0xFE then Some False else (case p2 of
            [] \<Rightarrow> None
          | c # _ \<Rightarrow> Some (c = 0x03))))"

text \<open>The description of what a VLAN header contains.\<close>

definition in_vlan :: "(nat \<times> string) out \<Rightarrow> (nat \<times> string) out" where
  "in_vlan r = (case r of Done (n, s) \<Rightarrow> Done (n + 4, '':VLAN'' @ s) | Abort x \<Rightarrow> Abort x)"

partial_function (option) DecodePkt ::
  "'p gopacket \<Rightarrow> 'p \<Rightarrow> layer_type \<Rightarrow> uint16 \<Rightarrow> (nat \<times> string) out option" where
  "DecodePkt G packet layerType len =
     (if layerType = LayerTypeIPv4 then Some (Done (decodeIPv4Pkt G packet))
      else if layerType = LayerTypeIPv6 then Some (Done (decodeIPv6Pkt G packet))
      else if layerType = LayerTypeLLC then Some (decode_llc G packet len)
      else if layerType = LayerTypeARP then Some (Done (28, '':ARP''))
      else if layerType = LayerTypeDot1Q then
        (case layer_Dot1Q G packet of
           None \<Rightarrow> Some (Done (0, '':VLAN:No VLAN Hdr''))
         | Some vlan \<Rightarrow>
             if vlan_NextLayerType vlan = LayerTypeZero then
               (case known_llc (vlan_Payload vlan) of
                  None \<Rightarrow> Some (Abort index_panic)
                | Some known \<Rightarrow>
                    if known then
                      Option.bind (DecodePkt G (NewPacket G (vlan_Payload vlan) LayerTypeLLC) LayerTypeLLC (vlan_Type vlan))
                        (\<lambda>r. Some (in_vlan r))
                    else Some (Done (0, '':VLAN'')))
             else
               Option.bind (DecodePkt G (NewPacket G (vlan_Payload vlan) (vlan_NextLayerType vlan)) (vlan_NextLayerType vlan) 0)
                 (\<lambda>r. Some (in_vlan r)))
      else Some (Done (0, [])))"

section \<open>Describing a frame\<close>

text \<open>
  The loop of \<open>DecodeFrame\<close>. \<open>decoded\<close> counts the bytes described since the first packet, and the rest of
  the frame is cut at that index, although the frame was already cut before.
\<close>

partial_function (option) frame_loop ::
  "'p gopacket \<Rightarrow> nat \<Rightarrow> byte list \<Rightarrow> nat \<Rightarrow> nat \<Rightarrow> string \<Rightarrow> (nat \<times> string) out option" where
  "frame_loop G totalLen frame numPkts decoded str =
     (case layer_Ethernet G (NewPacket G frame LayerTypeEthernet) of
        None \<Rightarrow> Some (Done (numPkts, str))
      | Some e \<Rightarrow>
          Option.bind (DecodePkt G (NewPacket G frame LayerTypeEthernet) (eth_NextLayerType e) (eth_Length e)) (\<lambda>r.
          case r of
            Abort x \<Rightarrow> Some (Abort x)
          | Done (decodedLen, typeStr) \<Rightarrow>
              (let str' = str @ ''Pkt no '' @ nat_str numPkts @ '': '' @ ''Ethernet'' @ typeStr;
                   decoded' = decoded + (14 + decodedLen)
               in if decoded' + 14 \<le> totalLen then
                    (if length frame < decoded' then Some (Abort (Panic ''slice bounds out of range''))
                     else frame_loop G totalLen (drop decoded' frame) (numPkts + 1) decoded'
                            (str' @ [CHR 0x0A] @ ''            ''))
                  else Some (Done (numPkts, str')))))"

definition DecodeFrame :: "'p gopacket \<Rightarrow> byte list \<Rightarrow> string out option" where
  "DecodeFrame G frame =
     Option.bind (frame_loop G (length frame) frame 1 0 []) (\<lambda>r. Some (case r of
       Abort x \<Rightarrow> Abort x
     | Done (numPkts, s) \<Rightarrow> Done (if numPkts > 1 then ''Multi Pkts: '' @ s else s)))"

section \<open>Forwarding\<close>

text \<open>
  What the thread uses besides the dissector: the capture of the interface, and the connection to the
  peer. \<open>selected\<close> is what \<open>select\<close> chose next: the wire was stopped, a packet was captured, or the
  channel of captured packets was closed, which yields a nil packet.
\<close>

record 'w capture =
  cap_OpenLive :: "string \<Rightarrow> 'w \<Rightarrow> error option \<times> 'w"
  cap_SetDirection :: "string \<Rightarrow> 'w \<Rightarrow> error option \<times> 'w"
  cap_Dial :: "string \<Rightarrow> 'w \<Rightarrow> error option \<times> 'w"
  cap_SendToOnce :: "pb_Packet \<Rightarrow> 'w \<Rightarrow> (error + bool) \<times> 'w"

datatype selected = Stopped | Captured "byte list" | Closed

definition note_large :: "'p gopacket \<Rightarrow> byte list \<Rightarrow> ('w, unit) go" where
  "note_large G data =
     (if length data > 1518 then
        (case DecodeFrame G data of
           None \<Rightarrow> halt Blocked
         | Some (Abort x) \<Rightarrow> halt x
         | Some (Done pktType) \<Rightarrow> ret ())
      else ret ())"

fun recv_loop :: "'p gopacket \<Rightarrow> 'w capture \<Rightarrow> GRPCWire \<Rightarrow> selected list \<Rightarrow> ('w, error) go" where
  "recv_loop G C wire [] = halt Blocked"
| "recv_loop G C wire (Stopped # xs) = ret (ExtError ''EOF'')"
| "recv_loop G C wire (Closed # xs) = halt (Panic ''nil pointer dereference'')"
| "recv_loop G C wire (Captured data # xs) =
     bnd (note_large G data) (\<lambda>_.
     bnd (ext (cap_SendToOnce C \<lparr> pkt_remot_intf_id = PeerIfaceID wire, pkt_frame = data \<rparr>)) (\<lambda>_.
     recv_loop G C wire xs))"

definition RecvFrmLocalPodThread ::
  "'p gopacket \<Rightarrow> 'w capture \<Rightarrow> GRPCWire \<Rightarrow> selected list \<Rightarrow> ('w, error) go" where
  "RecvFrmLocalPodThread G C wire xs =
     (let url = TrimSpace (daemon_url (PeerNodeIP wire))
      in bnd (ext (cap_OpenLive C (LocalNodeIfaceName wire))) (\<lambda>r. case r of
           Some err \<Rightarrow> halt (Fatal ''Receive Thread for local pod failed to open interface'')
         | None \<Rightarrow>
             bnd (ext (cap_SetDirection C (LocalNodeIfaceName wire))) (\<lambda>r. case r of
               Some err \<Rightarrow> halt (Fatal ''Receive Thread for local pod failed to set up capture direction'')
             | None \<Rightarrow>
                 bnd (ext (cap_Dial C url)) (\<lambda>r. case r of
                   Some err \<Rightarrow> ret err
                 | None \<Rightarrow> recv_loop G C wire xs))))"

section \<open>The description of a frame ends\<close>

text \<open>What the package documents: the payload of a VLAN layer is the packet without its header.\<close>

definition payload_shorter :: "'p gopacket \<Rightarrow> bool" where
  "payload_shorter G \<longleftrightarrow>
     (\<forall>data t vlan. layer_Dot1Q G (NewPacket G data t) = Some vlan \<longrightarrow> length (vlan_Payload vlan) < length data)"

lemma DecodePkt_returns:
  assumes "payload_shorter G"
  shows "\<exists>r. DecodePkt G (NewPacket G data t) layerType len = Some r"
proof (induction "length data" arbitrary: data t layerType len rule: less_induct)
  case less
  show ?case
  proof (cases "layer_Dot1Q G (NewPacket G data t)")
    case None
    then show ?thesis by (subst DecodePkt.simps) simp
  next
    case (Some vlan)
    let ?lt = "vlan_NextLayerType vlan"
    have small: "length (vlan_Payload vlan) < length data"
      using Some assms by (simp add: payload_shorter_def)
    obtain r1 where "DecodePkt G (NewPacket G (vlan_Payload vlan) LayerTypeLLC) LayerTypeLLC (vlan_Type vlan) = Some r1"
      using less [OF small] by blast
    moreover obtain r2 where "DecodePkt G (NewPacket G (vlan_Payload vlan) ?lt) ?lt 0 = Some r2"
      using less [OF small] by blast
    ultimately show ?thesis
      using Some by (subst DecodePkt.simps) (simp split: option.split)
  qed
qed

text \<open>One round of the loop: it ends, or goes on with a higher count.\<close>

lemma frame_loop_round:
  assumes "layer_Ethernet G (NewPacket G frame LayerTypeEthernet) = Some e"
    and "DecodePkt G (NewPacket G frame LayerTypeEthernet) (eth_NextLayerType e) (eth_Length e) = Some (Done (len, t))"
  shows "frame_loop G n frame k decoded s =
    (let s' = s @ ''Pkt no '' @ nat_str k @ '': '' @ ''Ethernet'' @ t;
         decoded' = decoded + (14 + len)
     in if decoded' + 14 \<le> n then
          (if length frame < decoded' then Some (Abort (Panic ''slice bounds out of range''))
           else frame_loop G n (drop decoded' frame) (k + 1) decoded' (s' @ [CHR 0x0A] @ ''            ''))
        else Some (Done (k, s')))"
  using assms by (subst frame_loop.simps) (simp add: Let_def)

lemma frame_loop_returns:
  assumes "payload_shorter G"
  shows "\<exists>r. frame_loop G n frame k decoded s = Some r"
proof (induction "n - decoded" arbitrary: frame k decoded s rule: less_induct)
  case less
  show ?case
  proof (cases "layer_Ethernet G (NewPacket G frame LayerTypeEthernet)")
    case None
    then show ?thesis by (subst frame_loop.simps) simp
  next
    case (Some e)
    obtain r where r: "DecodePkt G (NewPacket G frame LayerTypeEthernet) (eth_NextLayerType e) (eth_Length e) = Some r"
      using DecodePkt_returns [OF assms] by blast
    show ?thesis
    proof (cases r)
      case (Abort x)
      with Some r show ?thesis by (subst frame_loop.simps) simp
    next
      case (Done p)
      obtain len t where p: "p = (len, t)" by fastforce
      have "\<exists>r. frame_loop G n f (k + 1) (decoded + (14 + len)) s' = Some r" if "decoded + (14 + len) + 14 \<le> n" for f s'
        using less that by simp
      then show ?thesis
        using frame_loop_round [OF Some r [unfolded Done p]] by (simp add: Let_def)
    qed
  qed
qed

text \<open>
  C11: Describing a frame for the log always ends, whatever the frame holds: with a description, or with a
  panic. Nested VLAN headers are only followed into shorter packets, and every round of the loop
  accounts for at least one Ethernet header.
\<close>

theorem DecodeFrame_terminates:
  assumes "payload_shorter G"
  shows "\<exists>r. DecodeFrame G frame = Some r"
  using frame_loop_returns [OF assms, of "length frame" frame 1 0 "[]"] by (auto simp: DecodeFrame_def)

text \<open>
  C12: A frame of two packets and a remainder of at least an Ethernet header, shorter than the first
  packet, makes \<open>DecodeFrame\<close> panic, because the second cut counts from the start of the first packet.
  So the forwarding thread ends with a panic when it captures such a frame longer than 1518 bytes,
  before it has sent the frame.
\<close>

theorem DecodeFrame_panics:
  assumes "layer_Ethernet G (NewPacket G frame LayerTypeEthernet) = Some e1"
    and "DecodePkt G (NewPacket G frame LayerTypeEthernet) (eth_NextLayerType e1) (eth_Length e1) = Some (Done (n1, t1))"
    and "layer_Ethernet G (NewPacket G (drop (14 + n1) frame) LayerTypeEthernet) = Some e2"
    and "DecodePkt G (NewPacket G (drop (14 + n1) frame) LayerTypeEthernet) (eth_NextLayerType e2) (eth_Length e2)
      = Some (Done (n2, t2))"
    and "(14 + n1) + (14 + n2) + 14 \<le> length frame" and "length frame < (14 + n1) + (14 + n1) + (14 + n2)"
  shows "DecodeFrame G frame = Some (Abort (Panic ''slice bounds out of range''))
    \<and> (length frame > 1518 \<longrightarrow>
         recv_loop G C wire (Captured frame # xs) w = (Abort (Panic ''slice bounds out of range''), w))"
proof -
  have "frame_loop G (length frame) (drop (14 + n1) frame) k (14 + n1) s = Some (Abort (Panic ''slice bounds out of range''))" for k s
    unfolding frame_loop_round [OF assms(3,4)] Let_def using assms(5,6) by (subst if_P, simp)+ simp
  then have "frame_loop G (length frame) frame 1 0 [] = Some (Abort (Panic ''slice bounds out of range''))"
    unfolding frame_loop_round [OF assms(1,2)] Let_def using assms(5,6) by simp
  then have "DecodeFrame G frame = Some (Abort (Panic ''slice bounds out of range''))"
    by (simp add: DecodeFrame_def)
  then show ?thesis by (simp add: note_large_def halt_run)
qed

section \<open>Packets arrive in order\<close>

text \<open>The handler of the peer as the answer to \<open>SendToOnce\<close>.\<close>

definition deliver_to :: "'w netlib \<Rightarrow> pb_Packet \<Rightarrow> 'w \<times> wstate \<Rightarrow> (error + bool) \<times> 'w \<times> wstate" where
  "deliver_to N pkt st =
     (case SendToOnce N pkt st of
        (Done (response, None), st') \<Rightarrow> (Inr response, st')
      | (Done (response, Some e), st') \<Rightarrow> (Inl e, st')
      | (Abort x, st') \<Rightarrow> (Inl (ExtError ''transport is closing''), st'))"

lemma deliver_to_state:
  assumes "GetHandle i (wmap s) = Some h"
  shows "snd (deliver_to N \<lparr> pkt_remot_intf_id = i, pkt_frame = f \<rparr> (w, s)) = (snd (nl_WritePacketData N h f w), s)"
  using assms
  by (simp add: deliver_to_def SendToOnce_def GetHostIntfHndl_def bnd_reads bnd_on_host ret_run split: option.splits)

text \<open>A frame that is small enough, or that is described without a panic, is forwarded.\<close>

definition forwardable :: "'p gopacket \<Rightarrow> byte list \<Rightarrow> bool" where
  "forwardable G f \<longleftrightarrow> length f \<le> 1518 \<or> (\<exists>t. DecodeFrame G f = Some (Done t))"

lemma note_forwardable: "forwardable G f \<Longrightarrow> note_large G f = ret ()"
  by (auto simp: forwardable_def note_large_def)

lemma recv_loop_forwards:
  assumes "cap_SendToOnce C = deliver_to N" "GetHandle (PeerIfaceID wire) (wmap s) = Some h"
    and "list_all (forwardable G) frames"
  shows "recv_loop G C wire (map Captured frames @ Stopped # rest) (w, s) =
    (Done (ExtError ''EOF''), (fold (\<lambda>f w. snd (nl_WritePacketData N h f w)) frames w, s))"
  using assms(3)
proof (induction frames arbitrary: w)
  case Nil
  then show ?case by (simp add: ret_run)
next
  case (Cons f fs)
  then show ?case
    by (simp add: note_forwardable bnd_ext assms(1) deliver_to_state [OF assms(2)])
qed

text \<open>
  C10: Once a daemon has created its end of a wire and the other end knows the interface it answered
  with, the forwarding thread of the other end delivers the captured packets to one packet handle of
  that daemon, each exactly once and in the order of capture, whether or not single writes fail, until
  it is stopped. This covers frames of any size on which \<open>DecodeFrame\<close>, called for large ones, does not
  panic.
\<close>

theorem wire_forwards_in_order:
  assumes "\<not> (\<exists>wire. GetWireByUID (wd_local_pod_net_ns wireDef) (wd_link_uid wireDef) s0 = Some wire \<and> IsReady wire)"
    and "AddGRPCWireRemote N wireDef (w0, s0) = (Done (resp, None), (w', s))"
    and "PeerIfaceID wire = wcr_peer_intf_id resp" and "cap_SendToOnce C = deliver_to N"
  shows "\<exists>h. \<forall>frames rest w. list_all (forwardable G) frames \<longrightarrow>
    recv_loop G C wire (map Captured frames @ Stopped # rest) (w, s) =
      (Done (ExtError ''EOF''), (fold (\<lambda>f w. snd (nl_WritePacketData N h f w)) frames w, s))"
proof -
  obtain h i name where m: "wmap s = wireMap_Add (remote_wire wireDef name i (channels s0)) h (wmap s0)"
    and resp: "resp = \<lparr> wcr_response = True, wcr_peer_intf_id = i \<rparr>"
    using AddGRPCWireRemote_new [OF assms(1,2)] by metis
  have "GetHandle (PeerIfaceID wire) (wmap s) = Some h"
    by (simp add: m resp assms(3) GetHandle_def wireMap_Add_def remote_wire_def)
  then show ?thesis using recv_loop_forwards [OF assms(4)] by blast
qed

section \<open>Witnesses\<close>

text \<open>A dissector for Ethernet, VLAN and IPv4 headers.\<close>

definition ether_type :: "byte list \<Rightarrow> nat \<Rightarrow> layer_type" where
  "ether_type data i =
     (if data ! i = 8 \<and> data ! (i + 1) = 0 then LayerTypeIPv4
      else if data ! i = 0x81 \<and> data ! (i + 1) = 0 then LayerTypeDot1Q else LayerTypeZero)"

definition demo_dissector :: "(byte list \<times> layer_type) gopacket" where
  "demo_dissector =
     \<lparr> NewPacket = Pair,
       layer_Ethernet = (\<lambda>(data, t). if t = LayerTypeEthernet \<and> 14 \<le> length data
         then Some \<lparr> eth_NextLayerType = ether_type data 12, eth_Length = 0 \<rparr> else None),
       layer_LLC = (\<lambda>_. None),
       layer_Dot1Q = (\<lambda>(data, t). if t = LayerTypeDot1Q \<and> 4 \<le> length data
         then Some \<lparr> vlan_NextLayerType = ether_type data 2, vlan_Type = 0, vlan_Payload = drop 4 data \<rparr> else None),
       layer_IPv4 = (\<lambda>(data, t). if t = LayerTypeEthernet \<and> 34 \<le> length data
         then Some \<lparr> ip_Length = ucast (data ! 16) * 256 + ucast (data ! 17), ip_SrcIP = take 4 (drop 26 data),
           ip_DstIP = take 4 (drop 30 data), ip_Protocol = data ! 23 \<rparr> else None),
       layer_IPv6 = (\<lambda>_. None),
       layer_TCP_DstPort = (\<lambda>_. None) \<rparr>"

text \<open>An IPv4 packet in an Ethernet frame, with the two bytes of its length.\<close>

definition ip_frame :: "byte \<Rightarrow> byte \<Rightarrow> byte list" where
  "ip_frame a b = [1, 2, 3, 4, 5, 6, 7, 8, 9, 10, 11, 12, 8, 0, 0x45, 0, a, b] @ replicate 16 0"

definition large_frame :: "byte list" where
  "large_frame = ip_frame 3 232 @ replicate 980 0 @ ip_frame 1 244 @ replicate 480 0 @ replicate 100 0"

lemma demo_payload_shorter: "payload_shorter demo_dissector"
  by (auto simp: payload_shorter_def demo_dissector_def split: if_splits)

theorem DecodeFrame_terminates_witness:
  "payload_shorter demo_dissector \<and> (\<exists>r. DecodeFrame demo_dissector large_frame = Some r)"
  using demo_payload_shorter DecodeFrame_terminates [OF demo_payload_shorter] by blast

lemma ip_frame_decodes:
  assumes "data = ip_frame a b @ rest"
  shows "layer_Ethernet demo_dissector (NewPacket demo_dissector data LayerTypeEthernet) =
      Some \<lparr> eth_NextLayerType = LayerTypeIPv4, eth_Length = 0 \<rparr>"
    and "\<exists>t. DecodePkt demo_dissector (NewPacket demo_dissector data LayerTypeEthernet) LayerTypeIPv4 0 =
      Some (Done (unat (ucast a * 256 + ucast b :: uint16), t))"
  using assms
  by (simp_all add: demo_dissector_def ip_frame_def ether_type_def DecodePkt.simps decodeIPv4Pkt_def)

theorem DecodeFrame_panics_witness:
  "DecodeFrame demo_dissector large_frame = Some (Abort (Panic ''slice bounds out of range''))
   \<and> (\<forall>C wire w. recv_loop demo_dissector C wire [Captured large_frame] (w :: unit)
        = (Abort (Panic ''slice bounds out of range''), w))"
proof -
  let ?G = demo_dissector and ?e = "\<lparr> eth_NextLayerType = LayerTypeIPv4, eth_Length = 0 \<rparr>"
  have first: "large_frame = ip_frame 3 232 @ (replicate 980 0 @ ip_frame 1 244 @ replicate 480 0 @ replicate 100 0)"
    by (simp add: large_frame_def)
  have len: "length (ip_frame a b) = 34" for a b by (simp add: ip_frame_def)
  have second: "drop (14 + 1000) large_frame = ip_frame 1 244 @ (replicate 480 0 @ replicate 100 0)"
    by (simp add: large_frame_def len)
  have total: "length large_frame = 1628" by (simp add: large_frame_def len)
  obtain t1 where p1: "DecodePkt ?G (NewPacket ?G large_frame LayerTypeEthernet) LayerTypeIPv4 0 = Some (Done (1000, t1))"
    using ip_frame_decodes(2) [OF first] by auto
  obtain t2 where p2: "DecodePkt ?G (NewPacket ?G (drop (14 + 1000) large_frame) LayerTypeEthernet) LayerTypeIPv4 0
      = Some (Done (500, t2))"
    using ip_frame_decodes(2) [OF second] by auto
  have "DecodeFrame ?G large_frame = Some (Abort (Panic ''slice bounds out of range''))
      \<and> recv_loop ?G C wire [Captured large_frame] (w :: unit) = (Abort (Panic ''slice bounds out of range''), w)" for C wire w
    using DecodeFrame_panics [of ?G large_frame ?e 1000 t1 ?e 500 t2 C wire "[]" w]
      ip_frame_decodes(1) [OF first] ip_frame_decodes(1) [OF second] p1 p2 total by simp
  then show ?thesis by blast
qed

text \<open>A host that keeps what is written to packet handles.\<close>

definition writing_host :: "((pcap_handle \<times> byte list) list) netlib" where
  "writing_host = quiet_host\<lparr> nl_WritePacketData := (\<lambda>h f w. (None, w @ [(h, f)])) \<rparr>"

definition demo_capture :: "((pcap_handle \<times> byte list) list \<times> wstate) capture" where
  "demo_capture =
     \<lparr> cap_OpenLive = (\<lambda>n w. (None, w)), cap_SetDirection = (\<lambda>n w. (None, w)), cap_Dial = (\<lambda>u w. (None, w)),
       cap_SendToOnce = deliver_to writing_host \<rparr>"

lemma demo_add_writing:
  "\<exists>resp s. AddGRPCWireRemote writing_host demo_wire_def ([], initial_wires) = (Done (resp, None), ([], s))"
  by (simp add: AddGRPCWireRemote_def CreateGRPCWireRemoteTriggered_def create_remote_end_def bnd_bnd
      bnd_with_state bnd_reads bnd_on_host make_chan_def GetWireByUID_def GetWire_def initial_wires_def
      empty_wireMap_def demo_wire_def_def GenNodeIfaceName_def NextIndex_def wire_addrs_def quiet_host_def writing_host_def
      Let_def start_thread_def ret_run)

theorem wire_forwards_in_order_witness:
  "\<exists>resp s h. AddGRPCWireRemote writing_host demo_wire_def ([], initial_wires) = (Done (resp, None), ([], s))
     \<and> recv_loop demo_dissector demo_capture (demo_wire\<lparr> PeerIfaceID := wcr_peer_intf_id resp \<rparr>)
         [Captured [1, 2], Captured [3], Stopped] ([], s) = (Done (ExtError ''EOF''), ([(h, [1, 2]), (h, [3])], s))"
proof -
  obtain resp s where run: "AddGRPCWireRemote writing_host demo_wire_def ([], initial_wires) = (Done (resp, None), ([], s))"
    using demo_add_writing by blast
  have "\<not> (\<exists>wire. GetWireByUID (wd_local_pod_net_ns demo_wire_def) (wd_link_uid demo_wire_def) initial_wires
      = Some wire \<and> IsReady wire)"
    by (simp add: GetWireByUID_def GetWire_def initial_wires_def empty_wireMap_def)
  then obtain h where h: "\<forall>frames rest w. list_all (forwardable demo_dissector) frames \<longrightarrow>
    recv_loop demo_dissector demo_capture (demo_wire\<lparr> PeerIfaceID := wcr_peer_intf_id resp \<rparr>)
      (map Captured frames @ Stopped # rest) (w, s) =
      (Done (ExtError ''EOF''), (fold (\<lambda>f w. snd (nl_WritePacketData writing_host h f w)) frames w, s))"
    using wire_forwards_in_order [OF _ run, of "demo_wire\<lparr> PeerIfaceID := wcr_peer_intf_id resp \<rparr>" demo_capture demo_dissector]
    by (auto simp: demo_capture_def)
  with h [rule_format, of "[[1, 2], [3]]" "[]" "[]"] run show ?thesis
    by (intro exI [of _ resp] exI [of _ s] exI [of _ h]) (simp add: writing_host_def forwardable_def)
qed

end
