(* ===== verification/Clientset.thy ===== *)
theory Clientset
  imports ApiTypes
begin

text \<open>
  \<open>api/clientset/v1beta1/topology.go\<close>: the client of the Topology resource. Each method builds one REST
  request; sending it is a parameter, \<open>'w rest\<close>, with one operation per type of result the
  response is decoded into. A method returns the error of the response, or its decoded body.
\<close>

datatype rest_verb = GET | POST | PUT | DELETE

record rest_request =
  rq_verb :: rest_verb
  rq_namespace :: string
  rq_resource :: string
  rq_name :: string
  rq_subresource :: string
  rq_body :: "Topology option"

record 'w rest =
  rest_Topology :: "rest_request \<Rightarrow> 'w \<Rightarrow> (error + Topology) \<times> 'w"
  rest_List :: "rest_request \<Rightarrow> 'w \<Rightarrow> (error + TopologyList) \<times> 'w"
  rest_Error :: "rest_request \<Rightarrow> 'w \<Rightarrow> error option \<times> 'w"

definition topologies_request :: "rest_verb \<Rightarrow> string \<Rightarrow> rest_request" where
  "topologies_request verb ns =
     \<lparr> rq_verb = verb, rq_namespace = ns, rq_resource = ''topologies'', rq_name = [], rq_subresource = [],
       rq_body = None \<rparr>"

definition Topology_List :: "'w rest \<Rightarrow> string \<Rightarrow> 'w \<Rightarrow> (error + TopologyList) \<times> 'w" where
  "Topology_List R ns = rest_List R (topologies_request GET ns)"

definition Topology_Get :: "'w rest \<Rightarrow> string \<Rightarrow> string \<Rightarrow> 'w \<Rightarrow> (error + Topology) \<times> 'w" where
  "Topology_Get R ns name = rest_Topology R ((topologies_request GET ns)\<lparr> rq_name := name \<rparr>)"

definition Topology_Create :: "'w rest \<Rightarrow> string \<Rightarrow> Topology \<Rightarrow> 'w \<Rightarrow> (error + Topology) \<times> 'w" where
  "Topology_Create R ns topology =
     rest_Topology R ((topologies_request POST ns)\<lparr> rq_body := Some topology \<rparr>)"

definition Topology_Delete :: "'w rest \<Rightarrow> string \<Rightarrow> string \<Rightarrow> 'w \<Rightarrow> error option \<times> 'w" where
  "Topology_Delete R ns name = rest_Error R ((topologies_request DELETE ns)\<lparr> rq_name := name \<rparr>)"

definition Topology_Update :: "'w rest \<Rightarrow> string \<Rightarrow> Topology \<Rightarrow> 'w \<Rightarrow> (error + Topology) \<times> 'w" where
  "Topology_Update R ns topology =
     rest_Topology R ((topologies_request PUT ns)\<lparr> rq_name := Name topology, rq_body := Some topology \<rparr>)"

definition Topology_UpdateStatus :: "'w rest \<Rightarrow> string \<Rightarrow> Topology \<Rightarrow> 'w \<Rightarrow> (error + Topology) \<times> 'w" where
  "Topology_UpdateStatus R ns topology =
     rest_Topology R ((topologies_request PUT ns)
       \<lparr> rq_name := Name topology, rq_subresource := ''status'', rq_body := Some topology \<rparr>)"

lemmas client_defs = Topology_List_def Topology_Get_def Topology_Create_def Topology_Delete_def
  Topology_Update_def Topology_UpdateStatus_def topologies_request_def

section \<open>Retrying on conflicts\<close>

text \<open>
  \<open>retry.RetryOnConflict\<close> is a parameter of the functions that use it. Its documentation says that it
  runs the function again, a bounded number of times, as long as the error is a conflict:
  \<open>retry_times n\<close> allows \<open>n\<close> further runs, and \<open>retry_ok\<close> states that the parameter is one of these.
\<close>

fun retry_times :: "nat \<Rightarrow> ('s, error option) go \<Rightarrow> ('s, error option) go" where
  "retry_times 0 f = f"
| "retry_times (Suc n) f =
     bnd f (\<lambda>r. if r = Some Conflict then retry_times n f else ret r)"

definition retry_ok :: "(('s, error option) go \<Rightarrow> ('s, error option) go) \<Rightarrow> bool" where
  "retry_ok retry \<longleftrightarrow> (\<exists>n. \<forall>f. retry f = retry_times n f)"

lemma retry_ok_once: "retry_ok (\<lambda>f. f)"
  unfolding retry_ok_def by (rule exI [of _ 0]) simp

lemma preserves_retry_times [go_rules]: "preserves I f \<Longrightarrow> preserves I (retry_times n f)"
  by (induction n) (auto intro!: go_rules)

lemma unchanged_retry_times [go_rules]: "unchanged g f \<Longrightarrow> unchanged g (retry_times n f)"
  by (induction n) (auto intro!: go_rules)

lemma returns_retry_times [go_rules]: "returns f \<Longrightarrow> returns (retry_times n f)"
  by (induction n) (auto intro!: go_rules)

text \<open>A successful retry ends with a successful run.\<close>

lemma retry_times_None:
  "retry_times n f s = (Done None, t) \<Longrightarrow> \<exists>s1. f s1 = (Done None, t)"
  by (induction n arbitrary: s) (auto simp: ret_run split: if_splits elim!: bnd_cases)

section \<open>Building a client\<close>

text \<open>
  The REST and the dynamic client of \<open>client-go\<close> are parameters; of a configuration the fields that
  \<open>NewForConfig\<close> sets are modelled, and the rest is \<open>'c\<close>.
\<close>

record GroupVersionResource =
  gvr_Group :: string
  gvr_Version :: string
  gvr_Resource :: string

definition gvr :: GroupVersionResource where
  "gvr = \<lparr> gvr_Group = ''y-young.github.io'', gvr_Version = ''v1'', gvr_Resource = ''topologies'' \<rparr>"

record 'c rest_Config =
  rc_GroupVersion :: "(string \<times> string) option"
  rc_APIPath :: string
  rc_NegotiatedSerializer :: string
  rc_UserAgent :: string
  rc_other :: 'c

record list_options =
  lo_Watch :: bool
  lo_params :: string

record ('w, 'u) dynamic =
  dynamic_Get :: "GroupVersionResource \<Rightarrow> string \<Rightarrow> string \<Rightarrow> string list \<Rightarrow> 'w \<Rightarrow> (error + 'u) \<times> 'w"

record ('w, 'v) restClient =
  rest_client :: "'w rest"
  rest_Watch :: "rest_request \<Rightarrow> list_options \<Rightarrow> 'w \<Rightarrow> (error + 'v) \<times> 'w"

record ('w, 'c, 'u, 'v) client_go =
  cg_dynamic_NewForConfig :: "'c rest_Config \<Rightarrow> 'w \<Rightarrow> (error + ('w, 'u) dynamic) \<times> 'w"
  cg_RESTClientFor :: "'c rest_Config \<Rightarrow> 'w \<Rightarrow> (error + ('w, 'v) restClient) \<times> 'w"
  Codecs_WithoutConversion :: string
  DefaultKubernetesUserAgent :: string

record ('w, 'u, 'v) topology_Clientset =
  cs_dInterface :: "string \<Rightarrow> string \<Rightarrow> string list \<Rightarrow> 'w \<Rightarrow> (error + 'u) \<times> 'w"
  cs_restClient :: "('w, 'v) restClient"

record ('w, 'u, 'v) topologyClient =
  tc_dInterface :: "string \<Rightarrow> string \<Rightarrow> string list \<Rightarrow> 'w \<Rightarrow> (error + 'u) \<times> 'w"
  tc_restClient :: "('w, 'v) restClient"
  tc_ns :: string

text \<open>The dynamic client is built from the caller's configuration, the REST client from the changed copy.\<close>

definition client_config :: "('w, 'c, 'u, 'v) client_go \<Rightarrow> 'c rest_Config \<Rightarrow> 'c rest_Config" where
  "client_config G c =
     c\<lparr> rc_GroupVersion := Some (''y-young.github.io'', ''v1''),
        rc_APIPath := ''/apis'',
        rc_NegotiatedSerializer := Codecs_WithoutConversion G,
        rc_UserAgent := DefaultKubernetesUserAgent G \<rparr>"

definition Clientset_NewForConfig :: "('w, 'c, 'u, 'v) client_go \<Rightarrow> 'c rest_Config \<Rightarrow> ('w, error + ('w, 'u, 'v) topology_Clientset) go" where
  "Clientset_NewForConfig G c =
     orelse (ext (cg_dynamic_NewForConfig G c)) (\<lambda>dClient.
     orelse (ext (cg_RESTClientFor G (client_config G c))) (\<lambda>rClient.
     ret (Inr \<lparr> cs_dInterface = dynamic_Get dClient gvr, cs_restClient = rClient \<rparr>)))"

definition Clientset_Topology :: "('w, 'u, 'v) topology_Clientset \<Rightarrow> string \<Rightarrow> ('w, 'u, 'v) topologyClient" where
  "Clientset_Topology c namespace =
     \<lparr> tc_dInterface = cs_dInterface c, tc_restClient = cs_restClient c, tc_ns = namespace \<rparr>"

definition Topology_Watch :: "('w, 'u, 'v) topologyClient \<Rightarrow> list_options \<Rightarrow> 'w \<Rightarrow> (error + 'v) \<times> 'w" where
  "Topology_Watch t opts =
     (let opts = opts\<lparr> lo_Watch := True \<rparr> in rest_Watch (tc_restClient t) (topologies_request GET (tc_ns t)) opts)"

definition Topology_Unstructured :: "('w, 'u, 'v) topologyClient \<Rightarrow> string \<Rightarrow> string list \<Rightarrow> 'w \<Rightarrow> (error + 'u) \<times> 'w" where
  "Topology_Unstructured t name subresources = tc_dInterface t (tc_ns t) name subresources"

text \<open>
  A client made for a namespace sends every request to the resource \<open>topologies\<close> of that namespace, both
  through the REST and through the dynamic client.
\<close>

lemma NewForConfig_client:
  assumes "Clientset_NewForConfig G c w = (Done (Inr cs), w')"
  shows "\<exists>dClient rClient w1. cg_dynamic_NewForConfig G c w = (Inr dClient, w1)
    \<and> cg_RESTClientFor G (client_config G c) w1 = (Inr rClient, w')
    \<and> Topology_Unstructured (Clientset_Topology cs ns) name subs = dynamic_Get dClient gvr ns name subs
    \<and> Topology_Watch (Clientset_Topology cs ns) opts =
        rest_Watch rClient (topologies_request GET ns) (opts\<lparr> lo_Watch := True \<rparr>)"
proof -
  obtain r1 w1 where d: "cg_dynamic_NewForConfig G c w = (r1, w1)" by fastforce
  obtain r2 w2 where r: "cg_RESTClientFor G (client_config G c) w1 = (r2, w2)" by fastforce
  show ?thesis
    using assms d r
    by (auto simp: Clientset_NewForConfig_def orelse_def bnd_ext ret_run Topology_Unstructured_def Topology_Watch_def
        Clientset_Topology_def split: sum.splits)
qed

end
