(* ===== verification/DeepCopy.thy ===== *)
theory DeepCopy
  imports Registry ApiTypes "HOL-Library.More_List"
begin

text \<open>
  \<open>api/v1/zz_generated.deepcopy.go\<close>: the deep copies of the resources, on an explicit memory. Slices are
  headers that refer to backing arrays; a copy must not share one with the original, so that a client
  may change it and leave the original, often an object in a shared cache, as it is.

  \<open>DeepCopyInto\<close> maps the value of \<open>*in\<close> to the one it leaves in \<open>*out\<close>: its first statement overwrites all
  of \<open>*out\<close>. The copies of \<open>ObjectMeta\<close> and \<open>ListMeta\<close>, code of Kubernetes, are parameters.
\<close>

section \<open>Memory\<close>

record header =
  h_array :: ptr
  h_off :: nat
  h_len :: nat

type_synonym sliceref = "header option"

record SpecRef =
  r_SpecLinks :: sliceref

record StatusRef =
  r_Skipped :: sliceref
  r_SrcIP :: string
  r_NetNs :: string
  r_StatusLinks :: sliceref

record 'm TopologyRef =
  r_TypeMeta :: "string \<times> string"
  r_ObjectMeta :: 'm
  r_Spec :: SpecRef
  r_Status :: StatusRef

record 'l TopologyListRef =
  r_ListTypeMeta :: "string \<times> string"
  r_ListMeta :: 'l
  r_Items :: sliceref

text \<open>Backing arrays, the memory of the metadata, and the structures pointers refer to.\<close>

record ('x, 'm, 'l) heap =
  arr_links :: "Link list mem"
  arr_strings :: "string list mem"
  arr_topologies :: "'m TopologyRef list mem"
  meta_mem :: "'x mem"
  ptr_links :: "Link mem"
  ptr_properties :: "LinkProperties mem"
  ptr_specs :: "SpecRef mem"
  ptr_statuses :: "StatusRef mem"
  ptr_topologies :: "'m TopologyRef mem"
  ptr_lists :: "'l TopologyListRef mem"

record ('x, 'm, 'l) metadata =
  ObjectMeta_DeepCopyInto :: "'m \<Rightarrow> 'x mem \<Rightarrow> 'm \<times> 'x mem"
  ListMeta_DeepCopyInto :: "'l \<Rightarrow> 'x mem \<Rightarrow> 'l \<times> 'x mem"
  zero_ObjectMeta :: 'm

text \<open>The elements of a slice, and the builtin \<open>copy\<close>.\<close>

definition elements :: "'a list mem \<Rightarrow> header \<Rightarrow> 'a list" where
  "elements m s = (case cells m (h_array s) of None \<Rightarrow> [] | Some xs \<Rightarrow> take (h_len s) (drop (h_off s) xs))"

definition go_copy :: "'a list \<Rightarrow> 'a list \<Rightarrow> 'a list" where
  "go_copy dst src = take (length dst) src @ drop (length src) dst"

text \<open>\<open>*out = make([]T, len( *in)); copy( *out, *in)\<close>\<close>

definition make_copy :: "'a \<Rightarrow> sliceref \<Rightarrow> 'a list mem \<Rightarrow> sliceref \<times> 'a list mem" where
  "make_copy zero ref m =
     (case ref of
        None \<Rightarrow> (None, m)
      | Some s \<Rightarrow>
          (case alloc (replicate (h_len s) zero) m of (p, m1) \<Rightarrow>
             (Some \<lparr> h_array = p, h_off = 0, h_len = h_len s \<rparr>,
              store p (go_copy (replicate (h_len s) zero) (elements m1 s)) m1)))"

section \<open>Copies\<close>

definition zero_properties :: LinkProperties where
  "zero_properties =
     \<lparr> Latency = [], LatencyCorr = [], Jitter = [], Loss = [], LossCorr = [], Rate = [], Gap = 0,
       Duplicate = [], DuplicateCorr = [], ReorderProb = [], ReorderCorr = [], CorruptProb = [], CorruptCorr = [] \<rparr>"

definition zero_Link :: Link where
  "zero_Link =
     \<lparr> LocalIntf = [], LocalIP = [], LocalMAC = [], PeerIntf = [], PeerIP = [], PeerMAC = [], PeerPod = [],
       UID = 0, Properties = zero_properties \<rparr>"

definition LinkProperties_DeepCopyInto :: "LinkProperties \<Rightarrow> ('x, 'm, 'l) heap \<Rightarrow> LinkProperties \<times> ('x, 'm, 'l) heap" where
  "LinkProperties_DeepCopyInto inp h = (inp, h)"

definition Link_DeepCopyInto :: "Link \<Rightarrow> ('x, 'm, 'l) heap \<Rightarrow> Link \<times> ('x, 'm, 'l) heap" where
  "Link_DeepCopyInto inp h = (inp\<lparr> Properties := Properties inp \<rparr>, h)"

definition copy_links :: "sliceref \<Rightarrow> ('x, 'm, 'l) heap \<Rightarrow> sliceref \<times> ('x, 'm, 'l) heap" where
  "copy_links ref h = (case make_copy zero_Link ref (arr_links h) of (ref', m) \<Rightarrow> (ref', h\<lparr> arr_links := m \<rparr>))"

definition copy_strings :: "sliceref \<Rightarrow> ('x, 'm, 'l) heap \<Rightarrow> sliceref \<times> ('x, 'm, 'l) heap" where
  "copy_strings ref h = (case make_copy [] ref (arr_strings h) of (ref', m) \<Rightarrow> (ref', h\<lparr> arr_strings := m \<rparr>))"

definition TopologySpec_DeepCopyInto :: "SpecRef \<Rightarrow> ('x, 'm, 'l) heap \<Rightarrow> SpecRef \<times> ('x, 'm, 'l) heap" where
  "TopologySpec_DeepCopyInto inp h =
     (case copy_links (r_SpecLinks inp) h of (links, h1) \<Rightarrow> (inp\<lparr> r_SpecLinks := links \<rparr>, h1))"

definition TopologyStatus_DeepCopyInto :: "StatusRef \<Rightarrow> ('x, 'm, 'l) heap \<Rightarrow> StatusRef \<times> ('x, 'm, 'l) heap" where
  "TopologyStatus_DeepCopyInto inp h =
     (case copy_strings (r_Skipped inp) h of (skipped, h1) \<Rightarrow>
      case copy_links (r_StatusLinks inp) h1 of (links, h2) \<Rightarrow>
        (inp\<lparr> r_Skipped := skipped, r_StatusLinks := links \<rparr>, h2))"

definition on_meta :: "('a \<Rightarrow> 'x mem \<Rightarrow> 'a \<times> 'x mem) \<Rightarrow> 'a \<Rightarrow> ('x, 'm, 'l) heap \<Rightarrow> 'a \<times> ('x, 'm, 'l) heap" where
  "on_meta f a h = (case f a (meta_mem h) of (b, m) \<Rightarrow> (b, h\<lparr> meta_mem := m \<rparr>))"

definition Topology_DeepCopyInto ::
  "('x, 'm, 'l) metadata \<Rightarrow> 'm TopologyRef \<Rightarrow> ('x, 'm, 'l) heap \<Rightarrow> 'm TopologyRef \<times> ('x, 'm, 'l) heap" where
  "Topology_DeepCopyInto M inp h =
     (case on_meta (ObjectMeta_DeepCopyInto M) (r_ObjectMeta inp) h of (meta, h1) \<Rightarrow>
      case TopologySpec_DeepCopyInto (r_Spec inp) h1 of (spec, h2) \<Rightarrow>
      case TopologyStatus_DeepCopyInto (r_Status inp) h2 of (status, h3) \<Rightarrow>
        (inp\<lparr> r_ObjectMeta := meta, r_Spec := spec, r_Status := status \<rparr>, h3))"

definition zero_TopologyRef :: "('x, 'm, 'l) metadata \<Rightarrow> 'm TopologyRef" where
  "zero_TopologyRef M =
     \<lparr> r_TypeMeta = ([], []), r_ObjectMeta = zero_ObjectMeta M, r_Spec = \<lparr> r_SpecLinks = None \<rparr>,
       r_Status = \<lparr> r_Skipped = None, r_SrcIP = [], r_NetNs = [], r_StatusLinks = None \<rparr> \<rparr>"

text \<open>\<open>for i := range *in { ( *in)[i].DeepCopyInto(&( *out)[i]) }\<close>, for the remaining indices.\<close>

fun copy_items :: "('x, 'm, 'l) metadata \<Rightarrow> header \<Rightarrow> ptr \<Rightarrow> nat list \<Rightarrow> ('x, 'm, 'l) heap \<Rightarrow> ('x, 'm, 'l) heap" where
  "copy_items M src out [] h = h"
| "copy_items M src out (i # is) h =
     (case Topology_DeepCopyInto M (nth_default (zero_TopologyRef M) (elements (arr_topologies h) src) i) h of (t, h1) \<Rightarrow>
        copy_items M src out is
          (h1\<lparr> arr_topologies := store out
             ((case cells (arr_topologies h1) out of None \<Rightarrow> [] | Some xs \<Rightarrow> xs)[i := t]) (arr_topologies h1) \<rparr>))"

definition Items_DeepCopy :: "('x, 'm, 'l) metadata \<Rightarrow> sliceref \<Rightarrow> ('x, 'm, 'l) heap \<Rightarrow> sliceref \<times> ('x, 'm, 'l) heap" where
  "Items_DeepCopy M ref h =
     (case ref of
        None \<Rightarrow> (None, h)
      | Some s \<Rightarrow>
          (case alloc (replicate (h_len s) (zero_TopologyRef M)) (arr_topologies h) of (p, m) \<Rightarrow>
             (Some \<lparr> h_array = p, h_off = 0, h_len = h_len s \<rparr>,
              copy_items M s p [0..<h_len s] (h\<lparr> arr_topologies := m \<rparr>))))"

definition TopologyList_DeepCopyInto ::
  "('x, 'm, 'l) metadata \<Rightarrow> 'l TopologyListRef \<Rightarrow> ('x, 'm, 'l) heap \<Rightarrow> 'l TopologyListRef \<times> ('x, 'm, 'l) heap" where
  "TopologyList_DeepCopyInto M inp h =
     (case on_meta (ListMeta_DeepCopyInto M) (r_ListMeta inp) h of (meta, h1) \<Rightarrow>
      case Items_DeepCopy M (r_Items inp) h1 of (copies, h2) \<Rightarrow>
        (inp\<lparr> r_ListMeta := meta, r_Items := copies \<rparr>, h2))"

text \<open>\<open>DeepCopy\<close>: nil for nil, otherwise a new structure with the copy.\<close>

definition DeepCopy_with ::
  "(('x, 'm, 'l) heap \<Rightarrow> 'a mem) \<Rightarrow> ('a mem \<Rightarrow> ('x, 'm, 'l) heap \<Rightarrow> ('x, 'm, 'l) heap)
   \<Rightarrow> ('a \<Rightarrow> ('x, 'm, 'l) heap \<Rightarrow> 'a \<times> ('x, 'm, 'l) heap) \<Rightarrow> ptr option \<Rightarrow> (('x, 'm, 'l) heap, ptr option) go" where
  "DeepCopy_with get put into inp =
     (case inp of
        None \<Rightarrow> ret None
      | Some p \<Rightarrow> (\<lambda>h. case cells (get h) p of
            None \<Rightarrow> (Abort (Panic ''nil pointer dereference''), h)
          | Some v \<Rightarrow>
              (case into v h of (w, h1) \<Rightarrow>
               case alloc w (get h1) of (q, m) \<Rightarrow> (Done (Some q), put m h1))))"

definition Link_DeepCopy :: "ptr option \<Rightarrow> (('x, 'm, 'l) heap, ptr option) go" where
  "Link_DeepCopy = DeepCopy_with ptr_links (\<lambda>m h. h\<lparr> ptr_links := m \<rparr>) Link_DeepCopyInto"

definition LinkProperties_DeepCopy :: "ptr option \<Rightarrow> (('x, 'm, 'l) heap, ptr option) go" where
  "LinkProperties_DeepCopy = DeepCopy_with ptr_properties (\<lambda>m h. h\<lparr> ptr_properties := m \<rparr>) LinkProperties_DeepCopyInto"

definition TopologySpec_DeepCopy :: "ptr option \<Rightarrow> (('x, 'm, 'l) heap, ptr option) go" where
  "TopologySpec_DeepCopy = DeepCopy_with ptr_specs (\<lambda>m h. h\<lparr> ptr_specs := m \<rparr>) TopologySpec_DeepCopyInto"

definition TopologyStatus_DeepCopy :: "ptr option \<Rightarrow> (('x, 'm, 'l) heap, ptr option) go" where
  "TopologyStatus_DeepCopy = DeepCopy_with ptr_statuses (\<lambda>m h. h\<lparr> ptr_statuses := m \<rparr>) TopologyStatus_DeepCopyInto"

definition Topology_DeepCopy :: "('x, 'm, 'l) metadata \<Rightarrow> ptr option \<Rightarrow> (('x, 'm, 'l) heap, ptr option) go" where
  "Topology_DeepCopy M = DeepCopy_with ptr_topologies (\<lambda>m h. h\<lparr> ptr_topologies := m \<rparr>) (Topology_DeepCopyInto M)"

definition TopologyList_DeepCopy :: "('x, 'm, 'l) metadata \<Rightarrow> ptr option \<Rightarrow> (('x, 'm, 'l) heap, ptr option) go" where
  "TopologyList_DeepCopy M = DeepCopy_with ptr_lists (\<lambda>m h. h\<lparr> ptr_lists := m \<rparr>) (TopologyList_DeepCopyInto M)"

text \<open>The objects of the API machinery.\<close>

datatype runtime_Object = TopologyObject ptr | TopologyListObject ptr

definition Topology_DeepCopyObject :: "('x, 'm, 'l) metadata \<Rightarrow> ptr option \<Rightarrow> (('x, 'm, 'l) heap, runtime_Object option) go" where
  "Topology_DeepCopyObject M inp =
     bnd (Topology_DeepCopy M inp) (\<lambda>c. case c of Some p \<Rightarrow> ret (Some (TopologyObject p)) | None \<Rightarrow> ret None)"

definition TopologyList_DeepCopyObject :: "('x, 'm, 'l) metadata \<Rightarrow> ptr option \<Rightarrow> (('x, 'm, 'l) heap, runtime_Object option) go" where
  "TopologyList_DeepCopyObject M inp =
     bnd (TopologyList_DeepCopy M inp) (\<lambda>c. case c of Some p \<Rightarrow> ret (Some (TopologyListObject p)) | None \<Rightarrow> ret None)"

section \<open>Independence\<close>

text \<open>Addresses of arrays and of metadata; what a heap uses; heaps that agree on some addresses.\<close>

datatype addr = ALinks ptr | AStrings ptr | ATopologies ptr | AMeta ptr

definition used :: "('x, 'm, 'l) heap \<Rightarrow> addr set" where
  "used h = {a. case a of
     ALinks p \<Rightarrow> cells (arr_links h) p \<noteq> None
   | AStrings p \<Rightarrow> cells (arr_strings h) p \<noteq> None
   | ATopologies p \<Rightarrow> cells (arr_topologies h) p \<noteq> None
   | AMeta p \<Rightarrow> cells (meta_mem h) p \<noteq> None}"

definition agree :: "addr set \<Rightarrow> ('x, 'm, 'l) heap \<Rightarrow> ('x, 'm, 'l) heap \<Rightarrow> bool" where
  "agree A h h' \<longleftrightarrow> (\<forall>a \<in> A. case a of
     ALinks p \<Rightarrow> cells (arr_links h') p = cells (arr_links h) p
   | AStrings p \<Rightarrow> cells (arr_strings h') p = cells (arr_strings h) p
   | ATopologies p \<Rightarrow> cells (arr_topologies h') p = cells (arr_topologies h) p
   | AMeta p \<Rightarrow> cells (meta_mem h') p = cells (meta_mem h) p)"

definition heap_wf :: "('x, 'm, 'l) heap \<Rightarrow> bool" where
  "heap_wf h \<longleftrightarrow> mem_ok (arr_links h) \<and> mem_ok (arr_strings h) \<and> mem_ok (arr_topologies h) \<and> mem_ok (meta_mem h)"

text \<open>The heap grows: nothing in use changes.\<close>

definition extends :: "('x, 'm, 'l) heap \<Rightarrow> ('x, 'm, 'l) heap \<Rightarrow> bool" where
  "extends h h' \<longleftrightarrow> heap_wf h' \<and> used h \<subseteq> used h' \<and> agree (used h) h h'"

lemma agree_mono: "agree A h h' \<Longrightarrow> B \<subseteq> A \<Longrightarrow> agree B h h'"
  by (auto simp: agree_def)

lemma agree_trans: "agree A h h1 \<Longrightarrow> agree A h1 h2 \<Longrightarrow> agree A h h2"
  unfolding agree_def by (auto split: addr.splits)

lemma extends_refl: "heap_wf h \<Longrightarrow> extends h h"
  by (auto simp: extends_def agree_def split: addr.splits)

lemma extends_trans:
  assumes "extends h h1" "extends h1 h2"
  shows "extends h h2"
proof -
  have "agree (used h) h1 h2" using assms agree_mono unfolding extends_def by metis
  with assms agree_trans show ?thesis unfolding extends_def by blast
qed

text \<open>
  The contract of a deep copy: it only extends the heap, the copy denotes what the original denotes,
  and reaches no address that was in use; what a structure denotes depends on what it reaches only.
\<close>

locale deep_copy =
  fixes copy :: "'a \<Rightarrow> ('x, 'm, 'l) heap \<Rightarrow> 'a \<times> ('x, 'm, 'l) heap"
    and denote :: "('x, 'm, 'l) heap \<Rightarrow> 'a \<Rightarrow> 'v"
    and reach :: "('x, 'm, 'l) heap \<Rightarrow> 'a \<Rightarrow> addr set"
    and valid :: "('x, 'm, 'l) heap \<Rightarrow> 'a \<Rightarrow> bool"
  assumes reach_used: "valid h a \<Longrightarrow> reach h a \<subseteq> used h"
    and copied: "heap_wf h \<Longrightarrow> valid h a \<Longrightarrow> copy a h = (b, h') \<Longrightarrow>
      extends h h' \<and> valid h' b \<and> denote h' b = denote h a \<and> reach h' b \<inter> used h = {}"
    and footprint: "agree (reach h a) h h' \<Longrightarrow>
      reach h' a = reach h a \<and> denote h' a = denote h a \<and> (valid h a \<longrightarrow> valid h' a)"
begin

lemma kept:
  assumes "valid h a" "extends h h'"
  shows "reach h' a = reach h a" "denote h' a = denote h a" "valid h' a"
  using footprint [of h a h'] reach_used [OF assms(1)] assms agree_mono unfolding extends_def by blast+

text \<open>Whatever is written through the copy, the original denotes the same, and the other way round.\<close>

lemma isolated:
  assumes "heap_wf h" "valid h a" "copy a h = (b, h')"
  shows "agree (- reach h' b) h' h2 \<Longrightarrow> denote h2 a = denote h a"
    and "agree (- reach h a) h' h2 \<Longrightarrow> denote h2 b = denote h a"
proof -
  note c = copied [OF assms]
  have disj: "reach h a \<inter> reach h' b = {}" using c reach_used [OF assms(2)] by blast
  note same = kept [OF assms(2) c [THEN conjunct1]]
  show "denote h2 a = denote h a" if h2: "agree (- reach h' b) h' h2"
  proof -
    have "agree (reach h' a) h' h2" by (rule agree_mono [OF h2]) (use disj same(1) in blast)
    with footprint same(2) show ?thesis by metis
  qed
  show "denote h2 b = denote h a" if h2: "agree (- reach h a) h' h2"
  proof -
    have "agree (reach h' b) h' h2" by (rule agree_mono [OF h2]) (use disj in blast)
    with footprint c show ?thesis by metis
  qed
qed

end

text \<open>Copying one field after the other, and copying the fields of a structure.\<close>

lemma deep_copy_pair:
  assumes "deep_copy c1 d1 r1 v1" "deep_copy c2 d2 r2 v2"
  shows "deep_copy (\<lambda>(a, b) h. case c1 a h of (a', h1) \<Rightarrow> case c2 b h1 of (b', h2) \<Rightarrow> ((a', b'), h2))
    (\<lambda>h (a, b). (d1 h a, d2 h b)) (\<lambda>h (a, b). r1 h a \<union> r2 h b) (\<lambda>h (a, b). v1 h a \<and> v2 h b)"
proof
  fix h ab ab' h'
  assume wf: "heap_wf h" and v: "case ab of (a, b) \<Rightarrow> v1 h a \<and> v2 h b"
    and run: "(case ab of (a, b) \<Rightarrow> \<lambda>h. case c1 a h of (a', h1) \<Rightarrow> case c2 b h1 of (b', h2) \<Rightarrow> ((a', b'), h2)) h = (ab', h')"
  obtain a b where ab: "ab = (a, b)" by fastforce
  obtain a' h1 where r1: "c1 a h = (a', h1)" by fastforce
  obtain b' h2 where r2: "c2 b h1 = (b', h2)" by fastforce
  have ab': "ab' = (a', b')" "h' = h2" using run ab r1 r2 by simp_all
  have vs: "v1 h a" "v2 h b" using v ab by simp_all
  note c1 = deep_copy.copied [OF assms(1) wf vs(1) r1]
  note b1 = deep_copy.kept [OF assms(2) vs(2) c1 [THEN conjunct1]]
  have wf1: "heap_wf h1" and us: "used h \<subseteq> used h1" using c1 by (simp_all add: extends_def)
  note c2 = deep_copy.copied [OF assms(2) wf1 b1(3) r2]
  note a1 = deep_copy.kept [OF assms(1) c1 [THEN conjunct2, THEN conjunct1] c2 [THEN conjunct1]]
  show "extends h h' \<and> (case ab' of (a, b) \<Rightarrow> v1 h' a \<and> v2 h' b)
    \<and> (case ab' of (a, b) \<Rightarrow> (d1 h' a, d2 h' b)) = (case ab of (a, b) \<Rightarrow> (d1 h a, d2 h b))
    \<and> (case ab' of (a, b) \<Rightarrow> r1 h' a \<union> r2 h' b) \<inter> used h = {}"
    using c1 c2 a1 b1 us extends_trans ab ab' by auto
next
  fix h ab h'
  assume "agree (case ab of (a, b) \<Rightarrow> r1 h a \<union> r2 h b) h h'"
  then have "agree (r1 h (fst ab)) h h'" "agree (r2 h (snd ab)) h h'"
    by (auto elim!: agree_mono split: prod.splits)
  then show "(case ab of (a, b) \<Rightarrow> r1 h' a \<union> r2 h' b) = (case ab of (a, b) \<Rightarrow> r1 h a \<union> r2 h b)
    \<and> (case ab of (a, b) \<Rightarrow> (d1 h' a, d2 h' b)) = (case ab of (a, b) \<Rightarrow> (d1 h a, d2 h b))
    \<and> ((case ab of (a, b) \<Rightarrow> v1 h a \<and> v2 h b) \<longrightarrow> (case ab of (a, b) \<Rightarrow> v1 h' a \<and> v2 h' b))"
    using deep_copy.footprint [OF assms(1), of h "fst ab" h'] deep_copy.footprint [OF assms(2), of h "snd ab" h']
    by (cases ab) simp
qed (use deep_copy.reach_used [OF assms(1)] deep_copy.reach_used [OF assms(2)] in \<open>fastforce split: prod.splits\<close>)

lemma deep_copy_field:
  assumes "deep_copy c d r v" "\<And>x y. f (g x y) = y" "\<And>x y z. k (g x y) z = k x z"
    and "\<And>x h. copy x h = (case c (f x) h of (y, h') \<Rightarrow> (g x y, h'))"
  shows "deep_copy copy (\<lambda>h x. k x (d h (f x))) (\<lambda>h x. r h (f x)) (\<lambda>h x. v h (f x))"
proof
  fix h a b h'
  assume "heap_wf h" "v h (f a)" "copy a h = (b, h')"
  moreover from this obtain y where "c (f a) h = (y, h')" "b = g a y" by (auto simp: assms(4) split: prod.splits)
  ultimately show "extends h h' \<and> v h' (f b) \<and> k b (d h' (f b)) = k a (d h (f a)) \<and> r h' (f b) \<inter> used h = {}"
    using deep_copy.copied [OF assms(1)] assms(2,3) by simp
qed (use deep_copy.footprint [OF assms(1)] deep_copy.reach_used [OF assms(1)] in auto)

section \<open>Slices\<close>

definition valid_ref :: "'a list mem \<Rightarrow> sliceref \<Rightarrow> bool" where
  "valid_ref m ref \<longleftrightarrow> (\<forall>s. ref = Some s \<longrightarrow> (\<exists>xs. cells m (h_array s) = Some xs \<and> h_off s + h_len s \<le> length xs))"

definition contents :: "'a list mem \<Rightarrow> sliceref \<Rightarrow> 'a slice" where
  "contents m ref = map_option (elements m) ref"

definition arrays :: "(ptr \<Rightarrow> addr) \<Rightarrow> sliceref \<Rightarrow> addr set" where
  "arrays con ref = (\<lambda>s. con (h_array s)) ` set_option ref"

lemma elements_length:
  "cells m (h_array s) = Some xs \<Longrightarrow> h_off s + h_len s \<le> length xs \<Longrightarrow> length (elements m s) = h_len s"
  by (simp add: elements_def)

lemma elements_cong: "cells m' (h_array s) = cells m (h_array s) \<Longrightarrow> elements m' s = elements m s"
  by (simp add: elements_def)

lemma contents_cong:
  "(\<And>s. ref = Some s \<Longrightarrow> cells m' (h_array s) = cells m (h_array s)) \<Longrightarrow>
   contents m' ref = contents m ref \<and> valid_ref m' ref = valid_ref m ref"
  by (cases ref) (auto simp: contents_def valid_ref_def elements_def)

lemma go_copy_full: "length src = length dst \<Longrightarrow> go_copy dst src = src"
  by (simp add: go_copy_def)

lemma make_copy_ok:
  assumes "mem_ok m" "valid_ref m ref" "make_copy zero ref m = (ref', m')"
  shows "mem_ok m' \<and> (\<forall>p. cells m p \<noteq> None \<longrightarrow> cells m' p = cells m p)
    \<and> contents m' ref' = contents m ref \<and> valid_ref m' ref' \<and> (\<forall>s. ref' = Some s \<longrightarrow> cells m (h_array s) = None)"
proof (cases ref)
  case None
  with assms show ?thesis by (simp add: make_copy_def contents_def valid_ref_def)
next
  case (Some s)
  obtain p m1 where al: "alloc (replicate (h_len s) zero) m = (p, m1)" by fastforce
  note ok = mem_ok_alloc [OF assms(1) al]
  obtain xs where xs: "cells m (h_array s) = Some xs" "h_off s + h_len s \<le> length xs"
    using assms(2) Some by (auto simp: valid_ref_def)
  have other: "cells m1 q = cells m q" if "q \<noteq> p" for q using alloc_other [OF al that] .
  have p: "h_array s \<noteq> p" using ok xs by auto
  then have "elements m1 s = elements m s" "length (elements m s) = h_len s"
    using xs other elements_length by (auto intro: elements_cong)
  then have "ref' = Some \<lparr> h_array = p, h_off = 0, h_len = h_len s \<rparr>" "m' = store p (elements m s) m1"
    using assms(3) Some al by (simp_all add: make_copy_def go_copy_full)
  with ok other xs Some \<open>length (elements m s) = h_len s\<close> show ?thesis
    by (auto simp: contents_def valid_ref_def elements_def mem_ok_store)
qed

text \<open>A part of the heap that holds arrays, with the addresses of its arrays.\<close>

locale array_memory =
  fixes get :: "('x, 'm, 'l) heap \<Rightarrow> 'e list mem"
    and put :: "'e list mem \<Rightarrow> ('x, 'm, 'l) heap \<Rightarrow> ('x, 'm, 'l) heap"
    and con :: "ptr \<Rightarrow> addr"
  assumes get_put: "get (put m h) = m"
    and get_used: "con p \<in> used h \<longleftrightarrow> cells (get h) p \<noteq> None"
    and get_ok: "heap_wf h \<Longrightarrow> mem_ok (get h)"
    and get_agree: "agree A h h' \<Longrightarrow> con p \<in> A \<Longrightarrow> cells (get h') p = cells (get h) p"
    and put_extends: "heap_wf h \<Longrightarrow> mem_ok m \<Longrightarrow> (\<And>p. cells (get h) p \<noteq> None \<Longrightarrow> cells m p = cells (get h) p)
      \<Longrightarrow> extends h (put m h)"
begin

lemma slice_deep_copy:
  "deep_copy (\<lambda>ref h. case make_copy zero ref (get h) of (ref', m) \<Rightarrow> (ref', put m h))
     (\<lambda>h. contents (get h)) (\<lambda>h. arrays con) (\<lambda>h. valid_ref (get h))"
proof
  fix h a b h'
  assume wf: "heap_wf h" and v: "valid_ref (get h) a"
    and run: "(case make_copy zero a (get h) of (ref', m) \<Rightarrow> (ref', put m h)) = (b, h')"
  obtain m where m: "make_copy zero a (get h) = (b, m)" "h' = put m h" using run by (auto split: prod.splits)
  from make_copy_ok [OF get_ok [OF wf] v m(1)] put_extends [OF wf, of m] m(2)
  show "extends h h' \<and> valid_ref (get h') b \<and> contents (get h') b = contents (get h) a \<and> arrays con b \<inter> used h = {}"
    by (auto simp: get_put get_used arrays_def)
next
  fix h h' :: "('x, 'm, 'l) heap" and a
  assume ag: "agree (arrays con a) h h'"
  have "cells (get h') (h_array s) = cells (get h) (h_array s)" if "a = Some s" for s
    using get_agree [OF ag] that by (simp add: arrays_def)
  from contents_cong [OF this]
  show "arrays con a = arrays con a \<and> contents (get h') a = contents (get h) a \<and> (valid_ref (get h) a \<longrightarrow> valid_ref (get h') a)"
    by blast
qed (auto simp: arrays_def valid_ref_def get_used)

end

lemmas heap_simps = used_def heap_wf_def agree_def extends_def

interpretation links: array_memory arr_links "\<lambda>m h. h\<lparr> arr_links := m \<rparr>" ALinks
  by unfold_locales (auto simp: heap_simps split: addr.splits)

interpretation strings: array_memory arr_strings "\<lambda>m h. h\<lparr> arr_strings := m \<rparr>" AStrings
  by unfold_locales (auto simp: heap_simps split: addr.splits)

interpretation metas: array_memory meta_mem "\<lambda>m h. h\<lparr> meta_mem := m \<rparr>" AMeta
  by unfold_locales (auto simp: heap_simps split: addr.splits)

interpretation link_slices: deep_copy copy_links "\<lambda>h. contents (arr_links h)" "\<lambda>h. arrays ALinks" "\<lambda>h. valid_ref (arr_links h)"
  using links.slice_deep_copy [of zero_Link] by (simp add: copy_links_def [abs_def])

interpretation string_slices: deep_copy copy_strings "\<lambda>h. contents (arr_strings h)" "\<lambda>h. arrays AStrings" "\<lambda>h. valid_ref (arr_strings h)"
  using strings.slice_deep_copy [of "[]"] by (simp add: copy_strings_def [abs_def])

section \<open>Structures\<close>

definition spec_value :: "('x, 'm, 'l) heap \<Rightarrow> SpecRef \<Rightarrow> TopologySpec" where
  "spec_value h x = \<lparr> SpecLinks = contents (arr_links h) (r_SpecLinks x) \<rparr>"

definition status_value :: "('x, 'm, 'l) heap \<Rightarrow> StatusRef \<Rightarrow> TopologyStatus" where
  "status_value h x =
     \<lparr> Skipped = contents (arr_strings h) (r_Skipped x), SrcIP = r_SrcIP x, NetNs = r_NetNs x,
       StatusLinks = contents (arr_links h) (r_StatusLinks x) \<rparr>"

interpretation specs: deep_copy TopologySpec_DeepCopyInto spec_value
  "\<lambda>h x. arrays ALinks (r_SpecLinks x)" "\<lambda>h x. valid_ref (arr_links h) (r_SpecLinks x)"
  using deep_copy_field [OF link_slices.deep_copy_axioms, where f = r_SpecLinks and g = "\<lambda>x y. x\<lparr> r_SpecLinks := y \<rparr>"
      and k = "\<lambda>x links. \<lparr> SpecLinks = links \<rparr>" and copy = TopologySpec_DeepCopyInto]
  by (simp add: TopologySpec_DeepCopyInto_def spec_value_def [abs_def])

abbreviation "status_slices x \<equiv> (r_Skipped x, r_StatusLinks x)"

interpretation statuses: deep_copy TopologyStatus_DeepCopyInto status_value
  "\<lambda>h x. arrays AStrings (r_Skipped x) \<union> arrays ALinks (r_StatusLinks x)"
  "\<lambda>h x. valid_ref (arr_strings h) (r_Skipped x) \<and> valid_ref (arr_links h) (r_StatusLinks x)"
  using deep_copy_field [OF deep_copy_pair [OF string_slices.deep_copy_axioms link_slices.deep_copy_axioms],
      where f = status_slices and g = "\<lambda>x y. x\<lparr> r_Skipped := fst y, r_StatusLinks := snd y \<rparr>"
      and k = "\<lambda>x (a, b). \<lparr> Skipped = a, SrcIP = r_SrcIP x, NetNs = r_NetNs x, StatusLinks = b \<rparr>"
      and copy = TopologyStatus_DeepCopyInto]
  by (simp add: TopologyStatus_DeepCopyInto_def status_value_def [abs_def] case_prod_unfold)

text \<open>A topology, for a copy of its metadata that keeps the contract.\<close>

definition topology_value where
  "topology_value dm h x = (r_TypeMeta x, dm h (r_ObjectMeta x), spec_value h (r_Spec x), status_value h (r_Status x))"

definition topology_reach where
  "topology_reach rm h x = rm h (r_ObjectMeta x) \<union> (arrays ALinks (r_SpecLinks (r_Spec x))
     \<union> (arrays AStrings (r_Skipped (r_Status x)) \<union> arrays ALinks (r_StatusLinks (r_Status x))))"

definition topology_valid where
  "topology_valid vm h x \<longleftrightarrow> vm h (r_ObjectMeta x) \<and> valid_ref (arr_links h) (r_SpecLinks (r_Spec x))
     \<and> valid_ref (arr_strings h) (r_Skipped (r_Status x)) \<and> valid_ref (arr_links h) (r_StatusLinks (r_Status x))"

lemma topology_deep_copy:
  assumes "deep_copy (on_meta (ObjectMeta_DeepCopyInto M)) dm rm vm"
  shows "deep_copy (Topology_DeepCopyInto M) (topology_value dm) (topology_reach rm) (topology_valid vm)"
  using deep_copy_field [OF deep_copy_pair [OF assms deep_copy_pair [OF specs.deep_copy_axioms statuses.deep_copy_axioms]],
      where f = "\<lambda>x. (r_ObjectMeta x, r_Spec x, r_Status x)"
      and g = "\<lambda>x y. x\<lparr> r_ObjectMeta := fst y, r_Spec := fst (snd y), r_Status := snd (snd y) \<rparr>"
      and k = "\<lambda>x y. (r_TypeMeta x, y)" and copy = "Topology_DeepCopyInto M"]
  by (simp add: Topology_DeepCopyInto_def topology_value_def [abs_def] topology_reach_def [abs_def]
      topology_valid_def [abs_def] case_prod_unfold)

section \<open>Lists\<close>

definition items_value where
  "items_value dt h ref = map_option (map (dt h)) (contents (arr_topologies h) ref)"

definition items_reach where
  "items_reach rt h ref = arrays ATopologies ref
     \<union> (\<Union>s \<in> set_option ref. \<Union>t \<in> set (elements (arr_topologies h) s). rt h t)"

definition items_valid where
  "items_valid vt h ref \<longleftrightarrow> valid_ref (arr_topologies h) ref
     \<and> (\<forall>s. ref = Some s \<longrightarrow> list_all (vt h) (elements (arr_topologies h) s))"

text \<open>The state of the loop: the first \<open>i\<close> elements have been copied to the array \<open>out\<close>.\<close>

definition copied_items where
  "copied_items dt rt vt h0 xs out i h \<longleftrightarrow> extends h0 h \<and> ATopologies out \<notin> used h0
     \<and> (\<exists>ys. cells (arr_topologies h) out = Some ys \<and> length ys = length xs
        \<and> (\<forall>k < i. vt h (ys ! k) \<and> dt h (ys ! k) = dt h0 (xs ! k)
             \<and> rt h (ys ! k) \<inter> used h0 = {} \<and> ATopologies out \<notin> rt h (ys ! k)))"

lemma store_extends:
  assumes "extends h0 h" "ATopologies out \<notin> used h0" "cells (arr_topologies h) out = Some ys"
  shows "extends h0 (h\<lparr> arr_topologies := store out zs (arr_topologies h) \<rparr>)" (is "extends h0 ?h")
    and "ATopologies out \<notin> A \<Longrightarrow> agree A h (h\<lparr> arr_topologies := store out zs (arr_topologies h) \<rparr>)"
proof -
  show agree: "agree A h ?h" if "ATopologies out \<notin> A" for A
    using that by (auto simp: agree_def split: addr.splits)
  have "used ?h = used h" using assms(3) by (auto simp: used_def split: addr.splits if_splits)
  moreover have "heap_wf ?h" using assms(1,3) by (auto simp: extends_def heap_wf_def mem_ok_store)
  ultimately show "extends h0 ?h" using assms(1) agree_trans [OF _ agree [OF assms(2)]] by (simp add: extends_def)
qed

lemma copy_item:
  assumes T: "deep_copy (Topology_DeepCopyInto M) dt rt vt"
    and st: "copied_items dt rt vt h0 xs out i h" and i: "i < length xs" and v: "vt h0 (xs ! i)"
    and run: "Topology_DeepCopyInto M (xs ! i) h = (t, h1)"
  shows "copied_items dt rt vt h0 xs out (Suc i) (h1\<lparr> arr_topologies := store out
      ((case cells (arr_topologies h1) out of None \<Rightarrow> [] | Some ys \<Rightarrow> ys)[i := t]) (arr_topologies h1) \<rparr>)"
    (is "copied_items _ _ _ _ _ _ _ ?h2")
proof -
  obtain ys where ys: "cells (arr_topologies h) out = Some ys" "length ys = length xs"
      "\<forall>k < i. vt h (ys ! k) \<and> dt h (ys ! k) = dt h0 (xs ! k) \<and> rt h (ys ! k) \<inter> used h0 = {} \<and> ATopologies out \<notin> rt h (ys ! k)"
    and ext: "extends h0 h" "ATopologies out \<notin> used h0" using st by (auto simp: copied_items_def)
  have wf: "heap_wf h" using ext(1) by (simp add: extends_def)
  have out: "ATopologies out \<in> used h" using ys(1) by (simp add: used_def)
  note orig = deep_copy.kept [OF T v ext(1)]
  note c = deep_copy.copied [OF T wf orig(3) run]
  have ys1: "cells (arr_topologies h1) out = Some ys"
    using c out ys(1) by (fastforce simp: extends_def agree_def)
  have ext1: "extends h0 h1" using extends_trans [OF ext(1)] c by blast
  note st1 = store_extends [OF ext1 ext(2) ys1]
  have keep: "vt ?h2 u \<and> dt ?h2 u = dt h1 u \<and> rt ?h2 u = rt h1 u" if "vt h1 u" "ATopologies out \<notin> rt h1 u" for u
    using deep_copy.footprint [OF T st1(2) [OF that(2)]] that(1) by blast
  have old: "vt h1 (ys ! k) \<and> dt h1 (ys ! k) = dt h (ys ! k) \<and> rt h1 (ys ! k) = rt h (ys ! k)" if "k < i" for k
    using deep_copy.kept [OF T _ c [THEN conjunct1]] ys(3) that by blast
  have t: "vt h1 t" "dt h1 t = dt h0 (xs ! i)" "rt h1 t \<inter> used h0 = {}" "ATopologies out \<notin> rt h1 t"
    using c orig(2) ext(1) out by (auto simp: extends_def)
  have "vt ?h2 (ys[i := t] ! k) \<and> dt ?h2 (ys[i := t] ! k) = dt h0 (xs ! k)
      \<and> rt ?h2 (ys[i := t] ! k) \<inter> used h0 = {} \<and> ATopologies out \<notin> rt ?h2 (ys[i := t] ! k)" if "k < Suc i" for k
  proof (cases "k = i")
    case True
    with keep [OF t(1,4)] t i ys(2) show ?thesis by simp
  next
    case False
    with that have "k < i" by simp
    with keep [of "ys ! k"] old ys(3) False show ?thesis by simp
  qed
  moreover have "cells (arr_topologies ?h2) out = Some (ys[i := t])" by (simp add: ys1)
  ultimately show ?thesis using st1(1) ext(2) ys(2) unfolding copied_items_def by fastforce
qed

lemma copy_items_copied:
  assumes T: "deep_copy (Topology_DeepCopyInto M) dt rt vt" and src: "ATopologies (h_array s) \<in> used h0"
    and xs: "elements (arr_topologies h0) s = xs" "list_all (vt h0) xs"
    and "copied_items dt rt vt h0 xs out i h" "i \<le> length xs"
  shows "copied_items dt rt vt h0 xs out (length xs) (copy_items M s out [i..<length xs] h)"
  using assms(5,6)
proof (induction "length xs - i" arbitrary: i h)
  case 0
  then show ?case by simp
next
  case (Suc n)
  then have i: "i < length xs" by simp
  have same: "elements (arr_topologies h) s = xs"
    using Suc.prems(1) src xs(1) by (auto simp: copied_items_def extends_def agree_def dest!: bspec [OF _ src] intro: elements_cong)
  obtain t h1 where run: "Topology_DeepCopyInto M (xs ! i) h = (t, h1)" by fastforce
  have v: "vt h0 (xs ! i)" using xs(2) i by (simp add: list_all_length)
  note later = copy_item [OF T Suc.prems(1) i v run]
  have "n = length xs - Suc i" using Suc.hyps(2) by simp
  from Suc.hyps(1) [OF this later] i run same show ?case
    by (simp add: upt_conv_Cons nth_default_nth)
qed

lemma alloc_extends:
  assumes "heap_wf h" "alloc zs (arr_topologies h) = (p, m)"
  shows "extends h (h\<lparr> arr_topologies := m \<rparr>) \<and> ATopologies p \<notin> used h"
proof -
  have m: "mem_ok m" "cells (arr_topologies h) p = None" "cells m p = Some zs"
    using mem_ok_alloc [OF _ assms(2)] assms(1) by (simp_all add: heap_wf_def)
  show ?thesis
    using assms(1) m alloc_keeps [OF _ assms(2)] by (auto simp: extends_def heap_wf_def used_def agree_def split: addr.splits)
qed

lemma items_copied:
  assumes T: "deep_copy (Topology_DeepCopyInto M) dt rt vt"
    and wf: "heap_wf h" and v: "items_valid vt h ref" and run: "Items_DeepCopy M ref h = (ref', h')"
  shows "extends h h' \<and> items_valid vt h' ref' \<and> items_value dt h' ref' = items_value dt h ref \<and> items_reach rt h' ref' \<inter> used h = {}"
proof (cases ref)
  case None
  with wf run show ?thesis
    by (simp add: Items_DeepCopy_def extends_refl items_valid_def items_value_def items_reach_def contents_def arrays_def valid_ref_def)
next
  case (Some s)
  let ?xs = "elements (arr_topologies h) s"
  obtain p m where al: "alloc (replicate (h_len s) (zero_TopologyRef M)) (arr_topologies h) = (p, m)" by fastforce
  have xs: "length ?xs = h_len s" "list_all (vt h) ?xs" "ATopologies (h_array s) \<in> used h"
    using v Some by (auto simp: items_valid_def valid_ref_def used_def elements_length)
  have ref': "ref' = Some \<lparr> h_array = p, h_off = 0, h_len = h_len s \<rparr>"
    and h': "h' = copy_items M s p [0..<length ?xs] (h\<lparr> arr_topologies := m \<rparr>)"
    using run Some al xs(1) by (simp_all add: Items_DeepCopy_def)
  have "cells m p = Some (replicate (h_len s) (zero_TopologyRef M))" using al by (auto simp: alloc_def)
  then have "copied_items dt rt vt h ?xs p 0 (h\<lparr> arr_topologies := m \<rparr>)"
    using alloc_extends [OF wf al] xs(1) by (simp add: copied_items_def)
  from copy_items_copied [OF T xs(3) refl xs(2) this] h'
  have st: "copied_items dt rt vt h ?xs p (length ?xs) h'" by simp
  then obtain ys where ys: "cells (arr_topologies h') p = Some ys" "length ys = length ?xs"
      "\<forall>k < length ?xs. vt h' (ys ! k) \<and> dt h' (ys ! k) = dt h (?xs ! k) \<and> rt h' (ys ! k) \<inter> used h = {}"
    and ext: "extends h h'" "ATopologies p \<notin> used h" by (auto simp: copied_items_def)
  have el: "elements (arr_topologies h') \<lparr> h_array = p, h_off = 0, h_len = h_len s \<rparr> = ys"
    using ys(1,2) xs(1) by (simp add: elements_def)
  have "map (dt h') ys = map (dt h) ?xs" using ys(2,3) by (simp add: list_eq_iff_nth_eq)
  moreover have "list_all (vt h') ys" "\<forall>t \<in> set ys. rt h' t \<inter> used h = {}"
    using ys(2,3) by (simp_all add: list_all_length all_set_conv_all_nth)
  ultimately show ?thesis
    using ext el ys(1,2) xs(1) Some ref'
    by (auto simp: items_valid_def items_value_def items_reach_def contents_def arrays_def valid_ref_def)
qed

lemma items_deep_copy:
  assumes T: "deep_copy (Topology_DeepCopyInto M) dt rt vt"
  shows "deep_copy (Items_DeepCopy M) (items_value dt) (items_reach rt) (items_valid vt)"
proof
  fix h h' ref
  assume ag: "agree (items_reach rt h ref) h h'"
  show "items_reach rt h' ref = items_reach rt h ref \<and> items_value dt h' ref = items_value dt h ref
    \<and> (items_valid vt h ref \<longrightarrow> items_valid vt h' ref)"
  proof (cases ref)
    case (Some s)
    have cell: "cells (arr_topologies h') (h_array s) = cells (arr_topologies h) (h_array s)"
      using ag Some by (auto simp: agree_def items_reach_def arrays_def)
    then have el: "elements (arr_topologies h') s = elements (arr_topologies h) s" by (rule elements_cong)
    have "rt h' t = rt h t \<and> dt h' t = dt h t \<and> (vt h t \<longrightarrow> vt h' t)" if "t \<in> set (elements (arr_topologies h) s)" for t
      by (rule deep_copy.footprint [OF T agree_mono [OF ag]]) (use that Some in \<open>auto simp: items_reach_def\<close>)
    with el cell Some show ?thesis
      by (auto simp: items_valid_def items_value_def items_reach_def contents_def valid_ref_def list_all_iff)
  qed (simp add: items_valid_def items_value_def items_reach_def contents_def arrays_def valid_ref_def)
next
  fix h ref
  assume "items_valid vt h ref"
  then show "items_reach rt h ref \<subseteq> used h"
    using deep_copy.reach_used [OF T]
    by (fastforce simp: items_valid_def items_reach_def arrays_def used_def valid_ref_def list_all_iff)
qed (rule items_copied [OF T])

definition list_value where
  "list_value dm dl h x = (r_ListTypeMeta x, dl h (r_ListMeta x), items_value (topology_value dm) h (r_Items x))"

definition list_reach where
  "list_reach rm rl h x = rl h (r_ListMeta x) \<union> items_reach (topology_reach rm) h (r_Items x)"

definition list_valid where
  "list_valid vm vl h x \<longleftrightarrow> vl h (r_ListMeta x) \<and> items_valid (topology_valid vm) h (r_Items x)"

lemma list_deep_copy:
  assumes "deep_copy (on_meta (ObjectMeta_DeepCopyInto M)) dm rm vm" "deep_copy (on_meta (ListMeta_DeepCopyInto M)) dl rl vl"
  shows "deep_copy (TopologyList_DeepCopyInto M) (list_value dm dl) (list_reach rm rl) (list_valid vm vl)"
  using deep_copy_field [OF deep_copy_pair [OF assms(2) items_deep_copy [OF topology_deep_copy [OF assms(1)]]],
      where f = "\<lambda>x. (r_ListMeta x, r_Items x)" and g = "\<lambda>x y. x\<lparr> r_ListMeta := fst y, r_Items := snd y \<rparr>"
      and k = "\<lambda>x y. (r_ListTypeMeta x, y)" and copy = "TopologyList_DeepCopyInto M"]
  by (simp add: TopologyList_DeepCopyInto_def list_value_def [abs_def] list_reach_def [abs_def] list_valid_def [abs_def]
      case_prod_unfold)

section \<open>New objects\<close>

text \<open>A copy leaves the structures pointers refer to as they are.\<close>

lemma ptrs_kept:
  "on_meta f a h = (b, h') \<Longrightarrow> ptr_lists h' = ptr_lists h \<and> ptr_topologies h' = ptr_topologies h"
  "TopologySpec_DeepCopyInto x h = (y, h') \<Longrightarrow> ptr_lists h' = ptr_lists h \<and> ptr_topologies h' = ptr_topologies h"
  "TopologyStatus_DeepCopyInto u h = (v, h') \<Longrightarrow> ptr_lists h' = ptr_lists h \<and> ptr_topologies h' = ptr_topologies h"
  by (auto simp: on_meta_def TopologySpec_DeepCopyInto_def TopologyStatus_DeepCopyInto_def copy_links_def copy_strings_def
      split: prod.splits)

lemma topology_ptrs: "ptr_lists (snd (Topology_DeepCopyInto M x h)) = ptr_lists h"
  by (auto simp: Topology_DeepCopyInto_def dest!: ptrs_kept split: prod.splits)

lemma copy_items_ptrs: "ptr_lists (copy_items M s out is h) = ptr_lists h"
proof (induction "is" arbitrary: h)
  case (Cons i "is")
  obtain t h1 where run: "Topology_DeepCopyInto M (nth_default (zero_TopologyRef M) (elements (arr_topologies h) s) i) h = (t, h1)"
    by fastforce
  with topology_ptrs [of M "nth_default (zero_TopologyRef M) (elements (arr_topologies h) s) i" h] Cons.IH show ?case by simp
qed simp

lemma list_ptrs: "ptr_lists (snd (TopologyList_DeepCopyInto M x h)) = ptr_lists h"
  by (auto simp: TopologyList_DeepCopyInto_def Items_DeepCopy_def copy_items_ptrs dest!: ptrs_kept
      split: prod.splits option.splits)

text \<open>
  C37: The deep copy of a list of topologies is a new object that denotes what the original denotes, down
  to the links of every topology and to nil and empty slices, and the original stays as it is. The two
  share no memory: whatever is written later through one of them, to any array it reaches, the other one
  denotes the same as before.
\<close>

theorem TopologyList_DeepCopy_isolated:
  assumes "deep_copy (on_meta (ObjectMeta_DeepCopyInto M)) dm rm vm" and "deep_copy (on_meta (ListMeta_DeepCopyInto M)) dl rl vl"
    and "heap_wf h" and "mem_ok (ptr_lists h)" and "cells (ptr_lists h) p = Some a" and "list_valid vm vl h a"
  shows "\<exists>q b h'. TopologyList_DeepCopy M (Some p) h = (Done (Some q), h')
    \<and> cells (ptr_lists h) q = None \<and> cells (ptr_lists h') q = Some b \<and> cells (ptr_lists h') p = Some a
    \<and> list_value dm dl h' b = list_value dm dl h a \<and> list_value dm dl h' a = list_value dm dl h a
    \<and> (\<forall>h2. agree (- list_reach rm rl h' b) h' h2 \<longrightarrow> list_value dm dl h2 a = list_value dm dl h a)
    \<and> (\<forall>h2. agree (- list_reach rm rl h a) h' h2 \<longrightarrow> list_value dm dl h2 b = list_value dm dl h a)"
proof -
  note L = list_deep_copy [OF assms(1,2)]
  obtain b h1 where run: "TopologyList_DeepCopyInto M a h = (b, h1)" by fastforce
  have ptrs: "ptr_lists h1 = ptr_lists h" using list_ptrs [of M a h] run by simp
  obtain q m where al: "alloc b (ptr_lists h) = (q, m)" by fastforce
  note new = mem_ok_alloc [OF assms(4) al]
  let ?h = "h1\<lparr> ptr_lists := m \<rparr>"
  have same: "agree A h1 ?h" "agree A ?h h2 \<longleftrightarrow> agree A h1 h2" for A h2
    by (auto simp: agree_def split: addr.splits)
  note fp = deep_copy.footprint [OF L same(1)]
  have "TopologyList_DeepCopy M (Some p) h = (Done (Some q), ?h)"
    using assms(5) run al ptrs by (simp add: TopologyList_DeepCopy_def DeepCopy_with_def)
  moreover have "cells m p = Some a" using alloc_keeps [OF assms(4) al, of p] assms(5) by simp
  ultimately show ?thesis
    using new fp same(2) deep_copy.copied [OF L assms(3,6) run] deep_copy.kept [OF L assms(6)]
      deep_copy.isolated [OF L assms(3,6) run]
    by (intro exI [of _ q] exI [of _ b] exI [of _ ?h]) (auto simp del: fun_upd_apply)
qed

section \<open>Witness\<close>

text \<open>Metadata of a name and a slice of finalizers; a list of one topology with one link.\<close>

definition demo_metadata :: "(string list, string \<times> sliceref, string) metadata" where
  "demo_metadata =
     \<lparr> ObjectMeta_DeepCopyInto = (\<lambda>x m. case make_copy [] (snd x) m of (ref, m') \<Rightarrow> ((fst x, ref), m')),
       ListMeta_DeepCopyInto = (\<lambda>x m. (x, m)), zero_ObjectMeta = ([], None) \<rparr>"

abbreviation "demo_meta_value h x \<equiv> (fst x, contents (meta_mem h) (snd x))"
abbreviation "demo_meta_reach h x \<equiv> arrays AMeta (snd x)"
abbreviation "demo_meta_valid h x \<equiv> valid_ref (meta_mem h) (snd x)"

lemma demo_ObjectMeta:
  "deep_copy (on_meta (ObjectMeta_DeepCopyInto demo_metadata)) (\<lambda>h. demo_meta_value h) (\<lambda>h. demo_meta_reach h) (\<lambda>h. demo_meta_valid h)"
  using deep_copy_field [OF metas.slice_deep_copy [of "[]"], where f = snd and g = "\<lambda>x y. (fst x, y)"
      and k = "\<lambda>x y. (fst x, y)" and copy = "on_meta (ObjectMeta_DeepCopyInto demo_metadata)"]
  by (simp add: demo_metadata_def on_meta_def case_prod_unfold)

lemma demo_ListMeta:
  "deep_copy (on_meta (ListMeta_DeepCopyInto demo_metadata)) (\<lambda>h x. x) (\<lambda>h x. {}) (\<lambda>h x. True)"
  by unfold_locales (auto simp: demo_metadata_def on_meta_def extends_refl)

definition one :: "'a \<Rightarrow> 'a mem" where
  "one x = snd (alloc x empty_mem)"

definition demo_list :: "string TopologyListRef" where
  "demo_list = \<lparr> r_ListTypeMeta = (''TopologyList'', ''v1''), r_ListMeta = ''7'', r_Items = Some \<lparr> h_array = 0, h_off = 0, h_len = 1 \<rparr> \<rparr>"

definition demo_heap :: "(string list, string \<times> sliceref, string) heap" where
  "demo_heap =
     \<lparr> arr_links = one [zero_Link], arr_strings = empty_mem,
       arr_topologies = one [\<lparr> r_TypeMeta = (''Topology'', ''v1''),
         r_ObjectMeta = (''r1'', Some \<lparr> h_array = 0, h_off = 0, h_len = 1 \<rparr>),
         r_Spec = \<lparr> r_SpecLinks = Some \<lparr> h_array = 0, h_off = 0, h_len = 1 \<rparr> \<rparr>,
         r_Status = \<lparr> r_Skipped = None, r_SrcIP = ''10.0.0.1'', r_NetNs = [], r_StatusLinks = None \<rparr> \<rparr>],
       meta_mem = one [''finalizer''], ptr_links = empty_mem, ptr_properties = empty_mem, ptr_specs = empty_mem,
       ptr_statuses = empty_mem, ptr_topologies = empty_mem, ptr_lists = one demo_list \<rparr>"

theorem TopologyList_DeepCopy_isolated_witness:
  "\<exists>q b h'. TopologyList_DeepCopy demo_metadata (Some 0) demo_heap = (Done (Some q), h') \<and> q \<noteq> 0
    \<and> cells (ptr_lists h') q = Some b
    \<and> list_value (\<lambda>h. demo_meta_value h) (\<lambda>h x. x) h' b = list_value (\<lambda>h. demo_meta_value h) (\<lambda>h x. x) demo_heap demo_list"
proof -
  have wf: "heap_wf demo_heap" "mem_ok (ptr_lists demo_heap)" "cells (ptr_lists demo_heap) 0 = Some demo_list"
    by (simp_all add: heap_wf_def demo_heap_def one_def alloc_def empty_mem_def mem_ok_def)
  have valid: "list_valid (\<lambda>h. demo_meta_valid h) (\<lambda>h x. True) demo_heap demo_list"
    by (simp add: list_valid_def items_valid_def topology_valid_def valid_ref_def demo_heap_def demo_list_def one_def alloc_def
        empty_mem_def elements_def)
  obtain q b h' where "TopologyList_DeepCopy demo_metadata (Some 0) demo_heap = (Done (Some q), h')"
    "cells (ptr_lists demo_heap) q = None" "cells (ptr_lists h') q = Some b"
    "list_value (\<lambda>h. demo_meta_value h) (\<lambda>h x. x) h' b = list_value (\<lambda>h. demo_meta_value h) (\<lambda>h x. x) demo_heap demo_list"
    using TopologyList_DeepCopy_isolated [OF demo_ObjectMeta demo_ListMeta wf valid] by blast
  moreover from this(2) wf(3) have "q \<noteq> 0" by (metis option.distinct(1))
  ultimately show ?thesis by blast
qed

end
