(* ===== verification/RequestContext.thy ===== *)
theory RequestContext
  imports Qdisc
begin

text \<open>
  \<open>common/context.go\<close>: loggers and values in the context of a request. A context is the list of the
  values added to it, the latest first; keys of other packages have other types and never equal a
  \<open>CtxKey\<close>. Handlers put the setting for TCP/IP bypass into the context, and \<open>SetVethQdiscs\<close> reads it.
\<close>

section \<open>Contexts\<close>

datatype ctx_key = CtxKey string | OtherKey string

type_synonym log_entry = "(string \<times> string) list"

datatype ctx_value = VLogger log_entry | VBool bool | VString string

type_synonym ctx = "(ctx_key \<times> ctx_value) list"

text \<open>\<open>context.WithValue\<close> and \<open>ctx.Value\<close>\<close>

definition WithValue :: "ctx \<Rightarrow> ctx_key \<Rightarrow> ctx_value \<Rightarrow> ctx" where
  "WithValue ctx k v = (k, v) # ctx"

fun ctx_Value :: "ctx \<Rightarrow> ctx_key \<Rightarrow> ctx_value option" where
  "ctx_Value [] k = None"
| "ctx_Value ((k', v) # ctx) k = (if k = k' then Some v else ctx_Value ctx k)"

definition WithLogger :: "ctx \<Rightarrow> log_entry \<Rightarrow> ctx" where
  "WithLogger ctx logger = WithValue ctx (CtxKey ''logger'') (VLogger logger)"

definition GetLogger :: "ctx \<Rightarrow> log_entry" where
  "GetLogger ctx =
     (case ctx_Value ctx (CtxKey ''logger'') of
        Some (VLogger logger) \<Rightarrow> logger
      | _ \<Rightarrow> [(''daemon'', ''kubedtnd'')])"

definition WithCtxValue :: "ctx \<Rightarrow> string \<Rightarrow> ctx_value \<Rightarrow> ctx" where
  "WithCtxValue ctx key v = WithValue ctx (CtxKey key) v"

definition GetCtxValue :: "ctx \<Rightarrow> string \<Rightarrow> ctx_value option" where
  "GetCtxValue ctx key = ctx_Value ctx (CtxKey key)"

definition TCPIP_BYPASS :: string where
  "TCPIP_BYPASS = ''TCPIP_BYPASS''"

text \<open>\<open>GetCtxValue(ctx, TCPIP_BYPASS).(bool)\<close>, with \<open>None\<close> for a failed assertion.\<close>

definition ctx_bypass :: "ctx \<Rightarrow> bool option" where
  "ctx_bypass ctx = (case GetCtxValue ctx TCPIP_BYPASS of Some (VBool b) \<Rightarrow> Some b | _ \<Rightarrow> None)"

section \<open>Contexts are maps\<close>

lemma ctx_Value_map: "ctx_Value ctx = map_of ctx"
  by (rule HOL.ext, induction ctx) auto

lemma ctx_Value_WithValue: "ctx_Value (WithValue ctx k v) = (ctx_Value ctx)(k \<mapsto> v)"
  by (simp add: ctx_Value_map WithValue_def)

lemma GetCtxValue_WithCtxValue:
  "GetCtxValue (WithCtxValue ctx key v) key' = (if key' = key then Some v else GetCtxValue ctx key')"
  by (simp add: GetCtxValue_def WithCtxValue_def ctx_Value_WithValue)

lemma GetCtxValue_WithLogger: "key \<noteq> ''logger'' \<Longrightarrow> GetCtxValue (WithLogger ctx logger) key = GetCtxValue ctx key"
  by (simp add: GetCtxValue_def WithLogger_def ctx_Value_WithValue)

lemma GetLogger_WithLogger: "GetLogger (WithLogger ctx logger) = logger"
  by (simp add: GetLogger_def WithLogger_def ctx_Value_WithValue)

lemma GetLogger_WithCtxValue: "key \<noteq> ''logger'' \<Longrightarrow> GetLogger (WithCtxValue ctx key v) = GetLogger ctx"
  by (simp add: GetLogger_def WithCtxValue_def ctx_Value_WithValue)

lemma GetLogger_fallback: "GetLogger [] = [(''daemon'', ''kubedtnd'')]"
  by (simp add: GetLogger_def)

text \<open>Loggers and values share their keys: a value under the key of the logger hides the logger.\<close>

lemma GetLogger_hidden: "GetLogger (WithCtxValue (WithLogger ctx logger) ''logger'' (VBool b)) = [(''daemon'', ''kubedtnd'')]"
  by (simp add: GetLogger_def WithCtxValue_def ctx_Value_WithValue)

text \<open>
  The setting reaches \<open>SetVethQdiscs\<close> through any number of loggers the functions in between add; a
  context without it, as that of a call from a peer, gives no bypass.
\<close>

fun with_loggers :: "log_entry list \<Rightarrow> ctx \<Rightarrow> ctx" where
  "with_loggers [] ctx = ctx"
| "with_loggers (l # ls) ctx = with_loggers ls (WithLogger ctx l)"

lemma bypass_with_loggers: "ctx_bypass (with_loggers ls ctx) = ctx_bypass ctx"
proof (induction ls arbitrary: ctx)
  case (Cons l ls)
  have "ctx_bypass (WithLogger ctx l) = ctx_bypass ctx"
    by (simp add: ctx_bypass_def GetCtxValue_WithLogger TCPIP_BYPASS_def)
  with Cons.IH show ?case by simp
qed simp

lemma bypass_carried:
  "SetVethQdiscs N (ctx_bypass (with_loggers ls (WithCtxValue ctx TCPIP_BYPASS (VBool b)))) veth qs = SetVethQdiscs N (Some b) veth qs"
  "SetVethQdiscs N (ctx_bypass (with_loggers ls [])) veth qs = SetVethQdiscs N None veth qs"
  unfolding bypass_with_loggers by (simp_all add: ctx_bypass_def GetCtxValue_def WithCtxValue_def ctx_Value_WithValue)

end
