(* ===== verification/Daemon.thy ===== *)
theory Daemon
  imports Vxlan Metrics GrpcWire Clientset
begin

text \<open>
  \<open>daemon/kubedtn/handler.go\<close>: the handlers of the daemon for pods and links.

  \<open>'w env\<close> holds the code outside the repository: the host, the API server, the calls to other
  daemons, the clock, the events the informer has delivered since it was last asked, and the retry
  helper. \<open>'w daemon\<close> is the state of the process together with the world: the fields of \<open>KubeDTN\<close>, the
  package variables of \<open>grpcwire\<close>, and the cells its pointers refer to. The objects of the informer's
  store are shared: \<open>getPod\<close> returns a pointer to the stored object, and the handlers write to it.

  The value \<open>TCPIP_BYPASS\<close> of the context a handler is called with is its argument \<open>bypass\<close>. A panic
  ends the process, so the deferred unlocking on a panic is not modelled.
\<close>

section \<open>State\<close>

record 'w env =
  net :: "'w netlib"
  rest :: "'w rest"
  rpc :: "'w remote_rpcs"
  now :: "'w \<Rightarrow> int \<times> 'w"
  informer :: "'w \<Rightarrow> (string \<times> Topology option) list \<times> 'w"
  errlist :: "error list \<Rightarrow> error"
  order :: wire_order
  MacvlanMode :: nat

record 'w daemon =
  world :: 'w
  TCPIPBypass :: bool
  nodeIP :: string
  vxlanIntf :: string
  topologyStore :: "string \<Rightarrow> ptr option"
  objects :: "Topology mem"
  topologyManager :: TopologyManager
  vxlanManager :: VxlanManager
  netns_strings :: "string mem"
  linkMutexes :: "int64 MutexMap"
  wire_state :: wstate
  observations :: "(string \<times> int) list"

type_synonym 'w retry = "('w daemon, error option) go \<Rightarrow> ('w daemon, error option) go"

definition hosted :: "('w, 'a) go \<Rightarrow> ('w daemon, 'a) go" where
  "hosted m = zoom world (\<lambda>w d. d\<lparr> world := w \<rparr>) m"

definition mutexes :: "(int64 MutexMap, 'a) go \<Rightarrow> ('w daemon, 'a) go" where
  "mutexes m = zoom linkMutexes (\<lambda>x d. d\<lparr> linkMutexes := x \<rparr>) m"

definition wired :: "('w \<times> wstate, 'a) go \<Rightarrow> ('w daemon, 'a) go" where
  "wired m = zoom (\<lambda>d. (world d, wire_state d)) (\<lambda>(w, x) d. d\<lparr> world := w, wire_state := x \<rparr>) m"

text \<open>\<open>time.Since(startTime)\<close> in milliseconds, handed to the histogram.\<close>

definition Observe :: "string \<Rightarrow> int \<Rightarrow> ('w daemon, unit) go" where
  "Observe method latency = modify (\<lambda>d. d\<lparr> observations := observations d @ [(method, latency)] \<rparr>)"

definition observe_since :: "'w env \<Rightarrow> string \<Rightarrow> int \<Rightarrow> ('w daemon, unit) go" where
  "observe_since E method startTime =
     bnd (hosted (ext (now E))) (\<lambda>t. Observe method ((t - startTime) div 1000000))"

section \<open>Reading and writing topologies\<close>

text \<open>An event of the informer replaces or removes the object under its key.\<close>

fun deliver :: "(string \<times> Topology option) list \<Rightarrow> 'w daemon \<Rightarrow> 'w daemon" where
  "deliver [] d = d"
| "deliver ((key, Some topology) # es) d =
     (case alloc topology (objects d) of (p, h) \<Rightarrow>
        deliver es (d\<lparr> objects := h, topologyStore := (topologyStore d)(key \<mapsto> p) \<rparr>))"
| "deliver ((key, None) # es) d = deliver es (d\<lparr> topologyStore := (topologyStore d)(key := None) \<rparr>)"

definition GetByKey :: "'w env \<Rightarrow> string \<Rightarrow> ('w daemon, ptr option) go" where
  "GetByKey E key =
     bnd (hosted (ext (informer E))) (\<lambda>events.
     bnd (modify (deliver events)) (\<lambda>_.
     reads (\<lambda>d. topologyStore d key)))"

definition new_object :: "Topology \<Rightarrow> ('w daemon, ptr) go" where
  "new_object topology = (\<lambda>d. case alloc topology (objects d) of (p, h) \<Rightarrow> (Done p, d\<lparr> objects := h \<rparr>))"

definition deref :: "ptr \<Rightarrow> ('w daemon, Topology) go" where
  "deref p = (\<lambda>d. case cells (objects d) p of
     Some topology \<Rightarrow> (Done topology, d) | None \<Rightarrow> (Abort (Panic ''nil pointer dereference''), d))"

definition assign :: "ptr \<Rightarrow> Topology \<Rightarrow> ('w daemon, unit) go" where
  "assign p topology = modify (\<lambda>d. d\<lparr> objects := store p topology (objects d) \<rparr>)"

definition getPod :: "'w env \<Rightarrow> string \<Rightarrow> string \<Rightarrow> ('w daemon, error + ptr) go" where
  "getPod E name ns0 =
     (let ns = (if ns0 = [] then ''default'' else ns0);
          pod = ns @ ''/'' @ name
      in bnd (GetByKey E pod) (\<lambda>obj. case obj of
           None \<Rightarrow>
             bnd (hosted (ext (Topology_Get (rest E) ns name))) (\<lambda>r. case r of
               Inl err \<Rightarrow> ret (Inl err)
             | Inr topology \<Rightarrow> bnd (new_object topology) (\<lambda>p. ret (Inr p)))
         | Some p \<Rightarrow> ret (Inr p)))"

definition updateStatus :: "'w env \<Rightarrow> ptr \<Rightarrow> string \<Rightarrow> ('w daemon, error option) go" where
  "updateStatus E p ns =
     bnd (deref p) (\<lambda>topology.
     bnd (hosted (ext (Topology_UpdateStatus (rest E) ns topology))) (\<lambda>r. case r of
       Inl err \<Rightarrow> ret (Some err)
     | Inr _ \<Rightarrow> ret None))"

definition ToProtoPod :: "Topology \<Rightarrow> error + pb_Pod" where
  "ToProtoPod topology =
     (case SpecLinks (Spec topology) of
        None \<Rightarrow> Inl (Errorf ''could not find 'Link' array in pod's spec'')
      | Some remoteLinks \<Rightarrow>
          Inr \<lparr> pod_name = Name topology,
                pod_src_ip = SrcIP (Status topology),
                pod_net_ns = NetNs (Status topology),
                pod_kube_ns = Namespace topology,
                pod_links = map Link_ToProto remoteLinks \<rparr>)"

definition Get :: "'w env \<Rightarrow> pb_PodQuery \<Rightarrow> ('w daemon, error + pb_Pod) go" where
  "Get E pod =
     orelse (getPod E (pq_name pod) (pq_kube_ns pod)) (\<lambda>p.
     bnd (deref p) (\<lambda>topology. ret (ToProtoPod topology)))"

section \<open>Marking pods alive\<close>

text \<open>\<open>v1.GroupVersion.Identifier()\<close>\<close>

definition group_version :: string where
  "group_version = ''y-young.github.io/v1''"

definition set_status :: "'w env \<Rightarrow> pb_Pod \<Rightarrow> bool \<Rightarrow> ('w daemon, error option) go" where
  "set_status E pod alive =
     bnd (getPod E (pod_name pod) (pod_kube_ns pod)) (\<lambda>r. case r of
       Inl err \<Rightarrow> ret (Some err)
     | Inr p \<Rightarrow>
         bnd (deref p) (\<lambda>topology.
         bnd (modify (\<lambda>d. d\<lparr> topologyManager :=
                (if alive then TopologyManager_Add p topology (topologyManager d)
                 else TopologyManager_Delete (Name topology) (Namespace topology) (topologyManager d)) \<rparr>)) (\<lambda>_.
         bnd (assign p (topology\<lparr> Status := (Status topology)
                \<lparr> SrcIP := pod_src_ip pod, NetNs := pod_net_ns pod \<rparr> \<rparr>)) (\<lambda>_.
         updateStatus E p (pod_kube_ns pod)))))"

definition set_finalizer :: "'w env \<Rightarrow> pb_Pod \<Rightarrow> bool \<Rightarrow> ('w daemon, error option) go" where
  "set_finalizer E pod alive =
     bnd (getPod E (pod_name pod) (pod_kube_ns pod)) (\<lambda>r. case r of
       Inl err \<Rightarrow> ret (Some err)
     | Inr p \<Rightarrow>
         bnd (deref p) (\<lambda>topology.
         let topology' = topology\<lparr> Finalizers :=
               (if alive then Finalizers topology @ [group_version] else []) \<rparr>
         in bnd (assign p topology') (\<lambda>_.
            bnd (hosted (ext (Topology_Update (rest E) (pod_kube_ns pod) topology'))) (\<lambda>r. case r of
              Inl err \<Rightarrow> ret (Some err)
            | Inr _ \<Rightarrow> ret None))))"

definition SetAlive :: "'w env \<Rightarrow> 'w retry \<Rightarrow> pb_Pod \<Rightarrow> ('w daemon, bool_response) go" where
  "SetAlive E retry pod =
     (let alive = (pod_src_ip pod \<noteq> [] \<and> pod_net_ns pod \<noteq> [])
      in bnd (retry (set_status E pod alive)) (\<lambda>retryErr. case retryErr of
           Some err \<Rightarrow> ret (False, Some err)
         | None \<Rightarrow> bnd (retry (set_finalizer E pod alive)) (\<lambda>_. ret (True, None))))"

section \<open>Remote updates\<close>

definition deref_string :: "ptr \<Rightarrow> ('w daemon, string) go" where
  "deref_string p = (\<lambda>d. case cells (netns_strings d) p of
     Some x \<Rightarrow> (Done x, d) | None \<Rightarrow> (Abort (Panic ''nil pointer dereference''), d))"

text \<open>\<open>m.vxlanManager.Add(vni, &s)\<close> with the address of a fresh string.\<close>

definition add_vni :: "int32 \<Rightarrow> string \<Rightarrow> ('w daemon, unit) go" where
  "add_vni vni netns = modify (\<lambda>d. case alloc netns (netns_strings d) of (p, h) \<Rightarrow>
     d\<lparr> netns_strings := h, vxlanManager := VxlanManager_Add vni p (vxlanManager d) \<rparr>)"

definition update_spec :: "pb_RemotePod \<Rightarrow> 'w daemon \<Rightarrow> VxlanSpec" where
  "update_spec pod d =
     \<lparr> vs_NetNs = rp_net_ns pod,
       vs_IntfName = rp_intf_name pod,
       vs_IntfIp = rp_intf_ip pod,
       vs_PeerVtep = rp_peer_vtep pod,
       vs_Vni = rp_vni pod,
       vs_SrcIp = nodeIP d,
       vs_SrcIntf = vxlanIntf d \<rparr>"

text \<open>The body of \<open>Update\<close> between taking and releasing the mutex of the link.\<close>

definition update_locked :: "'w env \<Rightarrow> bool option \<Rightarrow> pb_RemotePod \<Rightarrow> int \<Rightarrow> ('w daemon, bool_response) go" where
  "update_locked E bypass pod startTime =
     bnd (reads (\<lambda>d. VxlanManager_Get (rp_vni pod) (vxlanManager d))) (\<lambda>netns.
     bnd (case netns of
            None \<Rightarrow> ret ()
          | Some p \<Rightarrow> bnd (deref_string p) (\<lambda>old.
              if old \<noteq> rp_net_ns pod
              then bnd (hosted (RemoveLinkWithVni (net E) (rp_vni pod) old)) (\<lambda>_. ret ())
              else ret ())) (\<lambda>_.
     bnd (reads (update_spec pod)) (\<lambda>vxlanSpec.
     bnd (hosted (SetupVxLan (net E) bypass vxlanSpec (rp_properties pod))) (\<lambda>r. case r of
       Some err \<Rightarrow> ret (False, Some err)
     | None \<Rightarrow>
         bnd (add_vni (rp_vni pod) (rp_net_ns pod)) (\<lambda>_.
         bnd (observe_since E ''remoteUpdate'' startTime) (\<lambda>_. ret (True, None)))))))"

definition Update :: "'w env \<Rightarrow> bool option \<Rightarrow> pb_RemotePod \<Rightarrow> ('w daemon, bool_response) go" where
  "Update E bypass pod =
     (let uid = GetUidFromVni (rp_vni pod)
      in bnd (hosted (ext (now E))) (\<lambda>startTime.
         bnd (mutexes (Lock uid)) (\<lambda>_.
         bnd (update_locked E bypass pod startTime) (\<lambda>r.
         bnd (mutexes (Unlock uid)) (\<lambda>_. ret r)))))"

section \<open>Adding a link\<close>

definition physical_payload :: "pb_Pod \<Rightarrow> pb_Link \<Rightarrow> pb_RemotePod" where
  "physical_payload localPod link =
     \<lparr> rp_net_ns = pod_net_ns localPod,
       rp_intf_name = pb_local_intf link,
       rp_intf_ip = pb_local_ip link,
       rp_peer_vtep = TrimPrefix (pb_peer_pod link) ''physical/'',
       rp_kube_ns = pod_kube_ns localPod,
       rp_vni = GetVniFromUid (pb_uid link),
       rp_properties = pb_properties link,
       rp_name = pb_peer_pod link \<rparr>"

definition link_spec :: "pb_Pod \<Rightarrow> pb_Pod \<Rightarrow> pb_Link \<Rightarrow> 'w daemon \<Rightarrow> VxlanSpec" where
  "link_spec localPod peerPod link d =
     \<lparr> vs_NetNs = pod_net_ns localPod,
       vs_IntfName = pb_local_intf link,
       vs_IntfIp = pb_local_ip link,
       vs_PeerVtep = pod_src_ip peerPod,
       vs_Vni = GetVniFromUid (pb_uid link),
       vs_SrcIp = nodeIP d,
       vs_SrcIntf = vxlanIntf d \<rparr>"

text \<open>Both pods on this host: a veth pair, under the mutex of the link until the function returns.\<close>

definition add_same_host ::
  "'w env \<Rightarrow> bool option \<Rightarrow> pb_Pod \<Rightarrow> pb_Pod \<Rightarrow> VEth \<Rightarrow> pb_Link \<Rightarrow> int \<Rightarrow> ('w daemon, error option) go" where
  "add_same_host E bypass localPod peerPod myVeth link startTime =
     (case MakeVeth (pod_net_ns peerPod) (pb_peer_intf link) (pb_peer_ip link) (pb_peer_mac link) of
        Inl err \<Rightarrow> ret (Some err)
      | Inr peerVeth \<Rightarrow>
          bnd (mutexes (Lock (pb_uid link))) (\<lambda>_.
          bnd (check (hosted (SetupVeth (net E) bypass myVeth peerVeth link))
                 (bnd (observe_since E ''add'' startTime) (\<lambda>_. ret None))) (\<lambda>r.
          bnd (mutexes (Unlock (pb_uid link))) (\<lambda>_. ret r))))"

text \<open>Pods on different hosts: the local VXLAN end under the mutex, then the remote end without it.\<close>

definition add_other_host ::
  "'w env \<Rightarrow> bool option \<Rightarrow> pb_Pod \<Rightarrow> pb_Pod \<Rightarrow> pb_Link \<Rightarrow> int \<Rightarrow> ('w daemon, error option) go" where
  "add_other_host E bypass localPod peerPod link startTime =
     bnd (reads (link_spec localPod peerPod link)) (\<lambda>vxlanSpec.
     bnd (mutexes (Lock (pb_uid link))) (\<lambda>_.
     bnd (hosted (SetupVxLan (net E) bypass vxlanSpec (pb_properties link))) (\<lambda>r. case r of
       Some err \<Rightarrow> bnd (mutexes (Unlock (pb_uid link))) (\<lambda>_. ret (Some err))
     | None \<Rightarrow>
         bnd (add_vni (vs_Vni vxlanSpec) (vs_NetNs vxlanSpec)) (\<lambda>_.
         bnd (mutexes (Unlock (pb_uid link))) (\<lambda>_.
         check (hosted (UpdateRemote (rpc E) localPod peerPod link))
           (bnd (observe_since E ''add'' startTime) (\<lambda>_. ret None)))))))"

text \<open>The peer is a pod: nothing to do until it is alive.\<close>

definition add_virtual ::
  "'w env \<Rightarrow> bool option \<Rightarrow> pb_Pod \<Rightarrow> VEth \<Rightarrow> pb_Link \<Rightarrow> int \<Rightarrow> ('w daemon, error option) go" where
  "add_virtual E bypass localPod myVeth link startTime =
     bnd (getPod E (pb_peer_pod link) (pod_kube_ns localPod)) (\<lambda>r. case r of
       Inl err \<Rightarrow> ret (Some err)
     | Inr p \<Rightarrow>
         bnd (deref p) (\<lambda>peerTopology. case ToProtoPod peerTopology of
           Inl err \<Rightarrow> ret (Some err)
         | Inr peerPod \<Rightarrow>
             if \<not> (pod_src_ip peerPod \<noteq> [] \<and> pod_net_ns peerPod \<noteq> []) then ret None
             else if pod_src_ip peerPod = pod_src_ip localPod
             then add_same_host E bypass localPod peerPod myVeth link startTime
             else add_other_host E bypass localPod peerPod link startTime))"

definition addLink :: "'w env \<Rightarrow> pb_Pod \<Rightarrow> pb_Link \<Rightarrow> ('w daemon, error option) go" where
  "addLink E localPod link =
     bnd (reads (\<lambda>d. Some (TCPIPBypass d))) (\<lambda>bypass.
     bnd (hosted (ext (now E))) (\<lambda>startTime.
     case MakeVeth (pod_net_ns localPod) (pb_local_intf link) (pb_local_ip link) (pb_local_mac link) of
       Inl err \<Rightarrow> ret (Some err)
     | Inr myVeth \<Rightarrow>
         if pb_peer_pod link = Localhost
         then hosted (ext (nl_MakeMacVLan (net E) myVeth
                \<lparr> mv_ParentIF = pb_peer_intf link, mv_Mode = MacvlanMode E \<rparr>))
         else if HasPrefix (pb_peer_pod link) ''physical/''
         then bnd (Update E bypass (physical_payload localPod link)) (\<lambda>(response, err).
                if \<not> response \<or> err \<noteq> None then ret err else ret None)
         else add_virtual E bypass localPod myVeth link startTime))"

section \<open>Deleting a link\<close>

text \<open>The identifier is forgotten if it belongs to the pod's namespace.\<close>

definition forget_vni :: "int32 \<Rightarrow> string \<Rightarrow> ('w daemon, unit) go" where
  "forget_vni vni podNetNs =
     bnd (reads (\<lambda>d. VxlanManager_Get vni (vxlanManager d))) (\<lambda>netns. case netns of
       None \<Rightarrow> ret ()
     | Some p \<Rightarrow> bnd (deref_string p) (\<lambda>x.
         if x = podNetNs
         then modify (\<lambda>d. d\<lparr> vxlanManager := VxlanManager_Delete vni (vxlanManager d) \<rparr>)
         else ret ()))"

definition delLink :: "'w env \<Rightarrow> pb_Pod \<Rightarrow> pb_Link \<Rightarrow> ('w daemon, error option) go" where
  "delLink E localPod link =
     bnd (hosted (ext (now E))) (\<lambda>startTime.
     case MakeVeth (pod_net_ns localPod) (pb_local_intf link) (pb_local_ip link) (pb_local_mac link) of
       Inl err \<Rightarrow> ret (Some err)
     | Inr myVeth \<Rightarrow>
         bnd (hosted (ext (nl_RemoveVethLink (net E) myVeth))) (\<lambda>_.
         bnd (forget_vni (GetVniFromUid (pb_uid link)) (pod_net_ns localPod)) (\<lambda>_.
         bnd (observe_since E ''del'' startTime) (\<lambda>_. ret None))))"

section \<open>Batches\<close>

text \<open>A loop over links that returns the first error.\<close>

fun foreach :: "('a \<Rightarrow> ('s, error option) go) \<Rightarrow> 'a list \<Rightarrow> ('s, error option) go" where
  "foreach step [] = ret None"
| "foreach step (x # xs) = check (step x) (foreach step xs)"

definition respond :: "('s, error option) go \<Rightarrow> ('s, bool_response) go" where
  "respond m = bnd m (\<lambda>r. case r of Some err \<Rightarrow> ret (False, Some err) | None \<Rightarrow> ret (True, None))"

text \<open>
  The handlers of batches read the name of the pod of the query for their log before anything else;
  the pod is a nil pointer if the message has no such field.
\<close>

definition with_pod :: "pb_Pod option \<Rightarrow> (pb_Pod \<Rightarrow> ('s, 'a) go) \<Rightarrow> ('s, 'a) go" where
  "with_pod pod f = (case pod of None \<Rightarrow> halt (Panic ''nil pointer dereference'') | Some localPod \<Rightarrow> f localPod)"

lemma with_pod_simps [simp]:
  "with_pod None f = halt (Panic ''nil pointer dereference'')"
  "with_pod (Some pod) f = f pod"
  by (simp_all add: with_pod_def)

definition AddLinks :: "'w env \<Rightarrow> pb_LinksBatchQuery \<Rightarrow> ('w daemon, bool_response) go" where
  "AddLinks E query = with_pod (lbq_local_pod query) (\<lambda>localPod.
     respond (foreach (addLink E localPod) (lbq_links query)))"

definition DelLinks :: "'w env \<Rightarrow> pb_LinksBatchQuery \<Rightarrow> ('w daemon, bool_response) go" where
  "DelLinks E query = with_pod (lbq_local_pod query) (\<lambda>localPod.
     respond (foreach (delLink E localPod) (lbq_links query)))"

definition updateLink :: "'w env \<Rightarrow> pb_Pod \<Rightarrow> pb_Link \<Rightarrow> ('w daemon, error option) go" where
  "updateLink E localPod link =
     bnd (reads (\<lambda>d. Some (TCPIPBypass d))) (\<lambda>bypass.
     bnd (hosted (ext (now E))) (\<lambda>startTime.
     case MakeVeth (pod_net_ns localPod) (pb_local_intf link) (pb_local_ip link) (pb_local_mac link) of
       Inl err \<Rightarrow> ret (Some err)
     | Inr myVeth \<Rightarrow>
         (case MakeQdiscs (net E) (pb_properties link) of
            Inl err \<Rightarrow> ret (Some err)
          | Inr qdiscs \<Rightarrow>
              check (hosted (SetVethQdiscs (net E) bypass myVeth qdiscs))
                (bnd (observe_since E ''update'' startTime) (\<lambda>_. ret None)))))"

definition UpdateLinks :: "'w env \<Rightarrow> pb_LinksBatchQuery \<Rightarrow> ('w daemon, bool_response) go" where
  "UpdateLinks E query = with_pod (lbq_local_pod query) (\<lambda>localPod.
     respond (foreach (updateLink E localPod) (lbq_links query)))"

section \<open>Pods\<close>

definition SetupPod :: "'w env \<Rightarrow> 'w retry \<Rightarrow> pb_SetupPodQuery \<Rightarrow> ('w daemon, bool_response) go" where
  "SetupPod E retry pod =
     bnd (Get E \<lparr> pq_name = spq_name pod, pq_kube_ns = spq_kube_ns pod \<rparr>) (\<lambda>r. case r of
       Inl err \<Rightarrow> ret (True, None)
     | Inr pod0 \<Rightarrow>
         bnd (reads nodeIP) (\<lambda>ip.
         let localPod = pod0\<lparr> pod_net_ns := spq_net_ns pod, pod_src_ip := ip \<rparr>
         in bnd (SetAlive E retry localPod) (\<lambda>(response, err).
              if err \<noteq> None \<or> \<not> response then ret (False, err)
              else bnd (AddLinks E \<lparr> lbq_local_pod = Some localPod, lbq_links = pod_links localPod \<rparr>) (\<lambda>(response, err).
                     if err \<noteq> None \<or> \<not> response then ret (False, err) else ret (True, None)))))"

definition destroy_wire :: "pb_PodQuery \<Rightarrow> pb_WireDef" where
  "destroy_wire pod =
     \<lparr> wd_peer_intf_id = 0, wd_peer_ip = [], wd_intf_name_in_pod = [], wd_local_pod_net_ns = [],
       wd_link_uid = 0, wd_local_pod_name = pq_name pod, wd_veth_name_local_host = [],
       wd_kube_ns = pq_kube_ns pod, wd_local_pod_ip = [] \<rparr>"

definition DestroyPod :: "'w env \<Rightarrow> 'w retry \<Rightarrow> pb_PodQuery \<Rightarrow> ('w daemon, bool_response) go" where
  "DestroyPod E retry pod =
     bnd (modify (\<lambda>d. d\<lparr> topologyManager :=
            TopologyManager_Delete (pq_name pod) (pq_kube_ns pod) (topologyManager d) \<rparr>)) (\<lambda>_.
     bnd (wired (RemGRPCWire (net E) (errlist E) (order E) (destroy_wire pod))) (\<lambda>(response, err).
     if err \<noteq> None \<or> \<not> response
     then ret (False, Some (case err of Some e \<Rightarrow> Wrap ''could not remove grpc wire: '' e
                                      | None \<Rightarrow> Errorf ''could not remove grpc wire: <nil>''))
     else bnd (Get E pod) (\<lambda>r. case r of
       Inl err \<Rightarrow> ret (False, None)
     | Inr pod0 \<Rightarrow>
         let localPod = pod0\<lparr> pod_net_ns := [], pod_src_ip := [] \<rparr>
         in bnd (SetAlive E retry localPod) (\<lambda>(_, err). case err of
              Some e \<Rightarrow> ret (False, Some (Wrap ''could not set alive status: '' e))
            | None \<Rightarrow>
                bnd (DelLinks E \<lparr> lbq_local_pod = Some localPod, lbq_links = pod_links localPod \<rparr>) (\<lambda>(response, err).
                  if err \<noteq> None \<or> \<not> response then ret (False, err) else ret (True, None))))))"

end
