(* ===== verification/Services.thy ===== *)
theory Services
  imports Daemon
begin

text \<open>
  The handlers of a daemon as the answers to gRPC calls: gRPC delivers the error of a handler or its
  response, and an error of its own if the daemon dies before it answers. \<open>daemon_rpcs\<close> is the record
  of calls, as the clients use it, that one daemon answers.

  A handler that waits for a mutex for ever gives no answer, and the call does not return
  (\<open>await\<close>, for the calls of the plugin). The calls of the controller are total functions of the cluster;
  for them \<open>answer\<close> puts an error in that place, which no statement about successful calls can meet.
  With no mutex held when the call starts no handler waits, as \<open>Handlers\<close> shows.
\<close>

definition await :: "('s, bool_response) go \<Rightarrow> ('s, error + bool) go" where
  "await m s =
     (case m s of
        (Done (response, None), t) \<Rightarrow> (Done (Inr response), t)
      | (Done (response, Some e), t) \<Rightarrow> (Done (Inl e), t)
      | (Abort Blocked, t) \<Rightarrow> (Abort Blocked, t)
      | (Abort x, t) \<Rightarrow> (Done (Inl (ExtError ''transport is closing'')), t))"

definition answer :: "('w daemon, bool_response) go \<Rightarrow> 'w daemon \<Rightarrow> (error + bool) \<times> 'w daemon" where
  "answer m d =
     (case await m d of
        (Done r, d') \<Rightarrow> (r, d')
      | (Abort x, d') \<Rightarrow> (Inl (ExtError ''no answer''), d'))"

definition daemon_rpcs :: "'w env \<Rightarrow> 'w retry \<Rightarrow> ('w daemon) rpcs" where
  "daemon_rpcs E retry =
     \<lparr> rpc_Dial = (\<lambda>u d. (None, d)),
       rpc_AddLinks = (\<lambda>u q. answer (AddLinks E q)),
       rpc_DelLinks = (\<lambda>u q. answer (DelLinks E q)),
       rpc_UpdateLinks = (\<lambda>u q. answer (UpdateLinks E q)),
       rpc_SetupPod = (\<lambda>u q. await (SetupPod E retry q)),
       rpc_DestroyPod = (\<lambda>u q. await (DestroyPod E retry q)) \<rparr>"

lemma answer_Inr_iff: "answer m d = (Inr response, d') \<longleftrightarrow> m d = (Done (response, None), d')"
  by (auto simp: answer_def await_def split: prod.splits out.splits option.splits abort.splits)

lemma respond_None: "respond m d = (Done (response, None), d') \<longleftrightarrow> response \<and> m d = (Done None, d')"
  by (auto simp: respond_def bnd_def ret_run split: prod.splits out.splits option.splits)

end
