(* ===== verification/Handlers.thy ===== *)
theory Handlers
  imports Daemon
begin

text \<open>
  Properties of the daemon's handlers: which mutexes they hold, how batches of links are processed, what
  setting up and destroying a pod does.
\<close>

section \<open>Functions that end with a panic at worst\<close>

definition panics :: "('s, 'a) go \<Rightarrow> bool" where
  "panics m \<longleftrightarrow> (\<forall>s x. fst (m s) = Abort x \<longrightarrow> (\<exists>t. x = Panic t))"

lemma panics_returns: "returns m \<Longrightarrow> panics m"
  unfolding panics_def returns_def by (metis out.distinct(1))

lemma panics_bnd:
  assumes "panics m" "\<And>a. panics (f a)"
  shows "panics (bnd m f)"
  unfolding panics_def
proof (intro allI impI)
  fix s x
  assume ab: "fst (bnd m f s) = Abort x"
  obtain r u where run: "bnd m f s = (r, u)" by fastforce
  then show "\<exists>t. x = Panic t"
  proof (cases rule: bnd_cases)
    case (Done a t)
    with ab run have "fst (f a t) = Abort x" by simp
    with assms(2) show ?thesis by (simp add: panics_def)
  next
    case (Abort y)
    with ab run have "fst (m s) = Abort x" by simp
    with assms(1) show ?thesis by (simp add: panics_def)
  qed
qed

lemma panics_simps [simp]:
  "panics (ret a)" "panics (halt (Panic t))" "panics (ext g)" "panics (reads h)" "panics (modify k)"
  by (simp_all add: panics_def ret_run halt_run ext_run)

lemma panics_orelse: "panics m \<Longrightarrow> (\<And>a. panics (f a)) \<Longrightarrow> panics (orelse m f)"
  unfolding orelse_def by (rule panics_bnd) (auto split: sum.splits)

lemma panics_check: "panics m \<Longrightarrow> panics f \<Longrightarrow> panics (check m f)"
  unfolding check_def by (rule panics_bnd) (auto split: option.splits)

lemma panics_zoom: "panics m \<Longrightarrow> panics (zoom g p m)"
  by (simp add: panics_def zoom_run)

lemma panics_with_state [simp]: "panics (with_state f)"
  by (simp add: panics_def with_state_def split: prod.splits)

lemma panics_on_host [simp]: "panics (on_host (ext f))"
  by (simp add: on_host_def panics_zoom)

lemmas panics_rules = panics_bnd panics_orelse panics_check panics_zoom

lemma panics_SetupVxLan: "panics (SetupVxLan N bypass v p)"
proof -
  have "panics (vxlan_source N v)"
    unfolding vxlan_source_def GetDefaultVxlanSource_def GetVxlanSource_def
    by (auto intro!: panics_rules split: option.splits list.splits sum.splits)
  moreover have "panics (make_vxlan N v veth x)" for veth x
    unfolding make_vxlan_def
    by (auto intro!: panics_rules panics_returns go_rules split: option.splits)
  then have "panics (update_link N v veth x l)" for veth x l
    unfolding update_link_def by (auto intro!: panics_rules split: option.splits nlink.splits)
  ultimately have "panics (CreateOrUpdate N v)"
    unfolding CreateOrUpdate_def
    by (auto intro!: panics_rules panics_returns [OF returns_getLinkFromNS] split: prod.splits)
  then show ?thesis
    unfolding SetupVxLan_def
    by (auto intro!: panics_rules panics_returns [OF returns_SetVethQdiscs] split: sum.splits)
qed

lemma panics_RemGRPCWire: "panics (RemGRPCWire N el ord d)"
proof -
  have "panics (close_chan c)" for c
    by (auto simp: panics_def close_chan_def split: if_splits)
  then have "panics (RemoveWire N w)" for w
    unfolding RemoveWire_def
    by (auto intro!: panics_rules split: option.splits sum.splits)
  then have "panics (remove_wires_loop N ws errs)" for ws errs
    by (induction ws arbitrary: errs) (auto intro!: panics_rules split: option.splits)
  then show ?thesis
    unfolding RemGRPCWire_def DeleteWiresByPod_def
    by (auto intro!: panics_rules split: option.splits)
qed

section \<open>Mutexes\<close>

text \<open>A function that leaves the mutexes alone.\<close>

definition lockless :: "('w daemon, 'a) go \<Rightarrow> bool" where
  "lockless m \<longleftrightarrow> unchanged linkMutexes m \<and> panics m"

text \<open>
  \<open>locking H K B m\<close>: called with the mutexes \<open>H\<close> held, \<open>m\<close> returns with \<open>K\<close> held, or panics, or, only
  if \<open>B\<close>, waits forever.
\<close>

definition locking :: "int64 set \<Rightarrow> int64 set \<Rightarrow> bool \<Rightarrow> ('w daemon, 'a) go \<Rightarrow> bool" where
  "locking H K B m \<longleftrightarrow> (\<forall>d r d'. held (linkMutexes d) = H \<longrightarrow> m d = (r, d') \<longrightarrow>
     (\<forall>a. r = Done a \<longrightarrow> held (linkMutexes d') = K)
     \<and> (\<forall>x. r = Abort x \<longrightarrow> (\<exists>t. x = Panic t) \<or> x = Blocked \<and> B))"

lemma lockingD:
  "locking H K B m \<Longrightarrow> held (linkMutexes d) = H \<Longrightarrow> m d = (r, d') \<Longrightarrow>
   (\<forall>a. r = Done a \<longrightarrow> held (linkMutexes d') = K) \<and> (\<forall>x. r = Abort x \<longrightarrow> (\<exists>t. x = Panic t) \<or> x = Blocked \<and> B)"
  by (simp add: locking_def)

text \<open>
  A function that, if it returns, holds the mutexes it held before; that waits only if some mutex was
  held before; and that never unlocks a mutex it does not hold.
\<close>

definition locks_ok :: "('w daemon, 'a) go \<Rightarrow> bool" where
  "locks_ok m \<longleftrightarrow> (\<forall>H. locking H H (H \<noteq> {}) m)"

lemma lockless_locking:
  assumes "lockless m"
  shows "locking H H B m"
  unfolding locking_def
proof (intro allI impI)
  fix d r d'
  assume H: "held (linkMutexes d) = H" and run: "m d = (r, d')"
  have "linkMutexes d' = linkMutexes d" 
    using unchangedD [of linkMutexes m d r d'] assms run by (simp add: lockless_def)
  moreover have "\<exists>t. x = Panic t" if "r = Abort x" for x
  proof -
    have "fst (m d) = Abort x" using run that by simp
    with assms show ?thesis unfolding lockless_def panics_def by blast
  qed
  ultimately show "(\<forall>a. r = Done a \<longrightarrow> held (linkMutexes d') = H)
     \<and> (\<forall>x. r = Abort x \<longrightarrow> (\<exists>t. x = Panic t) \<or> x = Blocked \<and> B)"
    using H by auto
qed

lemma locking_bnd:
  assumes "locking H K B m" "\<And>a. locking K L B (f a)"
  shows "locking H L B (bnd m f)"
  unfolding locking_def
proof (intro allI impI)
  fix d r d'
  assume H: "held (linkMutexes d) = H" and run: "bnd m f d = (r, d')"
  from run show "(\<forall>a. r = Done a \<longrightarrow> held (linkMutexes d') = L)
     \<and> (\<forall>x. r = Abort x \<longrightarrow> (\<exists>t. x = Panic t) \<or> x = Blocked \<and> B)"
  proof (cases rule: bnd_cases)
    case (Done a t)
    then have "held (linkMutexes t) = K" using assms(1) H unfolding locking_def by blast
    with assms(2) [of a] Done(2) show ?thesis unfolding locking_def by blast
  next
    case (Abort x)
    with assms(1) H show ?thesis unfolding locking_def by blast
  qed
qed

lemma locking_unlock: "k \<in> H \<Longrightarrow> locking H (H - {k}) B (mutexes (Unlock k))"
  by (auto simp: locking_def mutexes_def zoom_run Unlock_held)

lemma locking_lock:
  assumes "k \<notin> H \<Longrightarrow> locking (insert k H) H B (f ())" and "k \<in> H \<Longrightarrow> B"
  shows "locking H H B (bnd (mutexes (Lock k)) f)"
  unfolding locking_def
proof (intro allI impI)
  fix d r d'
  assume H: "held (linkMutexes d) = H" and run: "bnd (mutexes (Lock k)) f d = (r, d')"
  show "(\<forall>a. r = Done a \<longrightarrow> held (linkMutexes d') = H)
     \<and> (\<forall>x. r = Abort x \<longrightarrow> (\<exists>t. x = Panic t) \<or> x = Blocked \<and> B)"
  proof (cases "k \<in> H")
    case True
    with H run assms(2) show ?thesis by (auto simp: mutexes_def bnd_def zoom_run Lock_held)
  next
    case False
    with H run have "f () (d\<lparr> linkMutexes := (linkMutexes d)(k \<mapsto> True) \<rparr>) = (r, d')"
      by (simp add: mutexes_def bnd_def zoom_run Lock_free)
    then show ?thesis by (rule lockingD [OF assms(1) [OF False], rotated]) (simp add: H)
  qed
qed

lemma lockless_bnd: "lockless m \<Longrightarrow> (\<And>a. lockless (f a)) \<Longrightarrow> lockless (bnd m f)"
  by (simp add: lockless_def panics_bnd unchanged_bnd)

lemma lockless_check: "lockless m \<Longrightarrow> lockless f \<Longrightarrow> lockless (check m f)"
  by (simp add: lockless_def panics_check unchanged_check)

lemma lockless_orelse: "lockless m \<Longrightarrow> (\<And>a. lockless (f a)) \<Longrightarrow> lockless (orelse m f)"
  by (simp add: lockless_def panics_orelse unchanged_orelse)

lemma lockless_simps [simp]: "lockless (ret a)" "lockless (reads f)"
  by (simp_all add: lockless_def)

lemma lockless_panic: "lockless (halt (Panic t))"
  by (simp add: lockless_def panics_def halt_run)

lemma lockless_hosted: "panics m \<Longrightarrow> lockless (hosted m)"
  by (simp add: lockless_def hosted_def panics_zoom unchanged_def zoom_run)

lemma lockless_hosted_ext [simp]: "lockless (hosted (ext f))"
  by (rule lockless_hosted) simp

lemma lockless_wired: "panics m \<Longrightarrow> lockless (wired m)"
  by (simp add: lockless_def wired_def panics_zoom unchanged_def zoom_run split: prod.splits)

lemma lockless_modify: "(\<And>d. linkMutexes (f d) = linkMutexes d) \<Longrightarrow> lockless (modify f)"
  by (simp add: lockless_def unchanged_def)

lemma deliver_mutexes [simp]: "linkMutexes (deliver es d) = linkMutexes d"
  by (induction es d rule: deliver.induct) (simp_all add: alloc_def)

lemma lockless_cells [simp]:
  "lockless (deref p)" "lockless (new_object t)" "lockless (assign p t)" "lockless (deref_string q)"
  "lockless (add_vni vni n)" "lockless (GetByKey E key)" "lockless (observe_since E method t0)"
  by (auto simp: deref_def new_object_def assign_def deref_string_def add_vni_def GetByKey_def
      observe_since_def Observe_def alloc_def intro!: lockless_bnd lockless_modify)
    (auto simp: lockless_def unchanged_def panics_def alloc_def split: option.splits)

lemmas lockless_rules = lockless_bnd lockless_check lockless_orelse lockless_modify

lemma lockless_getPod [simp]: "lockless (getPod E name ns)"
  unfolding getPod_def Let_def by (auto intro!: lockless_rules split: option.splits sum.splits)

lemma lockless_retry: "retry_ok retry \<Longrightarrow> lockless f \<Longrightarrow> lockless (retry f)"
proof -
  assume "retry_ok retry" and f: "lockless f"
  then obtain n where "retry f = retry_times n f" unfolding retry_ok_def by blast
  moreover have "lockless (retry_times n f)"
    by (induction n) (auto intro!: lockless_rules f)
  ultimately show ?thesis by simp
qed

lemma lockless_Get [simp]: "lockless (Get E q)"
  unfolding Get_def by (auto intro!: lockless_rules)

lemma lockless_SetAlive:
  assumes "retry_ok retry"
  shows "lockless (SetAlive E retry pod)"
  unfolding SetAlive_def set_status_def set_finalizer_def updateStatus_def Let_def
  by (auto intro!: lockless_rules lockless_retry [OF assms] split: option.splits sum.splits)

lemma lockless_delLink: "lockless (delLink E pod link)"
  unfolding delLink_def forget_vni_def by (auto intro!: lockless_rules split: option.splits sum.splits)

lemma lockless_updateLink: "lockless (updateLink E pod link)"
  unfolding updateLink_def
  by (auto intro!: lockless_rules lockless_hosted panics_returns go_rules split: sum.splits)

text \<open>The two shapes of a locked section: released at the end, or in the middle.\<close>

lemma locking_unlock_then: "k \<notin> H \<Longrightarrow> lockless (f ()) \<Longrightarrow> locking (insert k H) H B (bnd (mutexes (Unlock k)) f)"
  using locking_bnd [OF locking_unlock [of k "insert k H" B], of H f] lockless_locking [of "f ()" H B]
  by simp

lemma locks_ok_lockless: "lockless m \<Longrightarrow> locks_ok m"
  by (simp add: locks_ok_def lockless_locking)

lemma locks_ok_bnd: "locks_ok m \<Longrightarrow> (\<And>a. locks_ok (f a)) \<Longrightarrow> locks_ok (bnd m f)"
  unfolding locks_ok_def by (auto intro: locking_bnd)

lemma locks_ok_check: "locks_ok m \<Longrightarrow> locks_ok f \<Longrightarrow> locks_ok (check m f)"
  unfolding check_def by (rule locks_ok_bnd) (auto intro!: locks_ok_lockless split: option.splits)

lemma locks_ok_lock: "(\<And>H B. k \<notin> H \<Longrightarrow> locking (insert k H) H B (f ())) \<Longrightarrow> locks_ok (bnd (mutexes (Lock k)) f)"
  unfolding locks_ok_def by (auto intro: locking_lock)

section \<open>The handlers release what they take\<close>

lemma locks_ok_Update: "locks_ok (Update E bypass pod)"
proof -
  have "lockless (update_locked E bypass pod t0)" for t0
    unfolding update_locked_def
    by (auto intro!: lockless_rules lockless_hosted panics_SetupVxLan panics_returns go_rules
        split: option.splits)
  then show ?thesis
    unfolding Update_def Let_def
    by (intro locks_ok_bnd locks_ok_lock locking_bnd [OF lockless_locking] locking_unlock_then)
      (simp_all add: locks_ok_lockless)
qed

lemma locks_ok_same_host: "locks_ok (add_same_host E bypass pod peer veth link t0)"
proof (cases "MakeVeth (pod_net_ns peer) (pb_peer_intf link) (pb_peer_ip link) (pb_peer_mac link)")
  case (Inl e)
  then show ?thesis by (simp add: add_same_host_def locks_ok_lockless)
next
  case (Inr v)
  have "lockless (check (hosted (SetupVeth (net E) bypass veth v link))
      (bnd (observe_since E ''add'' t0) (\<lambda>_. ret None)))"
    by (auto intro!: lockless_rules lockless_hosted panics_returns go_rules)
  then show ?thesis
    unfolding add_same_host_def Inr sum.case
    by (intro locks_ok_lock locking_bnd [OF lockless_locking] locking_unlock_then) simp_all
qed

lemma locks_ok_other_host: "locks_ok (add_other_host E bypass pod peer link t0)"
proof -
  have rest: "lockless (check (hosted (UpdateRemote (rpc E) pod peer link))
      (bnd (observe_since E ''add'' t0) (\<lambda>_. ret None)))"
    by (auto intro!: lockless_rules lockless_hosted panics_returns go_rules)
  have "locking (insert (pb_uid link) H) H B (case r of
       Some err \<Rightarrow> bnd (mutexes (Unlock (pb_uid link))) (\<lambda>_. ret (Some err))
     | None \<Rightarrow>
         bnd (add_vni (vs_Vni spec) (vs_NetNs spec)) (\<lambda>_.
         bnd (mutexes (Unlock (pb_uid link))) (\<lambda>_.
         check (hosted (UpdateRemote (rpc E) pod peer link))
           (bnd (observe_since E ''add'' t0) (\<lambda>_. ret None)))))"
    if "pb_uid link \<notin> H" for H B r spec
    using that rest
    by (cases r) (auto intro!: locking_unlock_then locking_bnd [OF lockless_locking [of "add_vni _ _"]])
  then show ?thesis
    unfolding add_other_host_def
    by (intro locks_ok_bnd [OF locks_ok_lockless [of "reads _"]] locks_ok_lock
        locking_bnd [OF lockless_locking [OF lockless_hosted [OF panics_SetupVxLan]]]) simp_all
qed

lemma locks_ok_virtual: "locks_ok (add_virtual E bypass pod veth link t0)"
  unfolding add_virtual_def
  by (intro locks_ok_bnd [OF locks_ok_lockless [OF lockless_getPod]])
    (auto intro!: locks_ok_bnd [OF locks_ok_lockless [of "deref _"]] locks_ok_same_host locks_ok_other_host
      locks_ok_lockless [of "ret _"] split: sum.splits)

lemma locks_ok_addLink: "locks_ok (addLink E pod link)"
  unfolding addLink_def
  by (intro locks_ok_bnd [OF locks_ok_lockless [of "reads _"]] locks_ok_bnd [OF locks_ok_lockless [of "hosted _"]])
    (auto intro!: locks_ok_bnd [OF locks_ok_Update] locks_ok_virtual locks_ok_lockless [of "ret _"]
      locks_ok_lockless [of "hosted _"] split: sum.splits)

section \<open>Batches of links\<close>

lemma foreach_append: "foreach step (xs @ ys) = check (foreach step xs) (foreach step ys)"
proof (induction xs)
  case Nil
  then show ?case by simp
next
  case (Cons x xs)
  have "check m (check f g) = check (check m f) g" for m f g :: "('c, error option) go"
    by (auto simp: check_def bnd_def fun_eq_iff ret_run split: prod.splits out.splits option.splits)
  with Cons show ?case by simp
qed

text \<open>Either every step succeeds, or the steps before the first failing one did and the rest never ran.\<close>

lemma foreach_result:
  assumes "foreach step xs s = (Done r, t)"
  shows "case r of
      None \<Rightarrow> \<forall>n \<le> length xs. \<exists>u. foreach step (take n xs) s = (Done None, u)
    | Some e \<Rightarrow> \<exists>pre x post u. xs = pre @ x # post \<and> foreach step pre s = (Done None, u) \<and> step x u = (Done (Some e), t)"
  using assms
proof (induction xs arbitrary: s)
  case Nil
  then show ?case by (auto simp: ret_run)
next
  case (Cons x xs)
  from Cons.prems have "bnd (step x) (\<lambda>r. case r of Some e \<Rightarrow> ret (Some e) | None \<Rightarrow> foreach step xs) s = (Done r, t)"
    by (simp add: check_def)
  then obtain a u where a: "step x s = (Done a, u)"
    and k: "(case a of Some e \<Rightarrow> ret (Some e) | None \<Rightarrow> foreach step xs) u = (Done r, t)"
    by (cases rule: bnd_cases) auto
  show ?case
  proof (cases a)
    case (Some e)
    with a k show ?thesis by (fastforce simp: ret_run intro!: exI [of _ "[]"])
  next
    case None
    with k have rec: "foreach step xs u = (Done r, t)" by simp
    have run: "foreach step (x # ys) s = foreach step ys u" for ys using a None by simp
    show ?thesis
    proof (cases r)
      case None
      with Cons.IH [OF rec] have "\<exists>v. foreach step (take n xs) u = (Done None, v)" if "n \<le> length xs" for n
        using that by simp
      then have "\<exists>v. foreach step (take n (x # xs)) s = (Done None, v)" if "n \<le> length (x # xs)" for n
        using that run by (cases n) (simp_all add: ret_run del: foreach.simps(2))
      with None show ?thesis by simp
    next
      case (Some e)
      then obtain pre y post v where "xs = pre @ y # post" "foreach step pre u = (Done None, v)" "step y v = (Done (Some e), t)"
        using Cons.IH [OF rec] by auto
      with Some run show ?thesis by (auto intro!: exI [of _ "x # pre"] simp del: foreach.simps(2))
    qed
  qed
qed

text \<open>
  The contract of a batch handler: it runs its step on each link of the query. From it follow the
  meaning of the response and, if each step keeps the mutexes, that the handler does.
\<close>

locale link_batch =
  fixes step :: "pb_Pod \<Rightarrow> 'l \<Rightarrow> ('s, error option) go"
    and pod :: "'q \<Rightarrow> pb_Pod option"
    and links :: "'q \<Rightarrow> 'l list"
    and handler :: "'q \<Rightarrow> ('s, bool_response) go"
  assumes handler_loop: "handler q = with_pod (pod q) (\<lambda>p. respond (foreach (step p) (links q)))"
begin

lemma handler_cases:
  assumes "handler q s = (Done (response, err), t)"
  shows "\<exists>p. pod q = Some p \<and> foreach (step p) (links q) s = (Done err, t) \<and> (response \<longleftrightarrow> err = None)"
  using assms unfolding handler_loop respond_def
  by (cases "pod q") (auto simp: ret_run halt_run split: option.splits elim!: bnd_cases)

lemma handler_outcome:
  assumes "handler q s = (Done (response, err), t)"
  shows "\<exists>p. pod q = Some p \<and> (response \<longleftrightarrow> err = None) \<and>
    (case err of
       None \<Rightarrow> \<forall>n \<le> length (links q). \<exists>u. foreach (step p) (take n (links q)) s = (Done None, u)
     | Some e \<Rightarrow> \<exists>pre link post u. links q = pre @ link # post \<and> foreach (step p) pre s = (Done None, u)
         \<and> step p link u = (Done (Some e), t))"
  using handler_cases [OF assms] foreach_result [of "step _" "links q" s err t] by blast

end

locale locked_batch = link_batch step pod links handler
  for step :: "pb_Pod \<Rightarrow> 'l \<Rightarrow> ('w daemon, error option) go"
    and pod :: "'q \<Rightarrow> pb_Pod option"
    and links :: "'q \<Rightarrow> 'l list"
    and handler :: "'q \<Rightarrow> ('w daemon, bool_response) go" +
  assumes step_locks: "locks_ok (step p l)"
begin

lemma loop_locks: "locks_ok (foreach (step p) ls)"
  by (induction ls) (auto intro!: locks_ok_check step_locks locks_ok_lockless [of "ret _"])

lemma handler_locks: "locks_ok (handler q)"
proof (cases "pod q")
  case None
  then show ?thesis by (auto simp: handler_loop intro!: locks_ok_lockless lockless_panic)
next
  case (Some p)
  show ?thesis unfolding handler_loop Some respond_def with_pod_simps
    by (rule locks_ok_bnd [OF loop_locks]) (auto intro!: locks_ok_lockless split: option.splits)
qed

end

interpretation add_batch: locked_batch "addLink E" lbq_local_pod lbq_links "AddLinks E" for E
  by unfold_locales (simp_all add: AddLinks_def locks_ok_addLink)

interpretation del_batch: locked_batch "delLink E" lbq_local_pod lbq_links "DelLinks E" for E
  by unfold_locales (simp_all add: DelLinks_def locks_ok_lockless lockless_delLink)

interpretation update_batch: locked_batch "updateLink E" lbq_local_pod lbq_links "UpdateLinks E" for E
  by unfold_locales (simp_all add: UpdateLinks_def locks_ok_lockless lockless_updateLink)

text \<open>
  \<open>AddLinks\<close> reports success exactly if it returns no error. If it returns an error, that is the
  error of one link, all links before it were added without error, and no link after it was touched.
\<close>

theorem AddLinks_outcome:
  assumes "AddLinks E query d = (Done (response, err), d')"
  shows "\<exists>localPod. lbq_local_pod query = Some localPod \<and> (response \<longleftrightarrow> err = None) \<and>
    (case err of
       None \<Rightarrow> \<forall>n \<le> length (lbq_links query). \<exists>u.
         foreach (addLink E localPod) (take n (lbq_links query)) d = (Done None, u)
     | Some e \<Rightarrow> \<exists>pre link post u. lbq_links query = pre @ link # post
         \<and> foreach (addLink E localPod) pre d = (Done None, u)
         \<and> addLink E localPod link u = (Done (Some e), d'))"
  using assms by (rule add_batch.handler_outcome)

section \<open>All handlers\<close>

lemma locks_ok_SetupPod:
  assumes "retry_ok retry"
  shows "locks_ok (SetupPod E retry pod)"
  unfolding SetupPod_def Let_def
  by (rule locks_ok_bnd [OF locks_ok_lockless [OF lockless_Get]])
    (auto intro!: locks_ok_bnd [OF locks_ok_lockless [of "reads _"]]
      locks_ok_bnd [OF locks_ok_lockless [OF lockless_SetAlive [OF assms]]] locks_ok_bnd [OF add_batch.handler_locks]
      locks_ok_lockless [of "ret _"] split: sum.splits)

lemma locks_ok_DestroyPod:
  assumes "retry_ok retry"
  shows "locks_ok (DestroyPod E retry pod)"
  unfolding DestroyPod_def Let_def
  by (rule locks_ok_bnd [OF locks_ok_lockless [OF lockless_modify]])
    (auto intro!: locks_ok_bnd [OF locks_ok_lockless [OF lockless_wired [OF panics_RemGRPCWire]]]
      locks_ok_bnd [OF locks_ok_lockless [OF lockless_Get]]
      locks_ok_bnd [OF locks_ok_lockless [OF lockless_SetAlive [OF assms]]] locks_ok_bnd [OF del_batch.handler_locks]
      locks_ok_lockless [of "ret _"] split: sum.splits option.splits)

text \<open>The requests on pods and links a daemon serves.\<close>

datatype request =
    RUpdate pb_RemotePod
  | RAddLinks pb_LinksBatchQuery
  | RDelLinks pb_LinksBatchQuery
  | RUpdateLinks pb_LinksBatchQuery
  | RSetAlive pb_Pod
  | RSetupPod pb_SetupPodQuery
  | RDestroyPod pb_PodQuery

fun serve :: "'w env \<Rightarrow> 'w retry \<Rightarrow> request \<Rightarrow> ('w daemon, bool_response) go" where
  "serve E retry (RUpdate pod) = Update E None pod"
| "serve E retry (RAddLinks q) = AddLinks E q"
| "serve E retry (RDelLinks q) = DelLinks E q"
| "serve E retry (RUpdateLinks q) = UpdateLinks E q"
| "serve E retry (RSetAlive pod) = SetAlive E retry pod"
| "serve E retry (RSetupPod q) = SetupPod E retry q"
| "serve E retry (RDestroyPod q) = DestroyPod E retry q"

lemma locks_ok_serve: "retry_ok retry \<Longrightarrow> locks_ok (serve E retry req)"
  by (cases req) (simp_all add: locks_ok_Update add_batch.handler_locks del_batch.handler_locks
      update_batch.handler_locks locks_ok_SetupPod locks_ok_DestroyPod locks_ok_lockless lockless_SetAlive)

text \<open>
  C5: Whatever the host, the API server and the other daemons answer, a request on pods or links that
  returns leaves exactly the link mutexes held that were held before; it waits for a mutex only if
  another request held one when it started; and it never unlocks a mutex it does not hold.
\<close>

theorem requests_keep_mutexes:
  assumes "retry_ok retry" and "serve E retry req d = (r, d')"
  shows "case r of
      Done _ \<Rightarrow> held (linkMutexes d') = held (linkMutexes d)
    | Abort x \<Rightarrow> (\<exists>t. x = Panic t) \<or> (x = Blocked \<and> held (linkMutexes d) \<noteq> {})"
  using lockingD [OF locks_ok_serve [OF assms(1), unfolded locks_ok_def, rule_format] refl assms(2)]
  by (cases r) auto

section \<open>Witnesses\<close>

definition quiet_env :: "unit env" where
  "quiet_env =
     \<lparr> net = quiet_host,
       rest = \<lparr> rest_Topology = (\<lambda>q w. (Inr demo_topology, w)),
                rest_List = (\<lambda>q w. (Inr \<lparr> Items = [demo_topology] \<rparr>, w)),
                rest_Error = (\<lambda>q w. (None, w)) \<rparr>,
       rpc = \<lparr> rpc_Dial = (\<lambda>u w. (None, w)), rpc_Update = (\<lambda>u q w. (Inr True, w)) \<rparr>,
       now = (\<lambda>w. (0, w)), informer = (\<lambda>w. ([], w)), errlist = hd, order = (\<lambda>xs. xs), MacvlanMode = 4 \<rparr>"

definition demo_daemon :: "'w \<Rightarrow> 'w daemon" where
  "demo_daemon w =
     \<lparr> world = w, TCPIPBypass = False, nodeIP = ''10.0.0.1'', vxlanIntf = ''ens3'',
       topologyStore = (\<lambda>_. None), objects = empty_mem, topologyManager = NewTopologyManager,
       vxlanManager = NewVxlanManager, netns_strings = empty_mem, linkMutexes = (\<lambda>_. None),
       wire_state = initial_wires, observations = [] \<rparr>"

definition demo_pod :: pb_Pod where
  "demo_pod = \<lparr> pod_name = ''r1'', pod_src_ip = ''10.0.0.1'', pod_net_ns = ''/run/netns/a'',
                pod_kube_ns = ''default'', pod_links = [] \<rparr>"

definition macvlan_query :: pb_LinksBatchQuery where
  "macvlan_query = \<lparr> lbq_local_pod = Some demo_pod, lbq_links = [demo_pb_link\<lparr> pb_peer_pod := ''localhost'' \<rparr>] \<rparr>"

lemma demo_AddLinks: "\<exists>d. AddLinks quiet_env macvlan_query (demo_daemon ()) = (Done (True, None), d)"
  by (simp add: AddLinks_def respond_def macvlan_query_def addLink_def MakeVeth_def demo_pb_link_def Localhost_def
      hosted_def zoom_run ext_run quiet_env_def quiet_host_def bnd_def ret_run check_def)

theorem AddLinks_outcome_witness:
  "\<exists>d. AddLinks quiet_env macvlan_query (demo_daemon ()) = (Done (True, None), d)
     \<and> (\<exists>u. foreach (addLink quiet_env demo_pod) (take 1 (lbq_links macvlan_query)) (demo_daemon ()) = (Done None, u))"
proof -
  obtain d where run: "AddLinks quiet_env macvlan_query (demo_daemon ()) = (Done (True, None), d)"
    using demo_AddLinks by blast
  have q: "lbq_local_pod macvlan_query = Some demo_pod" "length (lbq_links macvlan_query) = 1"
    by (simp_all add: macvlan_query_def)
  from AddLinks_outcome [OF run] q run show ?thesis by auto
qed

theorem requests_keep_mutexes_witness:
  "\<exists>d. serve quiet_env (\<lambda>f. f) (RAddLinks macvlan_query) (demo_daemon ()) = (Done (True, None), d)
     \<and> held (linkMutexes d) = {}"
proof -
  obtain d where run: "serve quiet_env (\<lambda>f. f) (RAddLinks macvlan_query) (demo_daemon ()) = (Done (True, None), d)"
    using demo_AddLinks by auto
  have "held (linkMutexes (demo_daemon ())) = {}" by (simp add: demo_daemon_def held_def)
  with requests_keep_mutexes [OF retry_ok_once run] run show ?thesis by auto
qed

end
