(* ===== verification/Pods.thy ===== *)
theory Pods
  imports Handlers
begin

text \<open>
  What destroying and setting up a pod does: the requests \<open>DestroyPod\<close> makes to the host, the entries it
  leaves in the table of network identifiers, the deletion of links, and the objects \<open>SetAlive\<close> writes.
\<close>

section \<open>Recording the requests of a daemon\<close>

definition logging :: "'w env \<Rightarrow> 'w logged env" where
  "logging E =
     \<lparr> net = recording (net E),
       rest = \<lparr> rest_Topology = (\<lambda>q. asking (rest_Topology (rest E) q)),
                rest_List = (\<lambda>q. asking (rest_List (rest E) q)),
                rest_Error = (\<lambda>q. asking (rest_Error (rest E) q)) \<rparr>,
       rpc = \<lparr> rpc_Dial = (\<lambda>u. asking (rpc_Dial (rpc E) u)),
               rpc_Update = (\<lambda>u q. asking (rpc_Update (rpc E) u q)) \<rparr>,
       now = asking (now E),
       informer = asking (informer E),
       errlist = errlist E,
       order = order E,
       MacvlanMode = MacvlanMode E \<rparr>"

lemma logging_sel [simp]:
  "net (logging E) = recording (net E)" "now (logging E) = asking (now E)"
  "informer (logging E) = asking (informer E)" "errlist (logging E) = errlist E" "order (logging E) = order E"
  "rest_Topology (rest (logging E)) = (\<lambda>q. asking (rest_Topology (rest E) q))"
  by (simp_all add: logging_def)

text \<open>Every request logged so far satisfies \<open>Q\<close>.\<close>

definition logged_all :: "(event \<Rightarrow> bool) \<Rightarrow> 'w logged daemon \<Rightarrow> bool" where
  "logged_all Q d = list_all Q (snd (world d))"

lemma logged_asking [simp]: "preserves (logged_all Q) (hosted (ext (asking f)))"
  by (auto simp: preserves_def hosted_def zoom_run ext_run logged_all_def asking_def split: prod.splits)

lemma logged_changing: "(\<And>a. Q (ev a)) \<Longrightarrow> preserves (logged_all Q) (hosted (ext (changing ev f)))"
  by (auto simp: preserves_def hosted_def zoom_run ext_run logged_all_def changing_def split: prod.splits)

lemma logged_modify: "(\<And>d. world (f d) = world d) \<Longrightarrow> preserves (logged_all Q) (modify f)"
  by (simp add: preserves_def logged_all_def)

lemma deliver_world [simp]: "world (deliver es d) = world d"
  by (induction es d rule: deliver.induct) (simp_all add: alloc_def)

lemma logged_cells [simp]:
  "preserves (logged_all Q) (deref p)" "preserves (logged_all Q) (new_object t)"
  "preserves (logged_all Q) (assign p t)" "preserves (logged_all Q) (deref_string q)"
  "preserves (logged_all Q) (GetByKey (logging E) key)" "preserves (logged_all Q) (observe_since (logging E) method t0)"
  by (auto simp: assign_def GetByKey_def observe_since_def Observe_def intro!: go_rules logged_modify)
    (auto simp: preserves_def logged_all_def deref_def new_object_def deref_string_def alloc_def
      split: option.splits)

lemma logged_client [simp]:
  "preserves (logged_all Q) (hosted (ext (Topology_Get (rest (logging E)) ns name)))"
  "preserves (logged_all Q) (hosted (ext (Topology_Update (rest (logging E)) ns t)))"
  "preserves (logged_all Q) (hosted (ext (Topology_UpdateStatus (rest (logging E)) ns t)))"
  by (simp_all add: client_defs)

lemma preserves_retry: "retry_ok retry \<Longrightarrow> preserves I f \<Longrightarrow> preserves I (retry f)"
  unfolding retry_ok_def using preserves_retry_times by metis

lemma logged_getPod [simp]: "preserves (logged_all Q) (getPod (logging E) name ns)"
  unfolding getPod_def Let_def by (auto intro!: go_rules split: option.splits sum.splits)

lemma logged_Get [simp]: "preserves (logged_all Q) (Get (logging E) q)"
  unfolding Get_def by (auto intro!: go_rules)

lemma logged_SetAlive:
  assumes "retry_ok retry"
  shows "preserves (logged_all Q) (SetAlive (logging E) retry pod)"
  unfolding SetAlive_def set_status_def set_finalizer_def updateStatus_def Let_def
  by (auto intro!: go_rules logged_modify preserves_retry [OF assms] split: option.splits sum.splits)

section \<open>Destroying a pod\<close>

text \<open>A request to remove an interface of the namespace the daemon runs in.\<close>

definition own_namespace_removal :: "event \<Rightarrow> bool" where
  "own_namespace_removal e = (case e of EvRemoveVeth v _ \<Rightarrow> NsName v = [] | _ \<Rightarrow> False)"

lemma logged_forget [simp]: "preserves (logged_all Q) (forget_vni vni n)"
  unfolding forget_vni_def by (auto intro!: go_rules logged_modify split: option.splits)

lemma logged_delLink:
  assumes "pod_net_ns pod = []"
  shows "preserves (logged_all own_namespace_removal) (delLink (logging E) pod link)"
proof -
  have "preserves (logged_all own_namespace_removal) (hosted (ext (nl_RemoveVethLink (net (logging E)) v)))"
    if "MakeVeth (pod_net_ns pod) a b c = Inr v" for v a b c
    using that assms by (auto simp: own_namespace_removal_def MakeVeth_Inr_iff intro!: logged_changing)
  then show ?thesis
    unfolding delLink_def by (auto intro!: go_rules split: sum.splits simp del: logging_sel(1))
qed

lemma logged_DelLinks:
  assumes "pod_net_ns pod = []"
  shows "preserves (logged_all own_namespace_removal) (DelLinks (logging E) \<lparr> lbq_local_pod = Some pod, lbq_links = links \<rparr>)"
proof -
  have "preserves (logged_all own_namespace_removal) (foreach (delLink (logging E) pod) ls)" for ls
    by (induction ls) (auto intro!: go_rules logged_delLink [OF assms])
  then show ?thesis unfolding DelLinks_def respond_def by (auto intro!: go_rules split: option.splits)
qed

definition wire_log :: "(event \<Rightarrow> bool) \<Rightarrow> 'w logged \<times> wstate \<Rightarrow> bool" where
  "wire_log Q = (\<lambda>(w, s). list_all Q (snd w))"

lemma wire_log_steps [simp]:
  "preserves (wire_log Q) (on_host (ext (asking f)))" "preserves (wire_log Q) (with_state g)"
  "preserves (wire_log Q) (close_chan c)"
  by (auto simp: preserves_def wire_log_def on_host_ext asking_def with_state_def close_chan_def
      split: prod.splits)

lemma wire_log_changing: "(\<And>a. Q (ev a)) \<Longrightarrow> preserves (wire_log Q) (on_host (ext (changing ev f)))"
  by (auto simp: preserves_def wire_log_def on_host_ext changing_def split: prod.splits)

lemma wire_log_RemGRPCWire:
  "preserves (wire_log own_namespace_removal) (RemGRPCWire (recording N) el ord wd)"
proof -
  have "preserves (wire_log own_namespace_removal) (on_host (ext (nl_RemoveVethLink (recording N) (node_veth n))))" for n
    by (simp add: wire_log_changing own_namespace_removal_def node_veth_def)
  then have "preserves (wire_log own_namespace_removal) (RemoveWire (recording N) w)" for w
    unfolding RemoveWire_def
    by (auto intro!: go_rules split: option.splits sum.splits simp del: recording_sel)
      (simp add: recording_sel)
  then have "preserves (wire_log own_namespace_removal) (remove_wires_loop (recording N) ws errs)" for ws errs
    by (induction ws arbitrary: errs) (auto intro!: go_rules split: option.splits)
  then show ?thesis
    unfolding RemGRPCWire_def DeleteWiresByPod_def by (auto intro!: go_rules split: option.splits)
qed

lemma logged_wired: "preserves (wire_log Q) m \<Longrightarrow> preserves (logged_all Q) (wired m)"
proof (unfold preserves_def, intro allI impI)
  fix d :: "'a logged daemon"
  assume m: "\<forall>s. wire_log Q s \<longrightarrow> wire_log Q (snd (m s))" and "logged_all Q d"
  then have "wire_log Q (world d, wire_state d)" by (simp add: wire_log_def logged_all_def)
  with m have "wire_log Q (snd (m (world d, wire_state d)))" by blast
  then show "logged_all Q (snd (wired m d))"
    by (cases "snd (m (world d, wire_state d))") (simp add: wired_def zoom_run logged_all_def wire_log_def)
qed

lemma logged_DestroyPod:
  assumes "retry_ok retry"
  shows "preserves (logged_all own_namespace_removal) (DestroyPod (logging E) retry pod)"
  unfolding DestroyPod_def Let_def logging_sel
  by (rule preserves_bnd [OF logged_modify])
    (auto intro!: preserves_bnd [OF logged_wired [OF wire_log_RemGRPCWire]]
      preserves_bnd [OF logged_Get] preserves_bnd [OF logged_SetAlive [OF assms]] preserves_bnd [OF logged_DelLinks]
      split: sum.splits option.splits)

text \<open>
  C18: Whatever pod it is asked to destroy and whatever the answers, the only requests \<open>DestroyPod\<close> makes
  to the host are removals of interfaces of the daemon's own network namespace: it clears the pod's
  namespace before it hands the pod to \<open>DelLinks\<close>, so no interface of the pod is removed.
\<close>

theorem DestroyPod_requests:
  assumes "retry_ok retry" and "DestroyPod (logging E) retry pod d = (r, d')" and "snd (world d) = []"
  shows "\<forall>e \<in> set (snd (world d')). \<exists>v x. e = EvRemoveVeth v x \<and> NsName v = []"
proof -
  have "logged_all own_namespace_removal d'"
    using preservesD [OF logged_DestroyPod [OF assms(1)] assms(2)] assms(3) by (simp add: logged_all_def)
  moreover have "own_namespace_removal e \<Longrightarrow> \<exists>v x. e = EvRemoveVeth v x \<and> NsName v = []" for e
    by (cases e) (simp_all add: own_namespace_removal_def)
  ultimately show ?thesis by (auto simp: logged_all_def list_all_iff)
qed

section \<open>Network identifiers of a destroyed pod\<close>

text \<open>The table of identifiers is \<open>m\<close> and its pointers refer to non-empty names.\<close>

definition vnis_at :: "VxlanManager \<Rightarrow> 'w daemon \<Rightarrow> bool" where
  "vnis_at m d \<longleftrightarrow> vxlanManager d = m \<and>
     (\<forall>vni p. VxlanManager_Get vni m = Some p \<longrightarrow> (\<exists>x. cells (netns_strings d) p = Some x \<and> x \<noteq> []))"

lemma vnis_hosted [simp]: "preserves (vnis_at m) (hosted h)" "preserves (vnis_at m) (wired h')"
  by (simp_all add: preserves_def vnis_at_def hosted_def wired_def zoom_run split: prod.splits)

lemma vnis_modify:
  "(\<And>d. vxlanManager (f d) = vxlanManager d \<and> netns_strings (f d) = netns_strings d) \<Longrightarrow>
   preserves (vnis_at m) (modify f)"
  by (simp add: preserves_def vnis_at_def)

lemma deliver_vnis [simp]:
  "vxlanManager (deliver es d) = vxlanManager d \<and> netns_strings (deliver es d) = netns_strings d"
  by (induction es d rule: deliver.induct) (simp_all add: alloc_def)

lemma vnis_cells [simp]:
  "preserves (vnis_at m) (deref p)" "preserves (vnis_at m) (new_object t)"
  "preserves (vnis_at m) (assign p t)" "preserves (vnis_at m) (GetByKey E key)"
  "preserves (vnis_at m) (observe_since E method t0)"
  by (auto simp: assign_def GetByKey_def observe_since_def Observe_def intro!: go_rules vnis_modify)
    (auto simp: preserves_def vnis_at_def deref_def new_object_def alloc_def split: option.splits)

lemma vnis_Get [simp]: "preserves (vnis_at m) (Get E q)"
  unfolding Get_def getPod_def Let_def by (auto intro!: go_rules split: option.splits sum.splits)

lemma vnis_SetAlive:
  assumes "retry_ok retry"
  shows "preserves (vnis_at m) (SetAlive E retry pod)"
  unfolding SetAlive_def set_status_def set_finalizer_def updateStatus_def getPod_def Let_def
  by (auto intro!: go_rules vnis_modify preserves_retry [OF assms] split: option.splits sum.splits)

lemma vnis_delLink:
  assumes "pod_net_ns pod = []"
  shows "preserves (vnis_at m) (delLink E pod link)"
proof -
  have "forget_vni vni [] d = (Done (), d)" if "vnis_at m d" for vni and d :: "'a daemon"
  proof (cases "VxlanManager_Get vni (vxlanManager d)")
    case None
    then show ?thesis by (simp add: forget_vni_def bnd_reads ret_run)
  next
    case (Some p)
    with that obtain x where "cells (netns_strings d) p = Some x" "x \<noteq> []" by (auto simp: vnis_at_def)
    with Some show ?thesis by (simp add: forget_vni_def bnd_reads deref_string_def ret_run)
  qed
  then have "preserves (vnis_at m) (forget_vni vni [] :: ('a daemon, unit) go)" for vni
    by (simp add: preserves_def)
  then show ?thesis
    unfolding delLink_def assms by (auto intro!: go_rules split: sum.splits)
qed

lemma vnis_DelLinks:
  assumes "pod_net_ns pod = []"
  shows "preserves (vnis_at m) (DelLinks E \<lparr> lbq_local_pod = Some pod, lbq_links = links \<rparr>)"
proof -
  have "preserves (vnis_at m) (foreach (delLink E pod) ls)" for ls
    by (induction ls) (auto intro!: go_rules vnis_delLink [OF assms])
  then show ?thesis unfolding DelLinks_def respond_def by (auto intro!: go_rules split: option.splits)
qed

lemma vnis_DestroyPod:
  assumes "retry_ok retry"
  shows "preserves (vnis_at m) (DestroyPod E retry pod)"
  unfolding DestroyPod_def Let_def
  by (rule preserves_bnd [OF vnis_modify])
    (auto intro!: preserves_bnd [OF vnis_hosted(2)] preserves_bnd [OF vnis_Get]
      preserves_bnd [OF vnis_SetAlive [OF assms]] preserves_bnd [OF vnis_DelLinks]
      split: sum.splits option.splits)

text \<open>
  C19: If every identifier of the table refers to a non-empty namespace, \<open>DestroyPod\<close> leaves the table of
  network identifiers as it was: the identifiers of the destroyed pod stay.
\<close>

theorem DestroyPod_keeps_vnis:
  assumes "retry_ok retry" and "DestroyPod E retry pod d = (r, d')"
    and "\<forall>vni p. VxlanManager_Get vni (vxlanManager d) = Some p \<longrightarrow>
           (\<exists>x. cells (netns_strings d) p = Some x \<and> x \<noteq> [])"
  shows "vxlanManager d' = vxlanManager d"
  using preservesD [OF vnis_DestroyPod [OF assms(1)] assms(2), of "vxlanManager d"] assms(3)
  by (simp add: vnis_at_def)

section \<open>Deleting a link\<close>

text \<open>
  C17: Deleting a link fails only if its addresses do not parse; otherwise it succeeds whatever the host
  answers, provided the pointer stored for its identifier is valid.
\<close>

theorem delLink_outcome:
  assumes "\<And>p. VxlanManager_Get (GetVniFromUid (pb_uid link)) (vxlanManager d) = Some p \<Longrightarrow> cells (netns_strings d) p \<noteq> None"
  shows "\<exists>d'. delLink E pod link d =
    (Done (case MakeVeth (pod_net_ns pod) (pb_local_intf link) (pb_local_ip link) (pb_local_mac link) of
             Inl e \<Rightarrow> Some e | Inr _ \<Rightarrow> None), d')"
proof (cases "MakeVeth (pod_net_ns pod) (pb_local_intf link) (pb_local_ip link) (pb_local_mac link)")
  case (Inl e)
  then show ?thesis by (simp add: delLink_def bnd_def hosted_def zoom_run ext_run ret_run)
next
  case (Inr v)
  have f: "\<exists>d3. forget_vni (GetVniFromUid (pb_uid link)) (pod_net_ns pod) d2 = (Done (), d3)"
    if "vxlanManager d2 = vxlanManager d" "netns_strings d2 = netns_strings d" for d2
    using assms that
    by (auto simp: forget_vni_def bnd_reads bnd_def deref_string_def ret_run split: option.splits)
  have o: "\<exists>d4. bnd (observe_since E ''del'' t0) (\<lambda>_. ret (None :: error option)) d3 = (Done None, d4)" for t0 d3
    by (simp add: observe_since_def Observe_def bnd_def hosted_def zoom_run ext_run ret_run)
  obtain t0 w1 where t0: "now E (world d) = (t0, w1)" by fastforce
  let ?d2 = "d\<lparr> world := snd (nl_RemoveVethLink (net E) v w1) \<rparr>"
  obtain d3 where "forget_vni (GetVniFromUid (pb_uid link)) (pod_net_ns pod) ?d2 = (Done (), d3)"
    using f [of ?d2] by auto
  moreover obtain d4 where "bnd (observe_since E ''del'' t0) (\<lambda>_. ret (None :: error option)) d3 = (Done None, d4)"
    using o by blast
  ultimately show ?thesis
    using t0 by (simp add: delLink_def Inr bnd_def [of "hosted _"] hosted_def zoom_run ext_run)
qed

section \<open>Marking a pod alive\<close>

text \<open>
  The table of topologies holds, under the key of its own name and namespace, an object with these
  addresses.
\<close>

definition registered :: "pb_Pod \<Rightarrow> 'w daemon \<Rightarrow> bool" where
  "registered pod d \<longleftrightarrow> mem_ok (objects d) \<and>
     (\<exists>p t. map_of (topologies (topologyManager d)) (topology_key (Namespace t) (Name t)) = Some p
        \<and> cells (objects d) p = Some t
        \<and> SrcIP (Status t) = pod_src_ip pod \<and> NetNs (Status t) = pod_net_ns pod)"

definition objects_ok :: "'w daemon \<Rightarrow> bool" where
  "objects_ok d = mem_ok (objects d)"

lemma registered_I:
  "mem_ok (objects d) \<Longrightarrow> map_of (topologies (topologyManager d)) (topology_key (Namespace t) (Name t)) = Some p
   \<Longrightarrow> cells (objects d) p = Some t \<Longrightarrow> SrcIP (Status t) = pod_src_ip pod \<Longrightarrow> NetNs (Status t) = pod_net_ns pod
   \<Longrightarrow> registered pod d"
  unfolding registered_def by blast

lemma registered_alloc:
  assumes "registered pod d" "alloc t (objects d) = (q, h)"
  shows "registered pod (d\<lparr> objects := h \<rparr>)"
proof -
  obtain p u where u: "mem_ok (objects d)" "map_of (topologies (topologyManager d)) (topology_key (Namespace u) (Name u)) = Some p"
    "cells (objects d) p = Some u" "SrcIP (Status u) = pod_src_ip pod" "NetNs (Status u) = pod_net_ns pod"
    using assms(1) unfolding registered_def by blast
  have "cells h p = Some u" using alloc_keeps [OF u(1) assms(2) u(3)] .
  with u mem_ok_alloc [OF u(1) assms(2)] show ?thesis
    by (intro registered_I [of _ u p]) simp_all
qed

lemma registered_other [simp]:
  "registered pod (d\<lparr> world := w \<rparr>) = registered pod d"
  "registered pod (d\<lparr> topologyStore := st \<rparr>) = registered pod d"
  by (simp_all add: registered_def)

lemma registered_deliver: "registered pod d \<Longrightarrow> registered pod (deliver es d)"
proof (induction es d rule: deliver.induct)
  case (2 key topology es d)
  obtain q h where a: "alloc topology (objects d) = (q, h)" by fastforce
  have "registered pod (d\<lparr> objects := h, topologyStore := (topologyStore d)(key \<mapsto> q) \<rparr>)"
    using registered_alloc [OF 2(2) a] by (simp add: registered_def)
  with 2(1) [OF a [symmetric]] a show ?case by simp
qed simp_all

lemma objects_ok_deliver: "objects_ok d \<Longrightarrow> objects_ok (deliver es d)"
proof (induction es d rule: deliver.induct)
  case (2 key topology es d)
  obtain q h where a: "alloc topology (objects d) = (q, h)" by fastforce
  with 2(2) have "objects_ok (d\<lparr> objects := h, topologyStore := (topologyStore d)(key \<mapsto> q) \<rparr>)"
    using mem_ok_alloc by (fastforce simp: objects_ok_def)
  with 2(1) [OF a [symmetric]] a show ?case by simp
qed (simp_all add: objects_ok_def)

lemma pod_invariants_getPod:
  "preserves (registered pod) (getPod E name ns)" "preserves objects_ok (getPod E name ns)"
proof -
  have w: "preserves (registered pod) (hosted h)" "preserves objects_ok (hosted h)" for h
    by (simp_all add: preserves_def hosted_def zoom_run objects_ok_def)
  have g: "preserves (registered pod) (GetByKey E key)" "preserves objects_ok (GetByKey E key)" for key
    unfolding GetByKey_def
    by (auto intro!: go_rules w) (auto simp: preserves_def registered_deliver objects_ok_deliver)
  have "preserves (registered pod) (new_object t)" for t
    by (auto simp: preserves_def new_object_def registered_alloc split: prod.splits)
  moreover have "preserves objects_ok (new_object t)" for t
    using mem_ok_alloc by (fastforce simp: preserves_def new_object_def objects_ok_def split: prod.splits)
  ultimately show "preserves (registered pod) (getPod E name ns)" "preserves objects_ok (getPod E name ns)"
    unfolding getPod_def Let_def using w g by (auto intro!: go_rules split: option.splits sum.splits)
qed

text \<open>Replacing an object by one with the same name and status.\<close>

lemma registered_store:
  assumes "registered pod d" "cells (objects d) q = Some t" "Name t' = Name t" "Namespace t' = Namespace t"
    "Status t' = Status t"
  shows "registered pod (d\<lparr> objects := store q t' (objects d) \<rparr>)"
proof -
  obtain p u where u: "mem_ok (objects d)" "map_of (topologies (topologyManager d)) (topology_key (Namespace u) (Name u)) = Some p"
    "cells (objects d) p = Some u" "SrcIP (Status u) = pod_src_ip pod" "NetNs (Status u) = pod_net_ns pod"
    using assms(1) unfolding registered_def by blast
  have ok: "mem_ok (store q t' (objects d))" using u(1) assms(2) by (simp add: mem_ok_store)
  show ?thesis
  proof (cases "q = p")
    case True
    with u ok assms show ?thesis by (intro registered_I [of _ t' p]) simp_all
  next
    case False
    with u ok show ?thesis by (intro registered_I [of _ u p]) simp_all
  qed
qed

lemma registered_set_finalizer: "preserves (registered pod) (set_finalizer E pod' alive)"
proof -
  have w: "preserves (registered pod) (hosted h)" for h
    by (simp add: preserves_def hosted_def zoom_run)
  have fin: "preserves (registered pod) (bnd (deref p) (\<lambda>topology.
       bnd (assign p (topology\<lparr> Finalizers := f topology \<rparr>)) (\<lambda>_. k topology)))"
    if "\<And>t. preserves (registered pod) (k t)" for p f and k :: "Topology \<Rightarrow> ('a daemon, error option) go"
  proof (unfold preserves_def, intro allI impI)
    fix d :: "'a daemon"
    assume d: "registered pod d"
    show "registered pod (snd (bnd (deref p) (\<lambda>topology.
       bnd (assign p (topology\<lparr> Finalizers := f topology \<rparr>)) (\<lambda>_. k topology)) d))"
    proof (cases "cells (objects d) p")
      case None
      with d show ?thesis by (simp add: deref_def)
    next
      case (Some t)
      have "registered pod (d\<lparr> objects := store p (t\<lparr> Finalizers := f t \<rparr>) (objects d) \<rparr>)"
        using d Some by (rule registered_store) simp_all
      with Some that show ?thesis by (simp add: deref_def assign_def preserves_def)
    qed
  qed
  have upd: "preserves (registered pod) (bnd (hosted h) (\<lambda>r. case r of
      Inl err \<Rightarrow> ret (Some err) | Inr _ \<Rightarrow> ret None))" for h :: "('a, error + Topology) go"
    by (auto intro!: go_rules w split: sum.splits)
  show ?thesis
    unfolding set_finalizer_def Let_def
  proof (rule preserves_bnd [OF pod_invariants_getPod(1)])
    fix r
    show "preserves (registered pod) (case r of
       Inl err \<Rightarrow> ret (Some err)
     | Inr p \<Rightarrow>
         bnd (deref p) (\<lambda>topology.
         bnd (assign p (topology\<lparr> Finalizers :=
               (if alive then Finalizers topology @ [group_version] else []) \<rparr>)) (\<lambda>_.
         bnd (hosted (ext (Topology_Update (rest E) (pod_kube_ns pod') (topology\<lparr> Finalizers :=
               (if alive then Finalizers topology @ [group_version] else []) \<rparr>)))) (\<lambda>r. case r of
           Inl err \<Rightarrow> ret (Some err) | Inr _ \<Rightarrow> ret None))))"
      by (cases r) (auto intro: fin upd)
  qed
qed

lemma updateStatus_objects: "unchanged (\<lambda>d. (objects d, topologyManager d)) (updateStatus E p ns)"
  unfolding updateStatus_def
  by (auto intro!: go_rules split: sum.splits)
    (auto simp: unchanged_def deref_def hosted_def zoom_run split: option.splits)

lemma set_status_write:
  assumes "objects_ok d" "cells (objects d) p = Some t"
  shows "registered pod
    (d\<lparr> topologyManager := TopologyManager_Add p t (topologyManager d),
        objects := store p (t\<lparr> Status := (Status t)\<lparr> SrcIP := pod_src_ip pod, NetNs := pod_net_ns pod \<rparr> \<rparr>) (objects d) \<rparr>)"
  using assms
  by (intro registered_I [of _ "t\<lparr> Status := (Status t)\<lparr> SrcIP := pod_src_ip pod, NetNs := pod_net_ns pod \<rparr> \<rparr>" p])
    (simp_all add: objects_ok_def mem_ok_store TopologyManager_Add_def Let_def update_conv')

lemma set_status_registers:
  assumes "objects_ok d" "set_status E pod True d = (Done None, d')"
  shows "registered pod d'"
proof -
  obtain p d1 where g: "getPod E (pod_name pod) (pod_kube_ns pod) d = (Done (Inr p), d1)"
    and k: "bnd (deref p) (\<lambda>topology.
         bnd (modify (\<lambda>d. d\<lparr> topologyManager := TopologyManager_Add p topology (topologyManager d) \<rparr>)) (\<lambda>_.
         bnd (assign p (topology\<lparr> Status := (Status topology)
                \<lparr> SrcIP := pod_src_ip pod, NetNs := pod_net_ns pod \<rparr> \<rparr>)) (\<lambda>_.
         updateStatus E p (pod_kube_ns pod)))) d1 = (Done None, d')"
    using assms(2) unfolding set_status_def
    by (auto simp: ret_run split: sum.splits elim!: bnd_cases [of "getPod E (pod_name pod) (pod_kube_ns pod)"])
  have ok: "objects_ok d1" using preservesD [OF pod_invariants_getPod(2) g assms(1)] .
  obtain t where t: "cells (objects d1) p = Some t"
    using k by (cases "cells (objects d1) p") (simp_all add: deref_def)
  let ?d = "d1\<lparr> topologyManager := TopologyManager_Add p t (topologyManager d1),
        objects := store p (t\<lparr> Status := (Status t)\<lparr> SrcIP := pod_src_ip pod, NetNs := pod_net_ns pod \<rparr> \<rparr>) (objects d1) \<rparr>"
  have "updateStatus E p (pod_kube_ns pod) ?d = (Done None, d')"
    using k t by (simp add: deref_def assign_def)
  then have "objects d' = objects ?d \<and> topologyManager d' = topologyManager ?d"
    using unchangedD [OF updateStatus_objects] by (metis prod.inject)
  with set_status_write [OF ok t, of pod] show ?thesis by (simp add: registered_def)
qed

lemma objects_ok_set_status: "preserves objects_ok (set_status E pod alive)"
proof -
  have k: "preserves objects_ok (bnd (deref p) (\<lambda>topology.
         bnd (modify (m topology)) (\<lambda>_.
         bnd (assign p (f topology)) (\<lambda>_.
         updateStatus E p ns))))" if "\<And>t d. objects (m t d) = objects d" for p m f ns
  proof (unfold preserves_def, intro allI impI)
    fix d :: "'a daemon"
    assume d: "objects_ok d"
    have u: "objects (snd (updateStatus E p ns e)) = objects e" for e
      using updateStatus_objects [of E p ns] by (simp add: unchanged_def)
    show "objects_ok (snd (bnd (deref p) (\<lambda>topology.
         bnd (modify (m topology)) (\<lambda>_. bnd (assign p (f topology)) (\<lambda>_. updateStatus E p ns))) d))"
      using d by (cases "cells (objects d) p") (simp_all add: deref_def assign_def u objects_ok_def mem_ok_store that)
  qed
  show ?thesis
    unfolding set_status_def
  proof (rule preserves_bnd [OF pod_invariants_getPod(2)])
    fix r
    show "preserves objects_ok (case r of
       Inl err \<Rightarrow> ret (Some err)
     | Inr p \<Rightarrow>
         bnd (deref p) (\<lambda>topology.
         bnd (modify (\<lambda>d. d\<lparr> topologyManager :=
                (if alive then TopologyManager_Add p topology (topologyManager d)
                 else TopologyManager_Delete (Name topology) (Namespace topology) (topologyManager d)) \<rparr>)) (\<lambda>_.
         bnd (assign p (topology\<lparr> Status := (Status topology)
                \<lparr> SrcIP := pod_src_ip pod, NetNs := pod_net_ns pod \<rparr> \<rparr>)) (\<lambda>_.
         updateStatus E p (pod_kube_ns pod)))))"
      by (cases r) (auto intro!: k)
  qed
qed

lemma retry_times_establishes:
  assumes "preserves J f" "\<And>s t. J s \<Longrightarrow> f s = (Done None, t) \<Longrightarrow> P t" "J s" "retry_times n f s = (Done None, t)"
  shows "P t"
  using assms(3,4)
proof (induction n arbitrary: s)
  case 0
  with assms(2) show ?case by simp
next
  case (Suc n)
  from Suc.prems(2) obtain r u where run: "f s = (Done r, u)"
    and k: "(if r = Some Conflict then retry_times n f else ret r) u = (Done None, t)"
    by (auto elim!: bnd_cases)
  have "J u" using preservesD [OF assms(1) run Suc.prems(1)] .
  with Suc.IH k run assms(2) [OF Suc.prems(1)] show ?case by (auto simp: ret_run split: if_splits)
qed

text \<open>
  C16: If \<open>SetAlive\<close> reports success for a pod with a source address and a namespace, the table of
  topologies holds an object that carries that address and namespace, stored under the key of its own
  name, whatever the informer and the API server did meanwhile.
\<close>

theorem SetAlive_registers:
  assumes "retry_ok retry" and "mem_ok (objects d)" and "pod_src_ip pod \<noteq> []" and "pod_net_ns pod \<noteq> []"
    and "SetAlive E retry pod d = (Done (True, err), d')"
  shows "\<exists>p t. map_of (topologies (topologyManager d')) (topology_key (Namespace t) (Name t)) = Some p
    \<and> cells (objects d') p = Some t \<and> SrcIP (Status t) = pod_src_ip pod \<and> NetNs (Status t) = pod_net_ns pod"
proof -
  obtain n where n: "\<And>f. retry f = retry_times n f" using assms(1) unfolding retry_ok_def by blast
  obtain d1 where d1: "retry_times n (set_status E pod True) d = (Done None, d1)"
    and d2: "bnd (retry_times n (set_finalizer E pod True)) (\<lambda>_. ret (True, None :: error option)) d1 = (Done (True, err), d')"
    using assms(3,4,5) unfolding SetAlive_def n Let_def
    by (auto simp: ret_run split: option.splits elim!: bnd_cases [of "retry_times n (set_status E pod True)"])
  have "registered pod d1"
    using retry_times_establishes [OF objects_ok_set_status set_status_registers _ d1] assms(2)
    by (auto simp: objects_ok_def)
  moreover have "preserves (registered pod)
      (bnd (retry_times n (set_finalizer E pod True)) (\<lambda>_. ret (True, None :: error option)))"
    by (auto intro!: go_rules registered_set_finalizer)
  ultimately have "registered pod d'" using d2 by (auto dest: preservesD)
  then show ?thesis unfolding registered_def by blast
qed

section \<open>Witnesses\<close>

definition demo_v1_link :: Link where
  "demo_v1_link =
     \<lparr> LocalIntf = ''eth1'', LocalIP = [], LocalMAC = [], PeerIntf = ''eth1'', PeerIP = [], PeerMAC = [],
       PeerPod = ''r2'', UID = 1,
       Properties = \<lparr> Latency = [], LatencyCorr = [], Jitter = [], Loss = [], LossCorr = [], Rate = [], Gap = 0,
         Duplicate = [], DuplicateCorr = [], ReorderProb = [], ReorderCorr = [], CorruptProb = [], CorruptCorr = [] \<rparr> \<rparr>"

definition linked_topology :: Topology where
  "linked_topology = demo_topology\<lparr> Spec := \<lparr> SpecLinks = Some [demo_v1_link] \<rparr> \<rparr>"

definition linked_env :: "unit env" where
  "linked_env = quiet_env\<lparr> rest := (rest quiet_env)\<lparr> rest_Topology := (\<lambda>q w. (Inr linked_topology, w)) \<rparr> \<rparr>"

definition demo_query :: pb_PodQuery where
  "demo_query = \<lparr> pq_name = ''r1'', pq_kube_ns = ''default'' \<rparr>"

lemma linked_env_sel [simp]:
  "rest_Topology (rest linked_env) = (\<lambda>q w. (Inr linked_topology, w))" "now linked_env = (\<lambda>w. (0, w))"
  "informer linked_env = (\<lambda>w. ([], w))" "net linked_env = quiet_host" "order linked_env = (\<lambda>xs. xs)"
  by (simp_all add: linked_env_def quiet_env_def)

text \<open>A daemon whose informer has the topology.\<close>

definition cached_daemon :: "unit logged daemon" where
  "cached_daemon = (demo_daemon ((), []))\<lparr> topologyStore := [''default/r1'' \<mapsto> 0],
     objects := \<lparr> cells = [0 \<mapsto> linked_topology], fresh = 1 \<rparr> \<rparr>"

lemma bnd_hosted: "bnd (hosted (ext f)) g d = g (fst (f (world d))) (d\<lparr> world := snd (f (world d)) \<rparr>)"
  by (simp add: bnd_def hosted_def zoom_run ext_run)

lemma bnd_deref: "cells (objects d) p = Some t \<Longrightarrow> bnd (deref p) g d = g t d"
  by (simp add: deref_def)

lemma bnd_assign: "bnd (assign p t) g d = g () (d\<lparr> objects := store p t (objects d) \<rparr>)"
  by (simp add: assign_def)

lemma getPod_cached:
  assumes "informer E (world d) = ([], world d)" "topologyStore d (ns @ ''/'' @ name) = Some p" "ns \<noteq> []"
  shows "getPod E name ns d = (Done (Inr p), d)"
  using assms by (simp add: getPod_def GetByKey_def bnd_hosted bnd_bnd ret_run Let_def)

lemma demo_informer: "informer (logging linked_env) x = ([], x)"
  by (simp add: asking_def split: prod.splits)

lemma demo_update [simp]:
  "Topology_UpdateStatus (rest (logging linked_env)) ns t x = (Inr linked_topology, x)"
  "Topology_Update (rest (logging linked_env)) ns t x = (Inr linked_topology, x)"
  by (simp_all add: client_defs asking_def split: prod.splits)

lemma demo_SetAlive:
  assumes "topologyStore d ''default/r1'' = Some p" "cells (objects d) p = Some t"
    and "pod_name pod = ''r1''" "pod_kube_ns pod = ''default''"
  shows "\<exists>d'. SetAlive (logging linked_env) (\<lambda>f. f) pod d = (Done (True, None), d')
    \<and> world d' = world d \<and> vxlanManager d' = vxlanManager d \<and> netns_strings d' = netns_strings d"
proof -
  have g: "getPod (logging linked_env) ''r1'' ''default'' e = (Done (Inr p), e)"
    if "topologyStore e ''default/r1'' = Some p" for e
    using that by (intro getPod_cached) (simp_all add: demo_informer del: logging_sel)
  let ?alive = "pod_src_ip pod \<noteq> [] \<and> pod_net_ns pod \<noteq> []"
  have "\<exists>d1 t1. set_status (logging linked_env) pod ?alive d = (Done None, d1) \<and> world d1 = world d
      \<and> topologyStore d1 = topologyStore d \<and> cells (objects d1) p = Some t1 \<and> vxlanManager d1 = vxlanManager d \<and> netns_strings d1 = netns_strings d"
    using assms
    by (simp add: set_status_def g bnd_deref bnd_modify bnd_assign updateStatus_def bnd_hosted ret_run)
  then obtain d1 t1 where d1: "set_status (logging linked_env) pod ?alive d = (Done None, d1)" "world d1 = world d"
      "topologyStore d1 = topologyStore d" "cells (objects d1) p = Some t1" "vxlanManager d1 = vxlanManager d"
      "netns_strings d1 = netns_strings d"
    by blast
  have "\<exists>d2. set_finalizer (logging linked_env) pod ?alive d1 = (Done None, d2) \<and> world d2 = world d1
      \<and> vxlanManager d2 = vxlanManager d1 \<and> netns_strings d2 = netns_strings d1"
    using assms d1 by (simp add: set_finalizer_def g bnd_deref bnd_assign bnd_hosted ret_run Let_def)
  with d1 show ?thesis by (auto simp: SetAlive_def Let_def ret_run)
qed

definition linked_pod :: pb_Pod where
  "linked_pod = \<lparr> pod_name = ''r1'', pod_src_ip = ''10.0.0.1'', pod_net_ns = ''/run/netns/a'',
                  pod_kube_ns = ''default'', pod_links = [Link_ToProto demo_v1_link] \<rparr>"

lemma demo_Get:
  assumes "topologyStore d ''default/r1'' = Some 0" "cells (objects d) 0 = Some linked_topology"
  shows "Get (logging linked_env) demo_query d = (Done (Inr linked_pod), d)"
proof -
  have "getPod (logging linked_env) ''r1'' ''default'' d = (Done (Inr 0), d)"
    using assms(1) by (intro getPod_cached) (simp_all add: demo_informer del: logging_sel)
  with assms(2) show ?thesis
    by (simp add: Get_def demo_query_def bnd_deref ret_run)
      (simp add: ToProtoPod_def linked_topology_def demo_topology_def named_def linked_pod_def)
qed

lemma demo_RemGRPCWire:
  "wire_state d = initial_wires \<Longrightarrow>
   wired (RemGRPCWire (recording quiet_host) el (\<lambda>xs. xs) wd) d = (Done (True, None), d)"
  by (simp add: wired_def zoom_run RemGRPCWire_def DeleteWiresByPod_def GetWiresByPod_def bnd_bnd bnd_reads ret_run
      initial_wires_def empty_wireMap_def)

lemma demo_DelLinks:
  assumes "vnis_at (vxlanManager d) d"
  shows "\<exists>d' v a. DelLinks (logging linked_env)
       \<lparr> lbq_local_pod = Some (linked_pod\<lparr> pod_net_ns := [], pod_src_ip := [] \<rparr>), lbq_links = [Link_ToProto demo_v1_link] \<rparr> d
     = (Done (True, None), d') \<and> snd (world d') = snd (world d) @ [EvRemoveVeth v a]"
proof -
  have "forget_vni vni [] (d\<lparr> world := w \<rparr>) = (Done (), d\<lparr> world := w \<rparr>)" for vni w
  proof (cases "VxlanManager_Get vni (vxlanManager d)")
    case (Some p)
    then obtain x where "cells (netns_strings d) p = Some x" "x \<noteq> []" using assms by (auto simp: vnis_at_def)
    with Some show ?thesis by (simp add: forget_vni_def bnd_reads deref_string_def ret_run)
  qed (simp add: forget_vni_def bnd_reads ret_run)
  then show ?thesis
    by (simp add: DelLinks_def respond_def delLink_def MakeVeth_def linked_pod_def demo_v1_link_def Link_ToProto_def
        bnd_bnd bnd_hosted bnd_def [of "forget_vni _ _"] observe_since_def Observe_def bnd_modify ret_run check_def
        asking_def changing_def split: prod.splits)
qed

lemma destroy_cached:
  assumes "topologyStore d ''default/r1'' = Some 0" "cells (objects d) 0 = Some linked_topology"
    "wire_state d = initial_wires" "vnis_at (vxlanManager d) d"
  shows "\<exists>d' v a. DestroyPod (logging linked_env) (\<lambda>f. f) demo_query d = (Done (True, None), d')
     \<and> snd (world d') = snd (world d) @ [EvRemoveVeth v a]"
proof -
  let ?d0 = "d\<lparr> topologyManager := TopologyManager_Delete ''r1'' ''default'' (topologyManager d) \<rparr>"
  let ?pod = "linked_pod\<lparr> pod_net_ns := [], pod_src_ip := [] \<rparr>"
  have d0: "topologyStore ?d0 ''default/r1'' = Some 0" "cells (objects ?d0) 0 = Some linked_topology"
    "wire_state ?d0 = initial_wires" using assms by simp_all
  obtain d1 where d1: "SetAlive (logging linked_env) (\<lambda>f. f) ?pod ?d0 = (Done (True, None), d1)"
    "world d1 = world ?d0" "vxlanManager d1 = vxlanManager ?d0" "netns_strings d1 = netns_strings ?d0"
    using demo_SetAlive [OF d0(1,2), of ?pod] by (auto simp: linked_pod_def)
  have "vnis_at (vxlanManager d1) d1" using assms(4) d1(3,4) by (simp add: vnis_at_def)
  then obtain d2 v a where d2: "DelLinks (logging linked_env) \<lparr> lbq_local_pod = Some ?pod, lbq_links = pod_links ?pod \<rparr> d1
      = (Done (True, None), d2)" "snd (world d2) = snd (world d) @ [EvRemoveVeth v a]"
    using demo_DelLinks [of d1] d1 by (auto simp: linked_pod_def)
  have "wired (RemGRPCWire (recording quiet_host) el (\<lambda>xs. xs) wd) ?d0 = (Done (True, None), ?d0)" for el wd
    using d0(3) by (rule demo_RemGRPCWire)
  then have "DestroyPod (logging linked_env) (\<lambda>f. f) demo_query d = (Done (True, None), d2)"
    using demo_Get [OF d0(1,2)] d1(1) d2(1)
    by (simp add: DestroyPod_def bnd_modify ret_run Let_def demo_query_def)
  with d2(2) show ?thesis by blast
qed

lemma demo_destroy:
  "\<exists>d v a. DestroyPod (logging linked_env) (\<lambda>f. f) demo_query cached_daemon = (Done (True, None), d)
     \<and> snd (world d) = [EvRemoveVeth v a]"
  using destroy_cached [of cached_daemon]
  by (simp add: cached_daemon_def demo_daemon_def vnis_at_def vm.get_empty)

text \<open>The same daemon with the identifier of the link of the pod in its table, for the namespace of the pod.\<close>

definition tunnel_daemon :: "unit logged daemon" where
  "tunnel_daemon = cached_daemon\<lparr> vxlanManager := VxlanManager_Add 5001 0 (vxlanManager cached_daemon),
     netns_strings := \<lparr> cells = [0 \<mapsto> ''/run/netns/a''], fresh = 1 \<rparr> \<rparr>"

lemma tunnel_get:
  "VxlanManager_Get vni (vxlanManager tunnel_daemon) = (if vni = 5001 then Some 0 else None)"
  by (simp add: tunnel_daemon_def cached_daemon_def demo_daemon_def NewVxlanManager_def VxlanManager_Add_def VxlanManager_Get_def)

theorem DestroyPod_requests_witness:
  "\<exists>d. DestroyPod (logging linked_env) (\<lambda>f. f) demo_query cached_daemon = (Done (True, None), d)
     \<and> snd (world d) \<noteq> [] \<and> (\<forall>e \<in> set (snd (world d)). \<exists>v x. e = EvRemoveVeth v x \<and> NsName v = [])"
proof -
  obtain d v a where run: "DestroyPod (logging linked_env) (\<lambda>f. f) demo_query cached_daemon = (Done (True, None), d)"
    and log: "snd (world d) = [EvRemoveVeth v a]"
    using demo_destroy by blast
  have "snd (world cached_daemon) = []" by (simp add: cached_daemon_def demo_daemon_def)
  from DestroyPod_requests [OF retry_ok_once run this] run log show ?thesis by auto
qed

theorem DestroyPod_keeps_vnis_witness:
  "\<exists>d. DestroyPod (logging linked_env) (\<lambda>f. f) demo_query tunnel_daemon = (Done (True, None), d)
     \<and> vxlanManager d = vxlanManager tunnel_daemon
     \<and> pod_net_ns linked_pod = ''/run/netns/a'' \<and> map pb_uid (pod_links linked_pod) = [1] \<and> GetVniFromUid 1 = 5001
     \<and> VxlanManager_Get 5001 (vxlanManager d) = Some 0 \<and> cells (netns_strings tunnel_daemon) 0 = Some ''/run/netns/a''"
proof -
  have cell: "cells (netns_strings tunnel_daemon) 0 = Some ''/run/netns/a''" by (simp add: tunnel_daemon_def)
  have table: "\<forall>vni p. VxlanManager_Get vni (vxlanManager tunnel_daemon) = Some p \<longrightarrow>
      (\<exists>x. cells (netns_strings tunnel_daemon) p = Some x \<and> x \<noteq> [])"
    by (simp add: tunnel_get cell)
  have "topologyStore tunnel_daemon ''default/r1'' = Some 0" "cells (objects tunnel_daemon) 0 = Some linked_topology"
    "wire_state tunnel_daemon = initial_wires"
    by (simp_all add: tunnel_daemon_def cached_daemon_def demo_daemon_def)
  then obtain d where run: "DestroyPod (logging linked_env) (\<lambda>f. f) demo_query tunnel_daemon = (Done (True, None), d)"
    using destroy_cached [of tunnel_daemon] table by (auto simp: vnis_at_def)
  have "GetVniFromUid 1 = 5001" using GetVniFromUid_int [of 1] by (simp add: VxlanBase_def)
  moreover have "pod_net_ns linked_pod = ''/run/netns/a''" "map pb_uid (pod_links linked_pod) = [1]"
    by (simp_all add: linked_pod_def Link_ToProto_def demo_v1_link_def)
  ultimately show ?thesis using DestroyPod_keeps_vnis [OF retry_ok_once run table] run tunnel_get [of 5001] cell by auto
qed

theorem delLink_outcome_witness:
  "\<exists>d. delLink quiet_env demo_pod demo_pb_link (demo_daemon ()) = (Done None, d)"
proof -
  have "VxlanManager_Get (GetVniFromUid (pb_uid demo_pb_link)) (vxlanManager (demo_daemon ())) = Some p \<Longrightarrow>
      cells (netns_strings (demo_daemon ())) p \<noteq> None" for p
    by (simp add: demo_daemon_def vm.get_empty)
  from delLink_outcome [of demo_pb_link "demo_daemon ()" quiet_env demo_pod, OF this] show ?thesis
    by (simp add: MakeVeth_def demo_pb_link_def)
qed

theorem SetAlive_registers_witness:
  "\<exists>d p t. SetAlive (logging linked_env) (\<lambda>f. f) linked_pod cached_daemon = (Done (True, None), d)
     \<and> cells (objects d) p = Some t \<and> NetNs (Status t) = ''/run/netns/a''"
proof -
  have c: "topologyStore cached_daemon ''default/r1'' = Some 0"
    "cells (objects cached_daemon) 0 = Some linked_topology" by (simp_all add: cached_daemon_def)
  obtain d where run: "SetAlive (logging linked_env) (\<lambda>f. f) linked_pod cached_daemon = (Done (True, None), d)"
    using demo_SetAlive [OF c, of linked_pod] by (auto simp: linked_pod_def)
  have "mem_ok (objects cached_daemon)" by (simp add: mem_ok_def cached_daemon_def)
  from SetAlive_registers [OF retry_ok_once this _ _ run] run show ?thesis by (auto simp: linked_pod_def)
qed

end
