(* ===== verification/Safety.thy ===== *)
theory Safety
  imports Handlers
begin

text \<open>
  Requests run to completion. The handlers of \<open>daemon/kubedtn/handler.go\<close> follow pointers to stored
  topologies and to the namespaces of network identifiers, and take mutexes; \<open>daemon_ok\<close> is the
  condition on the state of the daemon under which none of that can go wrong, and this theory shows
  that every request keeps it and returns.

  \<open>hoare P m Q A\<close> is a triple for functions with effects: \<open>Q\<close> for a return, \<open>A\<close> for an abort.
\<close>

section \<open>Triples\<close>

named_theorems hoare_rules \<open>composition rules for triples that keep an invariant\<close>

definition hoare :: "('s \<Rightarrow> bool) \<Rightarrow> ('s, 'a) go \<Rightarrow> ('a \<Rightarrow> 's \<Rightarrow> bool) \<Rightarrow> (abort \<Rightarrow> bool) \<Rightarrow> bool" where
  "hoare P m Q A \<longleftrightarrow> (\<forall>s. P s \<longrightarrow> (case m s of (Done a, t) \<Rightarrow> Q a t | (Abort x, t) \<Rightarrow> A x))"

lemma hoareI: "(\<And>s. P s \<Longrightarrow> case m s of (Done a, t) \<Rightarrow> Q a t | (Abort x, t) \<Rightarrow> A x) \<Longrightarrow> hoare P m Q A"
  by (simp add: hoare_def)

lemma hoare_Done: "hoare P m Q A \<Longrightarrow> P s \<Longrightarrow> m s = (Done a, t) \<Longrightarrow> Q a t"
  by (fastforce simp: hoare_def)

lemma hoare_Abort: "hoare P m Q A \<Longrightarrow> P s \<Longrightarrow> m s = (Abort x, t) \<Longrightarrow> A x"
  by (fastforce simp: hoare_def)

lemma hoare_ret [hoare_rules]: "(\<And>s. P s \<Longrightarrow> Q a s) \<Longrightarrow> hoare P (ret a) Q A"
  by (simp add: hoare_def ret_run)

lemma hoare_reads: "(\<And>s. P s \<Longrightarrow> Q (f s) s) \<Longrightarrow> hoare P (reads f) Q A"
  by (simp add: hoare_def)

lemma hoare_modify: "(\<And>s. P s \<Longrightarrow> Q () (f s)) \<Longrightarrow> hoare P (modify f) Q A"
  by (simp add: hoare_def)

lemma hoare_bnd:
  assumes "hoare P m R A" "\<And>a. hoare (R a) (f a) Q A"
  shows "hoare P (bnd m f) Q A"
proof (rule hoareI)
  fix s
  assume P: "P s"
  obtain r t where run: "m s = (r, t)" by fastforce
  show "case bnd m f s of (Done a, t) \<Rightarrow> Q a t | (Abort x, t) \<Rightarrow> A x"
  proof (cases r)
    case (Done a)
    with hoare_Done [OF assms(1) P] run have "R a t" by blast
    with assms(2) [of a] Done run show ?thesis by (simp add: hoare_def)
  next
    case (Abort x)
    with hoare_Abort [OF assms(1) P] run show ?thesis by simp
  qed
qed

lemma hoare_pre: "hoare P m Q A \<Longrightarrow> (\<And>s. P' s \<Longrightarrow> P s) \<Longrightarrow> hoare P' m Q A"
  by (simp add: hoare_def)

lemma hoare_post: "hoare P m R A \<Longrightarrow> (\<And>a t. R a t \<Longrightarrow> Q a t) \<Longrightarrow> hoare P m Q A"
  unfolding hoare_def by (fastforce split: out.splits)

text \<open>Keeping an invariant \<open>I\<close>.\<close>

definition keeps_ok :: "('s \<Rightarrow> bool) \<Rightarrow> (abort \<Rightarrow> bool) \<Rightarrow> ('s, 'a) go \<Rightarrow> bool" where
  "keeps_ok I A m = hoare I m (\<lambda>_. I) A"

lemma keeps_ok_ret [hoare_rules]: "keeps_ok I A (ret a)"
  by (simp add: keeps_ok_def hoare_ret)

lemma keeps_ok_reads [hoare_rules]: "keeps_ok I A (reads f)"
  by (simp add: keeps_ok_def hoare_reads)

lemma keeps_ok_bnd [hoare_rules]: "keeps_ok I A m \<Longrightarrow> (\<And>a. keeps_ok I A (f a)) \<Longrightarrow> keeps_ok I A (bnd m f)"
  unfolding keeps_ok_def by (rule hoare_bnd)

lemma keeps_ok_check [hoare_rules]: "keeps_ok I A m \<Longrightarrow> keeps_ok I A f \<Longrightarrow> keeps_ok I A (check m f)"
  unfolding check_def by (rule keeps_ok_bnd) (auto intro: keeps_ok_ret split: option.splits)

lemma keeps_ok_orelse [hoare_rules]:
  "keeps_ok I A m \<Longrightarrow> (\<And>a. keeps_ok I A (f a)) \<Longrightarrow> keeps_ok I A (orelse m f)"
  unfolding orelse_def by (rule keeps_ok_bnd) (auto intro: keeps_ok_ret split: sum.splits)

lemma keeps_ok_foreach [hoare_rules]: "(\<And>x. keeps_ok I A (f x)) \<Longrightarrow> keeps_ok I A (foreach f xs)"
  by (induction xs) (simp_all add: hoare_rules)

lemma keeps_ok_respond [hoare_rules]: "keeps_ok I A m \<Longrightarrow> keeps_ok I A (respond m)"
  unfolding respond_def by (rule keeps_ok_bnd) (auto intro: keeps_ok_ret split: option.splits)

lemma keeps_ok_retry: "retry_ok retry \<Longrightarrow> keeps_ok I A f \<Longrightarrow> keeps_ok I A (retry f)"
proof -
  assume "retry_ok retry" and f: "keeps_ok I A f"
  then obtain n where "retry f = retry_times n f" unfolding retry_ok_def by blast
  moreover have "keeps_ok I A (retry_times n f)"
    by (induction n) (auto intro!: keeps_ok_bnd keeps_ok_ret f)
  ultimately show ?thesis by simp
qed

text \<open>A function that changes nothing the invariant looks at, and aborts only as allowed.\<close>

lemma keeps_ok_frame:
  assumes "unchanged f m" "\<And>s. I s = J (f s)" "\<And>s x. fst (m s) = Abort x \<Longrightarrow> A x"
  shows "keeps_ok I A m"
  unfolding keeps_ok_def
proof (rule hoareI)
  fix s
  assume I: "I s"
  obtain r t where run: "m s = (r, t)" by fastforce
  have "f t = f s" using unchangedD [OF assms(1) run] .
  with I have "I t" by (simp add: assms(2))
  with run assms(3) [of s] show "case m s of (Done a, t) \<Rightarrow> I t | (Abort x, t) \<Rightarrow> A x"
    by (cases r) simp_all
qed

section \<open>Valid pointers\<close>

text \<open>
  Every pointer the daemon holds refers to a cell: those of the informer's store and of the table of
  topologies to topologies, those of the table of network identifiers to strings. The daemon knows
  the address of its node.
\<close>

definition daemon_ok :: "'w daemon \<Rightarrow> bool" where
  "daemon_ok d \<longleftrightarrow>
     mem_ok (objects d) \<and> mem_ok (netns_strings d) \<and> nodeIP d \<noteq> []
     \<and> (\<forall>key p. topologyStore d key = Some p \<longrightarrow> cells (objects d) p \<noteq> None)
     \<and> (\<forall>p \<in> snd ` set (topologies (topologyManager d)). cells (objects d) p \<noteq> None)
     \<and> (\<forall>vni p. vxlans (vxlanManager d) vni = Some p \<longrightarrow> cells (netns_strings d) p \<noteq> None)"

definition no_panic :: "abort \<Rightarrow> bool" where
  "no_panic x \<longleftrightarrow> (\<forall>t. x \<noteq> Panic t)"

definition ok_state :: "'w daemon \<Rightarrow> (string \<Rightarrow> ptr option) \<times> Topology mem \<times> TopologyManager \<times> VxlanManager \<times> string mem \<times> string" where
  "ok_state d = (topologyStore d, objects d, topologyManager d, vxlanManager d, netns_strings d, nodeIP d)"

lemma daemon_ok_frame:
  assumes "unchanged ok_state m" "\<And>s x. fst (m s) = Abort x \<Longrightarrow> A x"
  shows "keeps_ok daemon_ok A m"
  by (rule keeps_ok_frame [OF assms(1), where J = "\<lambda>(st, ob, tm, vm, ns, ip).
       mem_ok ob \<and> mem_ok ns \<and> ip \<noteq> [] \<and> (\<forall>key p. st key = Some p \<longrightarrow> cells ob p \<noteq> None)
       \<and> (\<forall>p \<in> snd ` set (topologies tm). cells ob p \<noteq> None)
       \<and> (\<forall>vni p. vxlans vm vni = Some p \<longrightarrow> cells ns p \<noteq> None)"])
    (simp_all add: daemon_ok_def ok_state_def assms(2))

lemma ok_hosted [hoare_rules]:
  assumes "returns m"
  shows "keeps_ok daemon_ok A (hosted m)"
proof (rule daemon_ok_frame)
  show "unchanged ok_state (hosted m)"
    by (simp add: unchanged_def hosted_def zoom_run ok_state_def)
  show "A x" if "fst (hosted m s) = Abort x" for s x
    using that returnsD [OF assms, of "world s"] by (auto simp: hosted_def zoom_run)
qed

lemma ok_mutexes [hoare_rules]: "keeps_ok daemon_ok no_panic (mutexes (Lock k))" "keeps_ok daemon_ok no_panic (mutexes (Unlock k))"
  by (rule daemon_ok_frame; auto simp: unchanged_def mutexes_def zoom_run ok_state_def Lock_def Unlock_def Let_def
      no_panic_def split: if_splits)+

lemma ok_observe [hoare_rules]: "keeps_ok daemon_ok A (observe_since E method t0)"
  unfolding observe_since_def
proof (rule keeps_ok_bnd)
  show "keeps_ok daemon_ok A (Observe method t)" for t
    by (rule daemon_ok_frame) (simp_all add: Observe_def unchanged_def ok_state_def)
qed (simp add: hoare_rules go_rules)

section \<open>Topologies\<close>

definition ptr_ok :: "ptr \<Rightarrow> 'w daemon \<Rightarrow> bool" where
  "ptr_ok p d \<longleftrightarrow> daemon_ok d \<and> cells (objects d) p \<noteq> None"

lemma daemon_ok_alloc:
  assumes "daemon_ok d" "alloc t (objects d) = (p, h)"
  shows "ptr_ok p (d\<lparr> objects := h \<rparr>)"
proof -
  have m: "mem_ok (objects d)" using assms(1) by (simp add: daemon_ok_def)
  have "cells h p \<noteq> None" "mem_ok h" using mem_ok_alloc [OF m assms(2)] by simp_all
  moreover have "cells h q \<noteq> None" if "cells (objects d) q \<noteq> None" for q
    using that alloc_other [OF assms(2), of q] calculation by metis
  ultimately show ?thesis using assms(1) by (auto simp: ptr_ok_def daemon_ok_def)
qed

lemma ptr_ok_store: "ptr_ok p d \<Longrightarrow> ptr_ok p (d\<lparr> objects := store p t (objects d) \<rparr>)"
  unfolding ptr_ok_def daemon_ok_def by (auto simp: mem_ok_store)

lemma ptr_ok_Add:
  assumes "ptr_ok p d"
  shows "ptr_ok p (d\<lparr> topologyManager := TopologyManager_Add p t (topologyManager d) \<rparr>)"
proof -
  have "snd ` set (topologies (TopologyManager_Add p t (topologyManager d)))
      \<subseteq> insert p (snd ` set (topologies (topologyManager d)))"
    using set_update_subset by (fastforce simp: TopologyManager_Add_def Let_def)
  with assms show ?thesis unfolding ptr_ok_def daemon_ok_def by fastforce
qed

lemma daemon_ok_Delete:
  assumes "daemon_ok d"
  shows "daemon_ok (d\<lparr> topologyManager := TopologyManager_Delete name ns (topologyManager d) \<rparr>)"
proof -
  have "snd ` set (topologies (TopologyManager_Delete name ns (topologyManager d)))
      \<subseteq> snd ` set (topologies (topologyManager d))"
    by (auto simp: TopologyManager_Delete_def Let_def AList.delete_eq)
  with assms show ?thesis unfolding daemon_ok_def by fastforce
qed

lemma daemon_ok_deliver: "daemon_ok d \<Longrightarrow> daemon_ok (deliver es d)"
proof (induction es d rule: deliver.induct)
  case (2 key topology es d)
  obtain p h where a: "alloc topology (objects d) = (p, h)" by fastforce
  have "daemon_ok (d\<lparr> objects := h, topologyStore := (topologyStore d)(key \<mapsto> p) \<rparr>)"
    using daemon_ok_alloc [OF 2(2) a] by (auto simp: ptr_ok_def daemon_ok_def)
  with 2(1) [OF a [symmetric]] a show ?case by simp
next
  case (3 key es d)
  then have "daemon_ok (d\<lparr> topologyStore := (topologyStore d)(key := None) \<rparr>)"
    by (auto simp: daemon_ok_def)
  with 3(1) show ?case by simp
qed simp

lemma GetByKey_ok:
  "hoare daemon_ok (GetByKey E key) (\<lambda>r d. daemon_ok d \<and> (\<forall>p. r = Some p \<longrightarrow> ptr_ok p d)) A"
  unfolding GetByKey_def
proof (rule hoare_bnd)
  show "hoare daemon_ok (hosted (ext (informer E))) (\<lambda>_. daemon_ok) A"
    using ok_hosted [OF returns_ext] by (simp add: keeps_ok_def)
  show "hoare daemon_ok (bnd (modify (deliver events)) (\<lambda>_. reads (\<lambda>d. topologyStore d key)))
      (\<lambda>r d. daemon_ok d \<and> (\<forall>p. r = Some p \<longrightarrow> ptr_ok p d)) A" for events
    by (rule hoare_bnd [OF hoare_modify [where Q = "\<lambda>_. daemon_ok"] hoare_reads])
      (simp add: daemon_ok_deliver, fastforce simp: ptr_ok_def daemon_ok_def)
qed

lemma new_object_ok: "hoare daemon_ok (new_object t) ptr_ok A"
  by (rule hoareI) (auto simp: new_object_def daemon_ok_alloc split: prod.splits)

text \<open>\<open>getPod\<close> returns a valid pointer, or an error.\<close>

lemma getPod_ok:
  "hoare daemon_ok (getPod E name ns) (\<lambda>r d. daemon_ok d \<and> (\<forall>p. r = Inr p \<longrightarrow> ptr_ok p d)) A"
proof -
  have fetch: "hoare daemon_ok (bnd (hosted (ext (Topology_Get (rest E) n name))) (\<lambda>r. case r of
               Inl err \<Rightarrow> ret (Inl err)
             | Inr topology \<Rightarrow> bnd (new_object topology) (\<lambda>p. ret (Inr p))))
      (\<lambda>r d. daemon_ok d \<and> (\<forall>p. r = Inr p \<longrightarrow> ptr_ok p d)) A" for n
    by (rule hoare_bnd [OF ok_hosted [OF returns_ext, unfolded keeps_ok_def]])
      (auto intro!: hoare_ret hoare_bnd [OF new_object_ok] simp: ptr_ok_def split: sum.splits)
  have "hoare (\<lambda>d. daemon_ok d \<and> (\<forall>p. obj = Some p \<longrightarrow> ptr_ok p d))
      (case obj of
           None \<Rightarrow>
             bnd (hosted (ext (Topology_Get (rest E) n name))) (\<lambda>r. case r of
               Inl err \<Rightarrow> ret (Inl err)
             | Inr topology \<Rightarrow> bnd (new_object topology) (\<lambda>p. ret (Inr p)))
         | Some p \<Rightarrow> ret (Inr p))
      (\<lambda>r d. daemon_ok d \<and> (\<forall>p. r = Inr p \<longrightarrow> ptr_ok p d)) A" for obj n
    by (cases obj) (auto intro: hoare_pre [OF fetch] hoare_ret)
  then show ?thesis unfolding getPod_def Let_def by (rule hoare_bnd [OF GetByKey_ok])
qed

text \<open>What follows a successful \<open>getPod\<close> may rely on its pointer.\<close>

lemma keeps_ok_getPod:
  assumes "\<And>e. keeps_ok daemon_ok A (f (Inl e))" "\<And>p. hoare (ptr_ok p) (f (Inr p)) (\<lambda>_. daemon_ok) A"
  shows "keeps_ok daemon_ok A (bnd (getPod E name ns) f)"
  unfolding keeps_ok_def
proof (rule hoare_bnd [OF getPod_ok])
  fix r
  show "hoare (\<lambda>d. daemon_ok d \<and> (\<forall>p. r = Inr p \<longrightarrow> ptr_ok p d)) (f r) (\<lambda>_. daemon_ok) A"
  proof (cases r)
    case (Inl e)
    show ?thesis by (rule hoare_pre [OF assms(1) [of e, unfolded keeps_ok_def], folded Inl]) simp
  next
    case (Inr p)
    show ?thesis by (rule hoare_pre [OF assms(2) [of p], folded Inr]) (simp add: Inr)
  qed
qed

lemma hoare_deref:
  assumes "\<And>t. hoare (ptr_ok p) (f t) Q A"
  shows "hoare (ptr_ok p) (bnd (deref p) f) Q A"
proof (rule hoareI)
  fix d :: "'a daemon"
  assume d: "ptr_ok p d"
  then obtain t where "cells (objects d) p = Some t" by (auto simp: ptr_ok_def)
  then have "bnd (deref p) f d = f t d" by (simp add: deref_def)
  with assms [of t] d show "case bnd (deref p) f d of (Done a, t) \<Rightarrow> Q a t | (Abort x, t) \<Rightarrow> A x"
    by (simp add: hoare_def)
qed

lemma hoare_keeps: "keeps_ok daemon_ok A m \<Longrightarrow> hoare (ptr_ok p) m (\<lambda>_. daemon_ok) A"
  by (simp add: keeps_ok_def hoare_def ptr_ok_def)

lemma updateStatus_ok: "hoare (ptr_ok p) (updateStatus E p ns) (\<lambda>_. daemon_ok) A"
  unfolding updateStatus_def
  by (rule hoare_deref, rule hoare_keeps) (auto intro!: hoare_rules go_rules split: sum.splits)

lemma set_status_ok: "keeps_ok daemon_ok A (set_status E pod alive)"
  unfolding set_status_def
proof (rule keeps_ok_getPod)
  show "hoare (ptr_ok p) (case Inr p of Inl err \<Rightarrow> ret (Some err) | Inr p \<Rightarrow>
         bnd (deref p) (\<lambda>topology.
         bnd (modify (\<lambda>d. d\<lparr> topologyManager :=
                (if alive then TopologyManager_Add p topology (topologyManager d)
                 else TopologyManager_Delete (Name topology) (Namespace topology) (topologyManager d)) \<rparr>)) (\<lambda>_.
         bnd (assign p (topology\<lparr> Status := (Status topology)
                \<lparr> SrcIP := pod_src_ip pod, NetNs := pod_net_ns pod \<rparr> \<rparr>)) (\<lambda>_.
         updateStatus E p (pod_kube_ns pod))))) (\<lambda>_. daemon_ok) A" for p
    unfolding sum.case assign_def
    by (intro hoare_deref hoare_bnd [OF hoare_modify [where Q = "\<lambda>_. ptr_ok p"]] updateStatus_ok)
      (simp_all add: ptr_ok_Add ptr_ok_store, simp add: ptr_ok_def daemon_ok_Delete)
qed (simp add: hoare_rules)

lemma set_finalizer_ok: "keeps_ok daemon_ok A (set_finalizer E pod alive)"
  unfolding set_finalizer_def Let_def
proof (rule keeps_ok_getPod)
  show "hoare (ptr_ok p) (case Inr p of Inl err \<Rightarrow> ret (Some err) | Inr p \<Rightarrow>
         bnd (deref p) (\<lambda>topology.
         bnd (assign p (topology\<lparr> Finalizers :=
               (if alive then Finalizers topology @ [group_version] else []) \<rparr>)) (\<lambda>_.
            bnd (hosted (ext (Topology_Update (rest E) (pod_kube_ns pod) (topology\<lparr> Finalizers :=
               (if alive then Finalizers topology @ [group_version] else []) \<rparr>)))) (\<lambda>r. case r of
              Inl err \<Rightarrow> ret (Some err)
            | Inr _ \<Rightarrow> ret None)))) (\<lambda>_. daemon_ok) A" for p
    unfolding sum.case assign_def
    by (intro hoare_deref hoare_bnd [OF hoare_modify [where Q = "\<lambda>_. ptr_ok p"]] hoare_keeps)
      (auto simp: ptr_ok_store intro!: hoare_rules go_rules split: sum.splits)
qed (simp add: hoare_rules)

lemma SetAlive_ok:
  assumes "retry_ok retry"
  shows "keeps_ok daemon_ok A (SetAlive E retry pod)"
  unfolding SetAlive_def Let_def
  by (auto intro!: keeps_ok_bnd keeps_ok_ret keeps_ok_retry [OF assms set_status_ok]
      keeps_ok_retry [OF assms set_finalizer_ok] split: option.splits)

lemma Get_ok [hoare_rules]: "keeps_ok daemon_ok A (Get E q)"
  unfolding Get_def orelse_def
  by (rule keeps_ok_getPod) (auto intro!: hoare_rules hoare_deref simp: ptr_ok_def)

section \<open>Links\<close>

text \<open>A specification with a source address needs no default route, so its creation returns.\<close>

lemma returns_SetupVxLan:
  assumes "vs_SrcIp v \<noteq> []"
  shows "returns (SetupVxLan N bypass v p)"
proof -
  have "returns (vxlan_source N v)"
    using assms unfolding vxlan_source_def GetVxlanSource_def by (auto intro!: go_rules split: option.splits)
  moreover have m: "returns (make_vxlan N v veth x)" for veth x
    unfolding make_vxlan_def by (auto intro!: go_rules split: option.splits)
  have "returns (update_link N v veth x l)" for veth x l
    unfolding update_link_def by (auto intro!: go_rules m split: option.splits nlink.splits)
  ultimately have "returns (CreateOrUpdate N v)"
    unfolding CreateOrUpdate_def by (auto intro!: go_rules returns_getLinkFromNS split: prod.splits)
  then show ?thesis
    unfolding SetupVxLan_def by (auto intro!: go_rules returns_SetVethQdiscs split: sum.splits)
qed

lemma add_vni_ok [hoare_rules]: "keeps_ok daemon_ok A (add_vni vni netns)"
  unfolding keeps_ok_def add_vni_def
proof (rule hoare_modify)
  fix d :: "'a daemon"
  assume d: "daemon_ok d"
  obtain p h where a: "alloc netns (netns_strings d) = (p, h)" by fastforce
  have m: "mem_ok (netns_strings d)" using d by (simp add: daemon_ok_def)
  have "cells h p \<noteq> None" "mem_ok h" using mem_ok_alloc [OF m a] by simp_all
  moreover have "cells h q \<noteq> None" if "cells (netns_strings d) q \<noteq> None" for q
    using that alloc_other [OF a, of q] calculation by metis
  ultimately show "daemon_ok (case alloc netns (netns_strings d) of (p, h) \<Rightarrow>
     d\<lparr> netns_strings := h, vxlanManager := VxlanManager_Add vni p (vxlanManager d) \<rparr>)"
    using d a by (auto simp: daemon_ok_def VxlanManager_Add_def)
qed

text \<open>A pointer from the table of identifiers is followed at once.\<close>

lemma keeps_ok_vni:
  assumes "keeps_ok daemon_ok A (f None)" "\<And>p x. keeps_ok daemon_ok A (g x)"
    and "\<And>p. f (Some p) = bnd (deref_string p) g"
  shows "keeps_ok daemon_ok A (bnd (reads (\<lambda>d. VxlanManager_Get vni (vxlanManager d))) f)"
  unfolding keeps_ok_def
proof (rule hoareI)
  fix d :: "'a daemon"
  assume d: "daemon_ok d"
  show "case bnd (reads (\<lambda>d. VxlanManager_Get vni (vxlanManager d))) f d of (Done a, t) \<Rightarrow> daemon_ok t | (Abort x, t) \<Rightarrow> A x"
  proof (cases "vxlans (vxlanManager d) vni")
    case None
    with assms(1) d show ?thesis by (simp add: keeps_ok_def hoare_def bnd_reads VxlanManager_Get_def)
  next
    case (Some p)
    with d obtain x where "cells (netns_strings d) p = Some x" by (fastforce simp: daemon_ok_def)
    then have "bnd (deref_string p) g d = g x d" by (simp add: deref_string_def)
    with Some assms(2) [of x] d show ?thesis
      by (simp add: keeps_ok_def hoare_def bnd_reads VxlanManager_Get_def assms(3))
  qed
qed

lemma forget_vni_ok [hoare_rules]: "keeps_ok daemon_ok A (forget_vni vni netns)"
  unfolding forget_vni_def
proof (rule keeps_ok_vni)
  show "keeps_ok daemon_ok A (if x = netns then modify (\<lambda>d. d\<lparr> vxlanManager := VxlanManager_Delete vni (vxlanManager d) \<rparr>)
         else ret ())" for x
    by (auto simp: keeps_ok_def VxlanManager_Delete_def daemon_ok_def intro!: hoare_modify hoare_ret split: if_splits)
qed (simp_all add: hoare_rules)

lemma delLink_ok [hoare_rules]: "keeps_ok daemon_ok A (delLink E pod link)"
  unfolding delLink_def by (auto intro!: hoare_rules returns_ext split: sum.splits)

lemma updateLink_ok [hoare_rules]: "keeps_ok daemon_ok A (updateLink E pod link)"
  unfolding updateLink_def by (auto intro!: hoare_rules returns_ext returns_SetVethQdiscs split: sum.splits)

text \<open>The tunnels of a daemon have its node's address as their source.\<close>

lemma SetupVxLan_ok:
  assumes "\<And>d. vs_SrcIp (spec d) = nodeIP d" "\<And>s r. keeps_ok daemon_ok A (f s r)"
  shows "keeps_ok daemon_ok A (bnd (reads spec) (\<lambda>s. bnd (hosted (SetupVxLan N bypass s p)) (f s)))"
  unfolding keeps_ok_def
proof (rule hoareI)
  fix d :: "'a daemon"
  assume d: "daemon_ok d"
  then have "vs_SrcIp (spec d) \<noteq> []" by (simp add: assms(1) daemon_ok_def)
  then have "keeps_ok daemon_ok A (bnd (hosted (SetupVxLan N bypass (spec d) p)) (f (spec d)))"
    by (intro keeps_ok_bnd ok_hosted returns_SetupVxLan assms(2))
  with d show "case bnd (reads spec) (\<lambda>s. bnd (hosted (SetupVxLan N bypass s p)) (f s)) d of
      (Done a, t) \<Rightarrow> daemon_ok t | (Abort x, t) \<Rightarrow> A x"
    by (simp add: keeps_ok_def hoare_def bnd_reads)
qed

lemma update_locked_ok: "keeps_ok daemon_ok A (update_locked E bypass pod t0)"
proof -
  define k where "k = bnd (reads (update_spec pod)) (\<lambda>vxlanSpec.
     bnd (hosted (SetupVxLan (net E) bypass vxlanSpec (rp_properties pod))) (\<lambda>r. case r of
       Some err \<Rightarrow> ret (False, Some err)
     | None \<Rightarrow>
         bnd (add_vni (rp_vni pod) (rp_net_ns pod)) (\<lambda>_.
         bnd (observe_since E ''remoteUpdate'' t0) (\<lambda>_. ret (True, None :: error option)))))"
  have k: "keeps_ok daemon_ok A k"
    unfolding k_def by (rule SetupVxLan_ok) (auto simp: update_spec_def intro!: hoare_rules split: option.splits)
  show ?thesis
    unfolding update_locked_def k_def [symmetric]
    by (rule keeps_ok_vni [where g = "\<lambda>old. bnd (if old \<noteq> rp_net_ns pod
              then bnd (hosted (RemoveLinkWithVni (net E) (rp_vni pod) old)) (\<lambda>_. ret ())
              else ret ()) (\<lambda>_. k)"])
      (auto simp: bnd_bnd intro!: keeps_ok_bnd keeps_ok_ret ok_hosted returns_RemoveLinkWithVni k)
qed

lemma Update_ok: "keeps_ok daemon_ok no_panic (Update E bypass pod)"
  unfolding Update_def Let_def by (auto intro!: hoare_rules returns_ext update_locked_ok)

lemma add_same_host_ok: "keeps_ok daemon_ok no_panic (add_same_host E bypass pod peer veth link t0)"
  unfolding add_same_host_def by (auto intro!: hoare_rules returns_SetupVeth split: sum.splits)

text \<open>Reading what a mutex does not change can be postponed until it is taken.\<close>

lemma reads_mutexes_commute:
  assumes "\<And>d x. g (d\<lparr> linkMutexes := x \<rparr>) = g d"
  shows "bnd (reads g) (\<lambda>s. bnd (mutexes m) (f s)) = bnd (mutexes m) (\<lambda>a. bnd (reads g) (\<lambda>s. f s a))"
  by (rule HOL.ext) (simp add: bnd_def mutexes_def zoom_run assms split: out.splits)

lemma add_other_host_ok: "keeps_ok daemon_ok no_panic (add_other_host E bypass pod peer link t0)"
  unfolding add_other_host_def
proof (subst reads_mutexes_commute)
  show "link_spec pod peer link (d\<lparr> linkMutexes := x \<rparr>) = link_spec pod peer link d" for d x
    by (simp add: link_spec_def)
  show "keeps_ok daemon_ok no_panic (bnd (mutexes (Lock (pb_uid link))) (\<lambda>_.
        bnd (reads (link_spec pod peer link)) (\<lambda>vxlanSpec.
        bnd (hosted (SetupVxLan (net E) bypass vxlanSpec (pb_properties link))) (\<lambda>r. case r of
          Some err \<Rightarrow> bnd (mutexes (Unlock (pb_uid link))) (\<lambda>_. ret (Some err))
        | None \<Rightarrow>
            bnd (add_vni (vs_Vni vxlanSpec) (vs_NetNs vxlanSpec)) (\<lambda>_.
            bnd (mutexes (Unlock (pb_uid link))) (\<lambda>_.
            check (hosted (UpdateRemote (rpc E) pod peer link))
              (bnd (observe_since E ''add'' t0) (\<lambda>_. ret None))))))))"
    by (intro keeps_ok_bnd [OF ok_mutexes(1)] SetupVxLan_ok)
      (auto simp: link_spec_def intro!: hoare_rules returns_UpdateRemote split: option.splits)
qed

lemma add_virtual_ok: "keeps_ok daemon_ok no_panic (add_virtual E bypass pod veth link t0)"
  unfolding add_virtual_def
proof (rule keeps_ok_getPod)
  fix p
  have "keeps_ok daemon_ok no_panic (case ToProtoPod t of
           Inl err \<Rightarrow> ret (Some err)
         | Inr peerPod \<Rightarrow>
             if \<not> (pod_src_ip peerPod \<noteq> [] \<and> pod_net_ns peerPod \<noteq> []) then ret None
             else if pod_src_ip peerPod = pod_src_ip pod
             then add_same_host E bypass pod peerPod veth link t0
             else add_other_host E bypass pod peerPod link t0)" for t
    by (auto intro: keeps_ok_ret add_same_host_ok add_other_host_ok split: sum.splits)
  then show "hoare (ptr_ok p) (case Inr p of Inl err \<Rightarrow> ret (Some err) | Inr p \<Rightarrow>
         bnd (deref p) (\<lambda>peerTopology. case ToProtoPod peerTopology of
           Inl err \<Rightarrow> ret (Some err)
         | Inr peerPod \<Rightarrow>
             if \<not> (pod_src_ip peerPod \<noteq> [] \<and> pod_net_ns peerPod \<noteq> []) then ret None
             else if pod_src_ip peerPod = pod_src_ip pod
             then add_same_host E bypass pod peerPod veth link t0
             else add_other_host E bypass pod peerPod link t0)) (\<lambda>_. daemon_ok) no_panic"
    unfolding sum.case by (intro hoare_deref hoare_keeps)
qed (simp add: keeps_ok_ret)

lemma addLink_ok [hoare_rules]: "keeps_ok daemon_ok no_panic (addLink E pod link)"
  unfolding addLink_def
  by (auto intro!: hoare_rules returns_ext Update_ok add_virtual_ok split: sum.splits)

section \<open>Requests\<close>

lemma SetupPod_ok:
  assumes "retry_ok retry"
  shows "keeps_ok daemon_ok no_panic (SetupPod E retry q)"
  unfolding SetupPod_def Let_def AddLinks_def
  by (auto intro!: hoare_rules SetAlive_ok [OF assms] split: sum.splits prod.splits)

text \<open>\<open>DestroyPod\<close> is as safe as its removal of wires.\<close>

lemma DestroyPod_ok:
  assumes "retry_ok retry"
    and "\<And>d. P d \<Longrightarrow> daemon_ok d"
    and "\<And>d. P d \<Longrightarrow> P (d\<lparr> topologyManager := TopologyManager_Delete (pq_name q) (pq_kube_ns q) (topologyManager d) \<rparr>)"
    and "hoare P (wired (RemGRPCWire (net E) (errlist E) (order E) (destroy_wire q))) (\<lambda>_. daemon_ok) A"
  shows "hoare P (DestroyPod E retry q) (\<lambda>_. daemon_ok) A"
  unfolding DestroyPod_def
proof (rule hoare_bnd [OF hoare_modify [where Q = "\<lambda>_. P"]])
  show "P (s\<lparr> topologyManager := TopologyManager_Delete (pq_name q) (pq_kube_ns q) (topologyManager s) \<rparr>)" if "P s" for s
    using that by (rule assms(3))
next
  show "hoare P (bnd (wired (RemGRPCWire (net E) (errlist E) (order E) (destroy_wire q))) (\<lambda>(response, err).
     if err \<noteq> None \<or> \<not> response
     then ret (False, Some (case err of Some e \<Rightarrow> Wrap ''could not remove grpc wire: '' e
                                      | None \<Rightarrow> Errorf ''could not remove grpc wire: <nil>''))
     else bnd (Get E q) (\<lambda>r. case r of
       Inl err \<Rightarrow> ret (False, None)
     | Inr pod0 \<Rightarrow>
         let localPod = pod0\<lparr> pod_net_ns := [], pod_src_ip := [] \<rparr>
         in bnd (SetAlive E retry localPod) (\<lambda>(_, err). case err of
              Some e \<Rightarrow> ret (False, Some (Wrap ''could not set alive status: '' e))
            | None \<Rightarrow>
                bnd (DelLinks E \<lparr> lbq_local_pod = Some localPod, lbq_links = pod_links localPod \<rparr>) (\<lambda>(response, err).
                  if err \<noteq> None \<or> \<not> response then ret (False, err) else ret (True, None)))))) (\<lambda>_. daemon_ok) A"
    unfolding DelLinks_def Let_def
    by (rule hoare_bnd [OF assms(4)])
      (auto intro!: hoare_rules SetAlive_ok [OF assms(1)] simp: keeps_ok_def [symmetric] split: sum.splits prod.splits option.splits)
qed

lemma wired_ok: "keeps_ok daemon_ok (\<lambda>_. True) (wired m)"
  by (rule daemon_ok_frame) (simp_all add: unchanged_def wired_def zoom_run ok_state_def split: prod.splits)

text \<open>Without a wire for the pod, \<open>RemGRPCWire\<close> has nothing to do.\<close>

definition no_wires :: "'w env \<Rightarrow> pb_PodQuery \<Rightarrow> 'w daemon \<Rightarrow> bool" where
  "no_wires E q d \<longleftrightarrow> GetWiresByPod (order E) (pq_kube_ns q) (pq_name q) (wire_state d) = []"

lemma RemGRPCWire_none:
  assumes "no_wires E q d"
  shows "wired (RemGRPCWire (net E) (errlist E) (order E) (destroy_wire q)) d = (Done (True, None), d)"
  using assms
  by (simp add: wired_def zoom_run RemGRPCWire_def DeleteWiresByPod_def bnd_bnd bnd_reads destroy_wire_def
      no_wires_def ret_run)

fun wireless :: "'w env \<Rightarrow> request \<Rightarrow> 'w daemon \<Rightarrow> bool" where
  "wireless E (RDestroyPod q) d = no_wires E q d"
| "wireless E _ d = True"

text \<open>A batch names a pod; the other requests name one by its name.\<close>

fun pod_given :: "request \<Rightarrow> bool" where
  "pod_given (RAddLinks q) = (lbq_local_pod q \<noteq> None)"
| "pod_given (RDelLinks q) = (lbq_local_pod q \<noteq> None)"
| "pod_given (RUpdateLinks q) = (lbq_local_pod q \<noteq> None)"
| "pod_given _ = True"

lemma no_pod_panics:
  "\<not> pod_given req \<Longrightarrow> serve E retry req d = (Abort (Panic ''nil pointer dereference''), d)"
  by (cases req) (simp_all add: AddLinks_def DelLinks_def UpdateLinks_def halt_run)

text \<open>
  Every request keeps the condition; one that names a pod, and has no wire to remove, does not panic
  either.
\<close>

lemma serve_keeps_ok:
  assumes "retry_ok retry"
  shows "hoare daemon_ok (serve E retry req) (\<lambda>_. daemon_ok) (\<lambda>_. True)"
    and "pod_given req \<Longrightarrow> hoare (\<lambda>d. daemon_ok d \<and> wireless E req d) (serve E retry req) (\<lambda>_. daemon_ok) no_panic"
proof -
  have ok: "keeps_ok daemon_ok no_panic (serve E retry req)" if "\<And>q. req \<noteq> RDestroyPod q" "pod_given req"
    using that
    by (cases req)
      (auto simp: AddLinks_def DelLinks_def UpdateLinks_def
        intro!: Update_ok keeps_ok_respond keeps_ok_foreach addLink_ok delLink_ok updateLink_ok
          SetAlive_ok [OF assms] SetupPod_ok [OF assms])
  have weak: "hoare P m Q (\<lambda>_. True)" if "hoare P m Q B" for P Q B and m :: "('w daemon, 'b) go"
    using that unfolding hoare_def by (fastforce split: out.splits)
  have destroy: "hoare daemon_ok (DestroyPod E retry q) (\<lambda>_. daemon_ok) (\<lambda>_. True)" for q
    by (rule DestroyPod_ok [OF assms]) (simp_all add: daemon_ok_Delete wired_ok [unfolded keeps_ok_def])
  show "hoare daemon_ok (serve E retry req) (\<lambda>_. daemon_ok) (\<lambda>_. True)"
  proof (cases "pod_given req")
    case True
    then show ?thesis using ok destroy weak by (cases req) (auto simp: keeps_ok_def)
  qed (simp add: hoare_def no_pod_panics)
  have "hoare (\<lambda>d. daemon_ok d \<and> no_wires E q d) (DestroyPod E retry q) (\<lambda>_. daemon_ok) no_panic" for q
  proof (rule DestroyPod_ok [OF assms])
    show "hoare (\<lambda>d. daemon_ok d \<and> no_wires E q d)
       (wired (RemGRPCWire (net E) (errlist E) (order E) (destroy_wire q))) (\<lambda>_. daemon_ok) no_panic"
      by (rule hoareI) (simp add: RemGRPCWire_none)
  qed (auto simp: daemon_ok_Delete no_wires_def)
  then show "hoare (\<lambda>d. daemon_ok d \<and> wireless E req d) (serve E retry req) (\<lambda>_. daemon_ok) no_panic" if "pod_given req"
    using ok that by (cases req) (auto simp: keeps_ok_def)
qed

text \<open>
  A request that names a pod, on a daemon that holds no mutex, has valid pointers and no wire to
  remove, returns, and leaves the daemon in such a state.
\<close>

lemma serve_returns:
  assumes "retry_ok retry" "daemon_ok d" "held (linkMutexes d) = {}" "wireless E req d" "pod_given req"
  shows "\<exists>r d'. serve E retry req d = (Done r, d') \<and> daemon_ok d' \<and> held (linkMutexes d') = {}"
proof -
  obtain r d' where run: "serve E retry req d = (r, d')" by fastforce
  note locks = lockingD [OF locks_ok_serve [OF assms(1), unfolded locks_ok_def, rule_format] assms(3) run]
  show ?thesis
  proof (cases r)
    case (Done a)
    with run locks hoare_Done [OF serve_keeps_ok(1) [OF assms(1)] assms(2)] show ?thesis by auto
  next
    case (Abort x)
    with run have "no_panic x"
      using hoare_Abort [OF serve_keeps_ok(2) [OF assms(1,5)]] assms(2,4) by blast
    with locks Abort show ?thesis by (auto simp: no_panic_def)
  qed
qed

end
