(* ===== verification/Startup.thy ===== *)
theory Startup
  imports Safety Pods
begin

text \<open>
  \<open>daemon/kubedtn/kubedtn.go\<close>: the start of the daemon, and the states a running daemon reaches.

  \<open>'w boot\<close> holds what the start needs of the packages for Kubernetes clients, of the network and of the
  environment; client configurations are passed on unread, so the model leaves them out. The gRPC
  server and the informer are values of those packages; the informer's store starts empty.
\<close>

section \<open>Starting\<close>

record Config =
  Port :: int64
  cfg_TCPIPBypass :: bool

record 'w boot =
  InClusterConfig :: "'w \<Rightarrow> error option \<times> 'w"
  HomeDir :: "'w \<Rightarrow> string \<times> 'w"
  BuildConfigFromFlags :: "string \<Rightarrow> 'w \<Rightarrow> error option \<times> 'w"
  kubernetes_NewForConfig :: "'w \<Rightarrow> error option \<times> 'w"
  dynamic_NewForConfig :: "'w \<Rightarrow> error option \<times> 'w"
  RESTClientFor :: "'w \<Rightarrow> error option \<times> 'w"
  Listen :: "string \<Rightarrow> 'w \<Rightarrow> error option \<times> 'w"
  Getenv :: "string \<Rightarrow> 'w \<Rightarrow> string \<times> 'w"

definition restConfig :: "'w boot \<Rightarrow> ('w, error option) go" where
  "restConfig B =
     bnd (ext (InClusterConfig B)) (\<lambda>err.
     if err \<noteq> None then
       (let kubecfg = filepath_Join [''.kube'', ''config'']
        in bnd (ext (HomeDir B)) (\<lambda>home.
             ext (BuildConfigFromFlags B (if home \<noteq> [] then filepath_Join [home, kubecfg] else kubecfg))))
     else ret None)"

text \<open>\<open>NewForConfig\<close> of the topology client, without the values it returns.\<close>

definition NewForConfig :: "'w boot \<Rightarrow> ('w, error option) go" where
  "NewForConfig B = check (ext (dynamic_NewForConfig B)) (check (ext (RESTClientFor B)) (ret None))"

lemma NewForConfig_forgets:
  assumes "\<And>w. dynamic_NewForConfig B w = (case cg_dynamic_NewForConfig G c w of (r, w') \<Rightarrow> (case r of Inl e \<Rightarrow> Some e | Inr _ \<Rightarrow> None, w'))"
    and "\<And>w. RESTClientFor B w = (case cg_RESTClientFor G (client_config G c) w of (r, w') \<Rightarrow> (case r of Inl e \<Rightarrow> Some e | Inr _ \<Rightarrow> None, w'))"
  shows "NewForConfig B = bnd (Clientset_NewForConfig G c) (\<lambda>r. ret (case r of Inl e \<Rightarrow> Some e | Inr _ \<Rightarrow> None))"
proof (rule HOL.ext)
  fix w
  obtain r1 w1 where d: "cg_dynamic_NewForConfig G c w = (r1, w1)" by fastforce
  obtain r2 w2 where r: "cg_RESTClientFor G (client_config G c) w1 = (r2, w2)" by fastforce
  show "NewForConfig B w = bnd (Clientset_NewForConfig G c) (\<lambda>r. ret (case r of Inl e \<Rightarrow> Some e | Inr _ \<Rightarrow> None)) w"
    using assms d r
    by (simp add: NewForConfig_def Clientset_NewForConfig_def check_def orelse_def bnd_bnd bnd_ext ret_run split: sum.splits)
qed

fun filter_local_loop :: "string \<Rightarrow> Topology list \<Rightarrow> Topology list \<Rightarrow> Topology list" where
  "filter_local_loop ip [] filtered = filtered"
| "filter_local_loop ip (topology # ts) filtered =
     filter_local_loop ip ts
       (if SrcIP (Status topology) = ip then filtered @ [topology] else filtered)"

definition filterLocalTopologies :: "TopologyList \<Rightarrow> string \<Rightarrow> TopologyList" where
  "filterLocalTopologies list ip = \<lparr> Items = filter_local_loop ip (Items list) [] \<rparr>"

definition init_vxlans :: "'w env \<Rightarrow> TopologyList \<Rightarrow> ('w daemon, VxlanManager) go" where
  "init_vxlans E list = (\<lambda>d.
     case VxlanManager_Init (net E) list (netns_strings d) NewVxlanManager (world d) of
       (Done (h, m), w) \<Rightarrow> (Done m, d\<lparr> netns_strings := h, world := w \<rparr>)
     | (Abort x, w) \<Rightarrow> (Abort x, d\<lparr> world := w \<rparr>))"

definition init_topologies :: "TopologyList \<Rightarrow> ('w daemon, unit) go" where
  "init_topologies list = modify (\<lambda>d.
     case TopologyManager_Init list (objects d) (topologyManager d) of
       (h, m) \<Rightarrow> d\<lparr> objects := h, topologyManager := m \<rparr>)"

text \<open>
  \<open>New\<close> runs in a process that holds the table of topologies created by \<open>main\<close>; if it succeeds, the
  fields of the new \<open>KubeDTN\<close> are those of the state.
\<close>

definition New :: "'w env \<Rightarrow> 'w boot \<Rightarrow> Config \<Rightarrow> ('w daemon, error option) go" where
  "New E B cfg =
     check (hosted (restConfig B))
     (check (hosted (ext (kubernetes_NewForConfig B)))
     (check (hosted (NewForConfig B))
     (check (hosted (ext (Listen B ('':'' @ format_d (Port cfg)))))
     (bnd (hosted (ext (Getenv B ''HOST_IP''))) (\<lambda>ip.
      bnd (hosted (ext (Topology_List (rest E) []))) (\<lambda>r. case r of
        Inl err \<Rightarrow> ret (Some (Wrap ''failed to list topologies: '' err))
      | Inr list \<Rightarrow>
          let localTopologies = filterLocalTopologies list ip
          in bnd (init_topologies localTopologies) (\<lambda>_.
             bnd (init_vxlans E localTopologies) (\<lambda>vm.
             bnd (hosted (GetVxlanSource (net E) ip)) (\<lambda>r. case r of
               Inl err \<Rightarrow> ret (Some (Wrap ''failed to get vxlan source: '' err))
             | Inr (_, intf) \<Rightarrow>
                 bnd (modify (\<lambda>d. d\<lparr> TCPIPBypass := cfg_TCPIPBypass cfg, topologyStore := (\<lambda>_. None),
                        vxlanManager := vm, linkMutexes := (\<lambda>_. None), nodeIP := ip, vxlanIntf := intf \<rparr>)) (\<lambda>_.
                 ret None))))))))))"

text \<open>The process before \<open>New\<close>.\<close>

definition new_process :: "'w \<Rightarrow> 'w daemon" where
  "new_process w =
     \<lparr> world = w, TCPIPBypass = False, nodeIP = [], vxlanIntf = [],
       topologyStore = (\<lambda>_. None), objects = empty_mem, topologyManager = NewTopologyManager,
       vxlanManager = NewVxlanManager, netns_strings = empty_mem, linkMutexes = (\<lambda>_. None),
       wire_state = initial_wires, observations = [] \<rparr>"

section \<open>The topologies of the node\<close>

lemma filter_local_loop_eq:
  "filter_local_loop ip ts acc = acc @ filter (\<lambda>t. SrcIP (Status t) = ip) ts"
  by (induction ts arbitrary: acc) simp_all

lemma filterLocalTopologies_eq:
  "Items (filterLocalTopologies l ip) = filter (\<lambda>t. SrcIP (Status t) = ip) (Items l)"
  by (simp add: filterLocalTopologies_def filter_local_loop_eq)

section \<open>A started daemon has valid pointers\<close>

lemma topologies_init_loop_ok:
  assumes "topologies_init_loop ts h m = (h', m')" "mem_ok h" "\<forall>p \<in> snd ` set (topologies m). cells h p \<noteq> None"
  shows "mem_ok h' \<and> (\<forall>p \<in> snd ` set (topologies m'). cells h' p \<noteq> None)"
  using assms
proof (induction ts arbitrary: h m)
  case (Cons t ts)
  obtain p h1 where a: "alloc t h = (p, h1)" by fastforce
  let ?m = "m\<lparr> topologies := AList.update (Name t) p (topologies m) \<rparr>"
  have h1: "mem_ok h1" "cells h1 p = Some t" using mem_ok_alloc [OF Cons.prems(2) a] by simp_all
  have "cells h1 q \<noteq> None" if "q \<in> snd ` set (topologies ?m)" for q
  proof -
    have "q = p \<or> q \<in> snd ` set (topologies m)"
      using that set_update_subset [of "Name t" p "topologies m"] by fastforce
    then show ?thesis using Cons.prems(3) h1(2) alloc_other [OF a, of q] by fastforce
  qed
  with Cons.IH [of h1 ?m] Cons.prems(1) a h1(1) show ?case by simp
qed simp

lemma init_loop_ok:
  assumes "init_loop N p ts h m w = (Done (h', m'), w')" "mem_ok h" "cells h p \<noteq> None"
    and "\<And>vni q. vxlans m vni = Some q \<Longrightarrow> q = p"
  shows "mem_ok h' \<and> cells h' p \<noteq> None \<and> (\<forall>vni q. vxlans m' vni = Some q \<longrightarrow> q = p)"
  using assms
proof (induction ts arbitrary: h m w)
  case Nil
  then show ?case by (auto simp: ret_run)
next
  case (Cons t ts)
  let ?h = "store p (NetNs (Status t)) h"
  have h: "mem_ok ?h" "cells ?h p \<noteq> None" using Cons.prems(2,3) by (simp_all add: mem_ok_store)
  have step: ?case if "init_loop N p ts ?h m1 w1 = (Done (h', m'), w')" "\<And>vni q. vxlans m1 vni = Some q \<Longrightarrow> q = p" for m1 w1
    by (rule Cons.IH [OF that(1) h that(2)])
  show ?case
  proof (cases "NetNs (Status t) = []")
    case True
    with Cons.prems(1) step [of m w] Cons.prems(4) show ?thesis by (simp add: Let_def)
  next
    case False
    obtain links w1 where links: "netns_links N (NetNs (Status t)) w = (Done links, w1)"
      using returnsD [OF returns_netns_links, of N "NetNs (Status t)" w] by blast
    have "vxlans (store_vnis p links m) vni = Some q \<Longrightarrow> q = p" for vni q
      using Cons.prems(4) store_vnis_get [of vni p links m] by (auto simp: VxlanManager_Get_def split: if_splits)
    with step [of "store_vnis p links m" w1] Cons.prems(1) False links show ?thesis by (simp add: Let_def)
  qed
qed

text \<open>What holds of the pointers while the daemon starts.\<close>

definition starting_ok :: "'w daemon \<Rightarrow> bool" where
  "starting_ok d \<longleftrightarrow> mem_ok (objects d) \<and> mem_ok (netns_strings d)
     \<and> (\<forall>p \<in> snd ` set (topologies (topologyManager d)). cells (objects d) p \<noteq> None)"

lemma init_topologies_ok: "hoare starting_ok (init_topologies ts) (\<lambda>_. starting_ok) A"
  unfolding init_topologies_def starting_ok_def
proof (rule hoare_modify)
  fix d :: "'a daemon"
  assume d: "mem_ok (objects d) \<and> mem_ok (netns_strings d)
     \<and> (\<forall>p \<in> snd ` set (topologies (topologyManager d)). cells (objects d) p \<noteq> None)"
  obtain h m where run: "topologies_init_loop (Items ts) (objects d) (topologyManager d) = (h, m)" by fastforce
  with d topologies_init_loop_ok [OF run]
  show "mem_ok (objects (case TopologyManager_Init ts (objects d) (topologyManager d) of
          (h, m) \<Rightarrow> d\<lparr> objects := h, topologyManager := m \<rparr>))
      \<and> mem_ok (netns_strings (case TopologyManager_Init ts (objects d) (topologyManager d) of
          (h, m) \<Rightarrow> d\<lparr> objects := h, topologyManager := m \<rparr>))
      \<and> (\<forall>p \<in> snd ` set (topologies (topologyManager (case TopologyManager_Init ts (objects d) (topologyManager d) of
          (h, m) \<Rightarrow> d\<lparr> objects := h, topologyManager := m \<rparr>))).
            cells (objects (case TopologyManager_Init ts (objects d) (topologyManager d) of
          (h, m) \<Rightarrow> d\<lparr> objects := h, topologyManager := m \<rparr>)) p \<noteq> None)"
    by (simp add: TopologyManager_Init_def)
qed

lemma init_loop_returns: "returns (init_loop N p ts h m)"
  by (induction ts arbitrary: h m) (auto simp: Let_def intro!: go_rules)

lemma init_vxlans_ok:
  "hoare starting_ok (init_vxlans E ts)
    (\<lambda>vm d. starting_ok d \<and> (\<forall>vni p. vxlans vm vni = Some p \<longrightarrow> cells (netns_strings d) p \<noteq> None)) A"
proof (rule hoareI)
  fix d :: "'a daemon"
  assume d: "starting_ok d"
  obtain p h where a: "alloc '''' (netns_strings d) = (p, h)" by fastforce
  have "mem_ok (netns_strings d)" using d by (simp add: starting_ok_def)
  then have h: "mem_ok h" "cells h p \<noteq> None" using mem_ok_alloc [OF _ a] by simp_all
  obtain h' m w where run: "init_loop (net E) p (Items ts) h NewVxlanManager (world d) = (Done (h', m), w)"
    using returnsD [OF init_loop_returns] by fast
  have "mem_ok h' \<and> cells h' p \<noteq> None \<and> (\<forall>vni q. vxlans m vni = Some q \<longrightarrow> q = p)"
    by (rule init_loop_ok [OF run h]) (simp add: NewVxlanManager_def)
  with d a run show "case init_vxlans E ts d of
      (Done vm, d) \<Rightarrow> starting_ok d \<and> (\<forall>vni p. vxlans vm vni = Some p \<longrightarrow> cells (netns_strings d) p \<noteq> None)
    | (Abort x, t) \<Rightarrow> A x"
    by (auto simp: init_vxlans_def VxlanManager_Init_def starting_ok_def)
qed

lemma hosted_starting:
  assumes "returns m"
  shows "hoare starting_ok (hosted m) (\<lambda>_. starting_ok) A"
proof (rule hoareI)
  fix d :: "'a daemon"
  assume d: "starting_ok d"
  obtain a w where "m (world d) = (Done a, w)" using returnsD [OF assms] by blast
  with d show "case hosted m d of (Done a, t) \<Rightarrow> starting_ok t | (Abort x, t) \<Rightarrow> A x"
    by (simp add: hosted_def zoom_run starting_ok_def)
qed

lemma hoare_check:
  "hoare P m (\<lambda>_. P) A \<Longrightarrow> (\<And>e d. P d \<Longrightarrow> Q (Some e) d) \<Longrightarrow> hoare P f Q A \<Longrightarrow> hoare P (check m f) Q A"
  unfolding check_def by (rule hoare_bnd) (auto intro: hoare_ret split: option.splits)

text \<open>\<open>GetVxlanSource\<close> rejects an empty address.\<close>

lemma GetVxlanSource_ip: "GetVxlanSource N ip w = (Done (Inr r), w') \<Longrightarrow> ip \<noteq> []"
  by (auto simp: GetVxlanSource_def ret_run)

text \<open>The last step of \<open>New\<close>.\<close>

lemma New_final_ok:
  "hoare (\<lambda>d. starting_ok d \<and> (\<forall>vni p. vxlans vm vni = Some p \<longrightarrow> cells (netns_strings d) p \<noteq> None))
    (bnd (hosted (GetVxlanSource N ip)) (\<lambda>r. case r of
       Inl err \<Rightarrow> ret (Some (Wrap ''failed to get vxlan source: '' err))
     | Inr (_, intf) \<Rightarrow>
         bnd (modify (\<lambda>d. d\<lparr> TCPIPBypass := b, topologyStore := (\<lambda>_. None),
                vxlanManager := vm, linkMutexes := (\<lambda>_. None), nodeIP := ip, vxlanIntf := intf \<rparr>)) (\<lambda>_.
         ret None)))
    (\<lambda>err d. err = None \<longrightarrow> daemon_ok d \<and> held (linkMutexes d) = {}) A"
proof (rule hoareI)
  fix d :: "'a daemon"
  assume d: "starting_ok d \<and> (\<forall>vni p. vxlans vm vni = Some p \<longrightarrow> cells (netns_strings d) p \<noteq> None)"
  have src: "returns (GetVxlanSource N ip)"
    unfolding GetVxlanSource_def by (auto intro!: go_rules split: option.splits)
  obtain r w where run: "GetVxlanSource N ip (world d) = (Done r, w)" using returnsD [OF src] by blast
  have "ip \<noteq> []" if "r = Inr x" for x
    using GetVxlanSource_ip [of N ip "world d" x w] run that by simp
  with d run show "case bnd (hosted (GetVxlanSource N ip)) (\<lambda>r. case r of
       Inl err \<Rightarrow> ret (Some (Wrap ''failed to get vxlan source: '' err))
     | Inr (_, intf) \<Rightarrow>
         bnd (modify (\<lambda>d. d\<lparr> TCPIPBypass := b, topologyStore := (\<lambda>_. None),
                vxlanManager := vm, linkMutexes := (\<lambda>_. None), nodeIP := ip, vxlanIntf := intf \<rparr>)) (\<lambda>_.
         ret None)) d of
      (Done err, d) \<Rightarrow> err = None \<longrightarrow> daemon_ok d \<and> held (linkMutexes d) = {} | (Abort x, t) \<Rightarrow> A x"
    by (cases r) (auto simp: bnd_def hosted_def zoom_run ret_run starting_ok_def daemon_ok_def held_def)
qed

lemma New_ok: "hoare starting_ok (New E B cfg) (\<lambda>err d. err = None \<longrightarrow> daemon_ok d \<and> held (linkMutexes d) = {}) A"
proof -
  have r: "returns (restConfig B)" "returns (NewForConfig B)"
    by (auto simp: restConfig_def NewForConfig_def Let_def intro!: go_rules)
  have tail: "hoare starting_ok (bnd (init_topologies l) (\<lambda>_.
             bnd (init_vxlans E l) (\<lambda>vm.
             bnd (hosted (GetVxlanSource (net E) ip)) (\<lambda>r. case r of
               Inl err \<Rightarrow> ret (Some (Wrap ''failed to get vxlan source: '' err))
             | Inr (_, intf) \<Rightarrow>
                 bnd (modify (\<lambda>d. d\<lparr> TCPIPBypass := cfg_TCPIPBypass cfg, topologyStore := (\<lambda>_. None),
                        vxlanManager := vm, linkMutexes := (\<lambda>_. None), nodeIP := ip, vxlanIntf := intf \<rparr>)) (\<lambda>_.
                 ret None)))))
      (\<lambda>err d. err = None \<longrightarrow> daemon_ok d \<and> held (linkMutexes d) = {}) A" for l ip
    by (rule hoare_bnd [OF init_topologies_ok hoare_bnd [OF init_vxlans_ok New_final_ok]])
  show ?thesis
    unfolding New_def Let_def
    by (intro hoare_check hosted_starting hoare_bnd [OF hosted_starting] r returns_ext)
      (auto intro: hoare_ret tail split: sum.splits)
qed

lemma new_process_ok: "starting_ok (new_process w)"
  by (simp add: starting_ok_def new_process_def NewTopologyManager_def)

section \<open>Running\<close>

text \<open>
  The states of a daemon: started by \<open>New\<close>; after a request on pods or links; after a request on wires;
  after a change of the world by others.
\<close>

inductive running :: "'w env \<Rightarrow> 'w boot \<Rightarrow> Config \<Rightarrow> 'w retry \<Rightarrow> 'w daemon \<Rightarrow> bool" for E B cfg retry where
  started: "New E B cfg (new_process w) = (Done None, d) \<Longrightarrow> running E B cfg retry d"
| served: "running E B cfg retry d \<Longrightarrow> serve E retry req d = (Done r, d') \<Longrightarrow> running E B cfg retry d'"
| wires: "running E B cfg retry d \<Longrightarrow> wire_step (net E) (world d, wire_state d) (w, s) \<Longrightarrow>
    running E B cfg retry (d\<lparr> world := w, wire_state := s \<rparr>)"
| elsewhere: "running E B cfg retry d \<Longrightarrow> running E B cfg retry (d\<lparr> world := w \<rparr>)"

lemma daemon_ok_world [simp]:
  "daemon_ok (d\<lparr> world := w \<rparr>) = daemon_ok d" "daemon_ok (d\<lparr> world := w, wire_state := s \<rparr>) = daemon_ok d"
  by (simp_all add: daemon_ok_def)

lemma running_ok:
  assumes "retry_ok retry" "running E B cfg retry d"
  shows "daemon_ok d \<and> held (linkMutexes d) = {}"
  using assms(2)
proof (induction rule: running.induct)
  case (started w d)
  from hoare_Done [OF New_ok new_process_ok this] show ?case by blast
next
  case (served d req r d')
  then have "daemon_ok d'" using hoare_Done [OF serve_keeps_ok(1) [OF assms(1)]] by blast
  moreover have "held (linkMutexes d') = {}"
    using lockingD [OF locks_ok_serve [OF assms(1), unfolded locks_ok_def, rule_format] _ served(2)] served.IH by blast
  ultimately show ?case ..
qed simp_all

text \<open>
  C8: A daemon that has started and has served any sequence of requests, whatever the host, the API
  server and the other daemons answered, serves every further request on pods or links to its end: it
  does not panic, does not wait for a mutex and leaves none held. There are two exceptions. Excluded
  here is the destruction of a pod that has a gRPC wire. And a batch of links whose message has no
  local pod, which is a nil pointer in the handler, always makes the daemon panic.
\<close>

theorem running_daemon_serves:
  assumes "retry_ok retry" and "running E B cfg retry d"
    and "\<And>q. req = RDestroyPod q \<Longrightarrow> GetWiresByPod (order E) (pq_kube_ns q) (pq_name q) (wire_state d) = []"
  shows "if \<exists>q. req \<in> {RAddLinks q, RDelLinks q, RUpdateLinks q} \<and> lbq_local_pod q = None
    then serve E retry req d = (Abort (Panic ''nil pointer dereference''), d)
    else \<exists>response err d'. serve E retry req d = (Done (response, err), d') \<and> held (linkMutexes d') = {}"
proof -
  have "(\<exists>q. req \<in> {RAddLinks q, RDelLinks q, RUpdateLinks q} \<and> lbq_local_pod q = None) \<longleftrightarrow> \<not> pod_given req"
    by (cases req) auto
  moreover have "\<exists>response err d'. serve E retry req d = (Done (response, err), d') \<and> held (linkMutexes d') = {}"
    if pod: "pod_given req"
  proof -
    have "wireless E req d" using assms(3) by (cases req) (simp_all add: no_wires_def)
    then obtain r d' where "serve E retry req d = (Done r, d')" "held (linkMutexes d') = {}"
      using serve_returns [OF assms(1) _ _ _ pod] running_ok [OF assms(1,2)] by blast
    then show ?thesis by (cases r) auto
  qed
  ultimately show ?thesis using no_pod_panics [of req E retry d] by simp
qed

section \<open>Witnesses\<close>

definition quiet_boot :: "unit boot" where
  "quiet_boot =
     \<lparr> InClusterConfig = (\<lambda>w. (None, w)), HomeDir = (\<lambda>w. (''/root'', w)),
       BuildConfigFromFlags = (\<lambda>p w. (None, w)), kubernetes_NewForConfig = (\<lambda>w. (None, w)),
       dynamic_NewForConfig = (\<lambda>w. (None, w)), RESTClientFor = (\<lambda>w. (None, w)),
       Listen = (\<lambda>a w. (None, w)), Getenv = (\<lambda>v w. (''10.0.0.1'', w)) \<rparr>"

definition node_env :: "unit env" where
  "node_env = quiet_env\<lparr> net := quiet_host\<lparr> nl_Interfaces := (\<lambda>w. ([\<lparr> hi_Name = ''ens3'',
     hi_Addrs = [v4InV6Prefix @ [10, 0, 0, 1]] \<rparr>], w)) \<rparr> \<rparr>"

definition demo_config :: Config where
  "demo_config = \<lparr> Port = 51111, cfg_TCPIPBypass = False \<rparr>"

lemma demo_ParseIP: "ParseIP ''10.0.0.1'' = Some (v4InV6Prefix @ [10, 0, 0, 1])"
proof -
  have four: "(4 :: nat) = Suc (Suc (Suc (Suc 0)))" by simp
  have "v4_loop (Suc (Suc (Suc (Suc 0)))) True ''10.0.0.1'' = Some [10, 0, 0, 1]"
    by (simp add: dtoi_def big_def is_digit_def digit_val_def)
  then show ?thesis unfolding parseIPv4_def four by (simp add: ParseIP_def parseIPv4_def four)
qed

lemma demo_source:
  "GetVxlanSource (net node_env) ''10.0.0.1'' w = (Done (Inr (''10.0.0.1'', ''ens3'')), w)"
  by (simp add: GetVxlanSource_def demo_ParseIP node_env_def bnd_ext ret_run quiet_env_def)

lemma demo_init_vxlans: "\<exists>m d'. init_vxlans E l d = (Done m, d')"
proof -
  obtain p h where a: "alloc '''' (netns_strings d) = (p, h)" by fastforce
  obtain r w where "init_loop (net E) p (Items l) h NewVxlanManager (world d) = (Done r, w)"
    using returnsD [OF init_loop_returns [of "net E" p "Items l" h NewVxlanManager]] by fast
  with a show ?thesis by (cases r) (simp add: init_vxlans_def VxlanManager_Init_def)
qed

lemma demo_start: "\<exists>d. New node_env quiet_boot demo_config (new_process ()) = (Done None, d)"
proof -
  let ?l = "filterLocalTopologies \<lparr> Items = [demo_topology] \<rparr> ''10.0.0.1''"
  have same: "d\<lparr> world := w \<rparr> = d" for d :: "unit daemon" and w by simp
  have answers: "hosted (restConfig quiet_boot) d = (Done None, d)"
    "hosted (ext (kubernetes_NewForConfig quiet_boot)) d = (Done None, d)"
    "hosted (NewForConfig quiet_boot) d = (Done None, d)"
    "hosted (ext (Listen quiet_boot a)) d = (Done None, d)"
    "hosted (ext (Getenv quiet_boot v)) d = (Done ''10.0.0.1'', d)"
    "hosted (ext (Topology_List (rest node_env) n)) d = (Done (Inr \<lparr> Items = [demo_topology] \<rparr>), d)"
for d a v n
    by (simp_all add: hosted_def zoom_run restConfig_def NewForConfig_def quiet_boot_def bnd_ext check_def ext_run
        ret_run same node_env_def [unfolded quiet_env_def] Topology_List_def)
  have source: "hosted (GetVxlanSource (net node_env) ''10.0.0.1'') d = (Done (Inr (''10.0.0.1'', ''ens3'')), d)" for d
    by (simp add: hosted_def zoom_run demo_source same)
  obtain d1 where "init_topologies ?l (new_process ()) = (Done (), d1)" by (simp add: init_topologies_def)
  moreover obtain m d2 where "init_vxlans node_env ?l d1 = (Done m, d2)" using demo_init_vxlans by blast
  ultimately show ?thesis by (simp add: New_def Let_def answers source ret_run)
qed

lemma demo_running: "\<exists>d. running node_env quiet_boot demo_config (\<lambda>f. f) d"
  using demo_start running.started [of node_env quiet_boot demo_config "()"] by fast

theorem running_daemon_serves_witness:
  "\<exists>d. running node_env quiet_boot demo_config (\<lambda>f. f) d
     \<and> (\<exists>response err d'. serve node_env (\<lambda>f. f) (RAddLinks macvlan_query) d = (Done (response, err), d')
          \<and> held (linkMutexes d') = {})
     \<and> serve node_env (\<lambda>f. f) (RAddLinks (macvlan_query\<lparr> lbq_local_pod := None \<rparr>)) d
         = (Abort (Panic ''nil pointer dereference''), d)"
proof -
  obtain d where d: "running node_env quiet_boot demo_config (\<lambda>f. f) d" using demo_running by blast
  have "lbq_local_pod macvlan_query = Some demo_pod" by (simp add: macvlan_query_def)
  then show ?thesis
    using d running_daemon_serves [OF retry_ok_once d, of "RAddLinks macvlan_query"]
      running_daemon_serves [OF retry_ok_once d, of "RAddLinks (macvlan_query\<lparr> lbq_local_pod := None \<rparr>)"]
    by (intro exI [of _ d]) simp
qed

end
