(* ===== verification/Protocol.thy ===== *)
theory Protocol
  imports Safety
begin

text \<open>
  Several daemons adding, deleting and updating links at the same time. Both ends of a link may be
  added concurrently, and each daemon calls \<open>Update\<close> of the other one, which takes the mutex of the link
  there; the comment in \<open>addLink\<close> explains that it therefore releases its own mutex before the call.

  A thread is a call of \<open>addLink\<close>, of \<open>delLink\<close> or of \<open>updateLink\<close>, as a state machine: \<open>pc\<close> says where it
  stands, \<open>action\<close> what it does next and on which daemon. \<open>addLink\<close> has one kind of thread for each of its
  branches: a macvlan interface, a physical peer, and a pod on the same or on another host; a thread
  starts where the branch has been chosen and a peer that is a pod has been looked up and is alive,
  which takes no mutex. The actions are those of \<open>addLink\<close>, \<open>add_same_host\<close>, \<open>add_other_host\<close>, \<open>Update\<close>,
  \<open>delLink\<close> and \<open>updateLink\<close> (lemma \<open>threads_are_handlers\<close>), cut where another thread may observe a
  difference: at the mutexes, at changes of the table of network identifiers and at the calls of the
  host. Threads interleave in any order; a thread whose mutex is taken cannot act. Each daemon has its
  own host, whose answers may depend on everything that happened on it.
\<close>

section \<open>Threads\<close>

record 'n job =
  j_local :: 'n
  j_peer :: 'n
  j_bypass :: "bool option"
  j_pod :: pb_Pod
  j_peerPod :: pb_Pod
  j_link :: pb_Link
  j_myVeth :: VEth
  j_peerVeth :: VEth
  j_start :: int

text \<open>
  \<open>L\<close>: \<open>addLink\<close> for another host, on its own daemon; \<open>R\<close>: the call of \<open>Update\<close>, on the daemon of the
  peer; \<open>S\<close>: \<open>addLink\<close> for the same host; \<open>P\<close>: \<open>addLink\<close> for a physical peer, which calls \<open>Update\<close> of its own
  daemon; \<open>M\<close>: \<open>addLink\<close> for a macvlan interface; \<open>D\<close>: \<open>delLink\<close>; \<open>U\<close>: \<open>updateLink\<close>. The first kind ends in
  \<open>Finished\<close>, the others in \<open>Ended\<close>.
\<close>

datatype pc =
    L_lock | L_setup | L_add | L_unlock "error option" | L_observe
  | R_lock | R_run int | R_unlock bool_response
  | S_lock | S_run | S_unlock "error option"
  | P_lock | P_run int | P_unlock bool_response
  | M_run
  | D_remove | D_get | D_delete | D_observe
  | U_run
  | Finished "error option" | Ended "error option"

definition remote_uid :: "'n job \<Rightarrow> int64" where
  "remote_uid j = GetUidFromVni (GetVniFromUid (pb_uid (j_link j)))"

definition payload :: "'n job \<Rightarrow> pb_RemotePod" where
  "payload j = remote_payload (j_pod j) (j_peerPod j) (j_link j)"

text \<open>The daemon a thread works on next.\<close>

fun place :: "'n job \<Rightarrow> pc \<Rightarrow> 'n" where
  "place j R_lock = j_peer j"
| "place j (R_run t) = j_peer j"
| "place j (R_unlock r) = j_peer j"
| "place j _ = j_local j"

fun action :: "'w env \<Rightarrow> 'n job \<Rightarrow> pc \<Rightarrow> ('w daemon, pc) go" where
  "action E j L_lock = bnd (mutexes (Lock (pb_uid (j_link j)))) (\<lambda>_. ret L_setup)"
| "action E j L_setup =
     bnd (reads (link_spec (j_pod j) (j_peerPod j) (j_link j))) (\<lambda>vxlanSpec.
     bnd (hosted (SetupVxLan (net E) (j_bypass j) vxlanSpec (pb_properties (j_link j)))) (\<lambda>r. case r of
       Some err \<Rightarrow> ret (L_unlock (Some err))
     | None \<Rightarrow> ret L_add))"
| "action E j L_add =
     bnd (add_vni (GetVniFromUid (pb_uid (j_link j))) (pod_net_ns (j_pod j))) (\<lambda>_. ret (L_unlock None))"
| "action E j (L_unlock err) =
     bnd (mutexes (Unlock (pb_uid (j_link j)))) (\<lambda>_. ret (if err = None then R_lock else Finished err))"
| "action E j R_lock =
     bnd (hosted (ext (now E))) (\<lambda>startTime.
     bnd (mutexes (Lock (remote_uid j))) (\<lambda>_. ret (R_run startTime)))"
| "action E j (R_run startTime) =
     bnd (update_locked E None (payload j) startTime) (\<lambda>r. ret (R_unlock r))"
| "action E j (R_unlock r) =
     bnd (mutexes (Unlock (remote_uid j))) (\<lambda>_. ret (if snd r = None then L_observe else Finished (snd r)))"
| "action E j L_observe = bnd (observe_since E ''add'' (j_start j)) (\<lambda>_. ret (Finished None))"
| "action E j S_lock = bnd (mutexes (Lock (pb_uid (j_link j)))) (\<lambda>_. ret S_run)"
| "action E j S_run =
     bnd (check (hosted (SetupVeth (net E) (j_bypass j) (j_myVeth j) (j_peerVeth j) (j_link j)))
            (bnd (observe_since E ''add'' (j_start j)) (\<lambda>_. ret None))) (\<lambda>r. ret (S_unlock r))"
| "action E j (S_unlock r) = bnd (mutexes (Unlock (pb_uid (j_link j)))) (\<lambda>_. ret (Ended r))"
| "action E j P_lock =
     bnd (hosted (ext (now E))) (\<lambda>startTime.
     bnd (mutexes (Lock (remote_uid j))) (\<lambda>_. ret (P_run startTime)))"
| "action E j (P_run startTime) =
     bnd (update_locked E (j_bypass j) (physical_payload (j_pod j) (j_link j)) startTime) (\<lambda>r. ret (P_unlock r))"
| "action E j (P_unlock r) =
     bnd (mutexes (Unlock (remote_uid j))) (\<lambda>_. ret (Ended (if \<not> fst r \<or> snd r \<noteq> None then snd r else None)))"
| "action E j M_run =
     bnd (hosted (ext (nl_MakeMacVLan (net E) (j_myVeth j)
       \<lparr> mv_ParentIF = pb_peer_intf (j_link j), mv_Mode = MacvlanMode E \<rparr>))) (\<lambda>r. ret (Ended r))"
| "action E j D_remove = bnd (hosted (ext (nl_RemoveVethLink (net E) (j_myVeth j)))) (\<lambda>_. ret D_get)"
| "action E j D_get =
     bnd (reads (\<lambda>d. VxlanManager_Get (GetVniFromUid (pb_uid (j_link j))) (vxlanManager d))) (\<lambda>netns. case netns of
       None \<Rightarrow> ret D_observe
     | Some p \<Rightarrow> bnd (deref_string p) (\<lambda>x. ret (if x = pod_net_ns (j_pod j) then D_delete else D_observe)))"
| "action E j D_delete =
     bnd (modify (\<lambda>d. d\<lparr> vxlanManager := VxlanManager_Delete (GetVniFromUid (pb_uid (j_link j))) (vxlanManager d) \<rparr>))
       (\<lambda>_. ret D_observe)"
| "action E j D_observe = bnd (observe_since E ''del'' (j_start j)) (\<lambda>_. ret (Ended None))"
| "action E j U_run =
     (case MakeQdiscs (net E) (pb_properties (j_link j)) of
        Inl err \<Rightarrow> ret (Ended (Some err))
      | Inr qdiscs \<Rightarrow>
          bnd (check (hosted (SetVethQdiscs (net E) (j_bypass j) (j_myVeth j) qdiscs))
            (bnd (observe_since E ''update'' (j_start j)) (\<lambda>_. ret None))) (\<lambda>r. ret (Ended r)))"
| "action E j (Finished r) = ret (Finished r)"
| "action E j (Ended r) = ret (Ended r)"

text \<open>A configuration: the daemons and the threads.\<close>

type_synonym ('n, 'w) conf = "('n \<Rightarrow> 'w daemon) \<times> ('n job \<times> pc) list"

fun unfinished :: "pc \<Rightarrow> bool" where
  "unfinished (Finished r) = False"
| "unfinished (Ended r) = False"
| "unfinished _ = True"

text \<open>
  A thread acts; it can only if its action returns, so not while it waits for a mutex. A run consists
  of actions and of failures of the connection to a peer, by which a call is lost on the way or on the
  way back. Such a failure is no progress: a thread that only a failure can end is stuck.
\<close>

inductive act_step :: "('n \<Rightarrow> 'w env) \<Rightarrow> ('n, 'w) conf \<Rightarrow> ('n, 'w) conf \<Rightarrow> bool" for E where
  action: "unfinished p \<Longrightarrow> n = place j p \<Longrightarrow> action (E n) j p (ds n) = (Done p', d) \<Longrightarrow>
    act_step E (ds, xs @ (j, p) # ys) (ds(n := d), xs @ (j, p') # ys)"

inductive step :: "('n \<Rightarrow> 'w env) \<Rightarrow> ('n, 'w) conf \<Rightarrow> ('n, 'w) conf \<Rightarrow> bool" for E where
  act: "act_step E c c' \<Longrightarrow> step E c c'"
| lost: "p = R_lock \<or> p = L_observe \<Longrightarrow> step E (ds, xs @ (j, p) # ys) (ds, xs @ (j, Finished (Some e)) # ys)"

inductive_cases act_stepE: "act_step E c c'"

lemma step_cases [consumes 1, case_names act lost]:
  assumes "step E c c'"
  obtains p n j ds p' d xs ys where "c = (ds, xs @ (j, p) # ys)" "c' = (ds(n := d), xs @ (j, p') # ys)"
      "unfinished p" "n = place j p" "action (E n) j p (ds n) = (Done p', d)"
    | p ds xs j ys e where "c = (ds, xs @ (j, p) # ys)" "c' = (ds, xs @ (j, Finished (Some e)) # ys)"
      "p = R_lock \<or> p = L_observe"
  using assms by (cases rule: step.cases) (auto elim!: act_stepE)

lemma act_steps: "unfinished p \<Longrightarrow> n = place j p \<Longrightarrow> action (E n) j p (ds n) = (Done p', d) \<Longrightarrow>
    step E (ds, xs @ (j, p) # ys) (ds(n := d), xs @ (j, p') # ys)"
  by (intro step.act act_step.action)

text \<open>A thread starts at its first action, on daemons that are ready to serve.\<close>

fun starts :: "pc \<Rightarrow> bool" where
  "starts L_lock = True"
| "starts S_lock = True"
| "starts P_lock = True"
| "starts M_run = True"
| "starts D_remove = True"
| "starts U_run = True"
| "starts _ = False"

definition initial :: "('n, 'w) conf \<Rightarrow> bool" where
  "initial c \<longleftrightarrow> (\<forall>n. daemon_ok (fst c n) \<and> held (linkMutexes (fst c n)) = {})
     \<and> list_all (\<lambda>(j, p). starts p) (snd c)"

section \<open>The threads are the handlers\<close>

text \<open>The actions of a thread on one daemon, one after the other.\<close>

fun drive :: "'w env \<Rightarrow> 'n job \<Rightarrow> nat \<Rightarrow> pc \<Rightarrow> ('w daemon, pc) go" where
  "drive E j 0 p = ret p"
| "drive E j (Suc k) p = (if unfinished p then bnd (action E j p) (drive E j k) else ret p)"

lemma bnd_cong_at: "(\<And>a t. m s = (Done a, t) \<Longrightarrow> f a t = g a t) \<Longrightarrow> bnd m f s = bnd m g s"
  by (auto simp: bnd_def split: prod.splits out.splits)

text \<open>Up to the call of the peer, a thread is \<open>add_other_host\<close>.\<close>

lemma local_half:
  "add_other_host E (j_bypass j) (j_pod j) (j_peerPod j) (j_link j) (j_start j) =
     bnd (drive E j 4 L_lock) (\<lambda>p. case p of
       Finished r \<Rightarrow> ret r
     | _ \<Rightarrow> check (hosted (UpdateRemote (rpc E) (j_pod j) (j_peerPod j) (j_link j)))
              (bnd (observe_since E ''add'' (j_start j)) (\<lambda>_. ret None)))"
proof -
  have four: "(4 :: nat) = Suc (Suc (Suc (Suc 0)))" by simp
  have spec: "vs_Vni (link_spec pod peer link d) = GetVniFromUid (pb_uid link)"
    "vs_NetNs (link_spec pod peer link d) = pod_net_ns pod" for pod peer link and d :: "'w daemon"
    by (simp_all add: link_spec_def)
  show ?thesis
    unfolding four add_other_host_def
  proof (subst reads_mutexes_commute, simp add: link_spec_def, rule HOL.ext)
    fix d
    show "bnd (mutexes (Lock (pb_uid (j_link j)))) (\<lambda>_.
        bnd (reads (link_spec (j_pod j) (j_peerPod j) (j_link j))) (\<lambda>vxlanSpec.
        bnd (hosted (SetupVxLan (net E) (j_bypass j) vxlanSpec (pb_properties (j_link j)))) (\<lambda>r. case r of
          Some err \<Rightarrow> bnd (mutexes (Unlock (pb_uid (j_link j)))) (\<lambda>_. ret (Some err))
        | None \<Rightarrow>
            bnd (add_vni (vs_Vni vxlanSpec) (vs_NetNs vxlanSpec)) (\<lambda>_.
            bnd (mutexes (Unlock (pb_uid (j_link j)))) (\<lambda>_.
            check (hosted (UpdateRemote (rpc E) (j_pod j) (j_peerPod j) (j_link j)))
              (bnd (observe_since E ''add'' (j_start j)) (\<lambda>_. ret None))))))) d =
      bnd (drive E j (Suc (Suc (Suc (Suc 0)))) L_lock) (\<lambda>p. case p of
          Finished r \<Rightarrow> ret r
        | _ \<Rightarrow> check (hosted (UpdateRemote (rpc E) (j_pod j) (j_peerPod j) (j_link j)))
                 (bnd (observe_since E ''add'' (j_start j)) (\<lambda>_. ret None))) d"
      by (simp only: drive.simps unfinished.simps if_True action.simps bnd_bnd bnd_ret, rule bnd_cong_at,
          simp only: bnd_reads spec, rule bnd_cong_at) (simp add: bnd_bnd split: option.splits)
  qed
qed

lemma update_locked_response:
  "update_locked E bypass pod t0 d = (Done (response, err), d') \<Longrightarrow> response \<longleftrightarrow> err = None"
  unfolding update_locked_def by (auto simp: ret_run split: option.splits elim!: bnd_cases)

text \<open>On the daemon of the peer it is \<open>Update\<close>.\<close>

lemma remote_half:
  "Update E None (payload j) =
     bnd (drive E j 3 R_lock) (\<lambda>p. ret (case p of Finished err \<Rightarrow> (False, err) | _ \<Rightarrow> (True, None)))"
proof -
  have three: "(3 :: nat) = Suc (Suc (Suc 0))" by simp
  have uid: "GetUidFromVni (rp_vni (payload j)) = remote_uid j"
    by (simp add: payload_def remote_payload_def remote_uid_def)
  show ?thesis
    unfolding three Update_def Let_def uid
  proof (rule HOL.ext)
    fix d
    have "bnd (update_locked E None (payload j) t0) (\<lambda>r. bnd (mutexes (Unlock (remote_uid j))) (\<lambda>_. ret r)) d' =
      bnd (update_locked E None (payload j) t0) (\<lambda>r. bnd (mutexes (Unlock (remote_uid j)))
         (\<lambda>_. ret (case if snd r = None then L_observe else Finished (snd r) of Finished err \<Rightarrow> (False, err) | _ \<Rightarrow> (True, None)))) d'"
      for t0 d'
      by (rule bnd_cong_at) (auto dest: update_locked_response)
    then show "bnd (hosted (ext (now E))) (\<lambda>startTime.
         bnd (mutexes (Lock (remote_uid j))) (\<lambda>_.
         bnd (update_locked E None (payload j) startTime) (\<lambda>r.
         bnd (mutexes (Unlock (remote_uid j))) (\<lambda>_. ret r)))) d =
      bnd (drive E j (Suc (Suc (Suc 0))) R_lock) (\<lambda>p. ret (case p of Finished err \<Rightarrow> (False, err) | _ \<Rightarrow> (True, None))) d"
      by (simp add: bnd_bnd) (rule bnd_cong_at, rule bnd_cong_at, simp)
  qed
qed

text \<open>For a peer on the same host it is \<open>add_same_host\<close>.\<close>

definition ended :: "pc \<Rightarrow> error option" where
  "ended p = (case p of Ended r \<Rightarrow> r | _ \<Rightarrow> None)"

lemma same_host:
  "add_same_host E (j_bypass j) (j_pod j) (j_peerPod j) (j_myVeth j) (j_link j) (j_start j) =
     (case MakeVeth (pod_net_ns (j_peerPod j)) (pb_peer_intf (j_link j)) (pb_peer_ip (j_link j)) (pb_peer_mac (j_link j)) of
        Inl err \<Rightarrow> ret (Some err)
      | Inr peerVeth \<Rightarrow> bnd (drive E (j\<lparr> j_peerVeth := peerVeth \<rparr>) 3 S_lock) (\<lambda>p. ret (ended p)))"
proof -
  have three: "(3 :: nat) = Suc (Suc (Suc 0))" by simp
  show ?thesis unfolding three add_same_host_def by (simp add: bnd_bnd ended_def split: sum.split)
qed

lemma bnd_ret_id: "bnd m ret = m"
  by (auto simp: bnd_def ret_def fun_eq_iff split: prod.splits out.splits)

text \<open>For a physical peer it is the call of \<open>Update\<close>, for a macvlan interface the request to the host.\<close>

lemma physical_thread:
  "bnd (Update E (j_bypass j) (physical_payload (j_pod j) (j_link j))) (\<lambda>(response, err).
      if \<not> response \<or> err \<noteq> None then ret err else ret None) =
     bnd (drive E j 3 P_lock) (\<lambda>p. ret (ended p))"
proof -
  have three: "(3 :: nat) = Suc (Suc (Suc 0))" by simp
  have uid: "GetUidFromVni (rp_vni (physical_payload (j_pod j) (j_link j))) = remote_uid j"
    by (simp add: physical_payload_def remote_uid_def)
  have split: "(\<lambda>(response, err). if \<not> response \<or> err \<noteq> None then ret err else ret None) =
    (\<lambda>r. ret (if \<not> fst r \<or> snd r \<noteq> None then snd r else None))" by (auto simp: fun_eq_iff)
  show ?thesis unfolding three Update_def Let_def uid split by (simp add: bnd_bnd ended_def)
qed

lemma macvlan_thread:
  "hosted (ext (nl_MakeMacVLan (net E) (j_myVeth j) \<lparr> mv_ParentIF = pb_peer_intf (j_link j), mv_Mode = MacvlanMode E \<rparr>)) =
     bnd (drive E j 1 M_run) (\<lambda>p. ret (ended p))"
proof -
  have one: "(1 :: nat) = Suc 0" by simp
  show ?thesis unfolding one by (simp add: bnd_bnd ended_def bnd_ret_id)
qed

text \<open>A thread that deletes a link is \<open>delLink\<close>, one that updates a link is \<open>updateLink\<close>.\<close>

lemma bnd_option: "bnd (case x of None \<Rightarrow> m | Some p \<Rightarrow> k p) f = (case x of None \<Rightarrow> bnd m f | Some p \<Rightarrow> bnd (k p) f)"
  by (cases x) simp_all

lemma bnd_if: "bnd (if b then m else k) f = (if b then bnd m f else bnd k f)"
  by simp

lemma ret_if: "ret (if b then x else y) = (if b then ret x else ret y)"
  by simp

lemma del_thread:
  "delLink E (j_pod j) (j_link j) =
     bnd (hosted (ext (now E))) (\<lambda>t.
       case MakeVeth (pod_net_ns (j_pod j)) (pb_local_intf (j_link j)) (pb_local_ip (j_link j)) (pb_local_mac (j_link j)) of
         Inl err \<Rightarrow> ret (Some err)
       | Inr myVeth \<Rightarrow> bnd (drive E (j\<lparr> j_myVeth := myVeth, j_start := t \<rparr>) 4 D_remove) (\<lambda>p. ret (ended p)))"
proof -
  have four: "(4 :: nat) = Suc (Suc (Suc (Suc 0)))" by simp
  show ?thesis
    unfolding four delLink_def forget_vni_def
    by (cases "MakeVeth (pod_net_ns (j_pod j)) (pb_local_intf (j_link j)) (pb_local_ip (j_link j)) (pb_local_mac (j_link j))")
      (simp_all only: sum.case drive.simps unfinished.simps if_True if_False action.simps bnd_bnd bnd_ret ended_def pc.case
        bnd_option bnd_if ret_if cong: option.case_cong if_cong, simp cong: if_cong)
qed

lemma update_thread:
  "updateLink E (j_pod j) (j_link j) =
     bnd (reads (\<lambda>d. Some (TCPIPBypass d))) (\<lambda>bypass.
     bnd (hosted (ext (now E))) (\<lambda>t.
       case MakeVeth (pod_net_ns (j_pod j)) (pb_local_intf (j_link j)) (pb_local_ip (j_link j)) (pb_local_mac (j_link j)) of
         Inl err \<Rightarrow> ret (Some err)
       | Inr myVeth \<Rightarrow>
           bnd (drive E (j\<lparr> j_bypass := bypass, j_myVeth := myVeth, j_start := t \<rparr>) 1 U_run) (\<lambda>p. ret (ended p))))"
proof -
  have one: "(1 :: nat) = Suc 0" by simp
  show ?thesis
    unfolding one updateLink_def
    by (cases "MakeVeth (pod_net_ns (j_pod j)) (pb_local_intf (j_link j)) (pb_local_ip (j_link j)) (pb_local_mac (j_link j))";
        cases "MakeQdiscs (net E) (pb_properties (j_link j))") (simp_all add: bnd_bnd ended_def bnd_ret_id)
qed

text \<open>
  A thread is the handler. \<open>addLink\<close> for a peer on another host does what the first four actions
  do, and then calls the peer; \<open>Update\<close>, called with the payload of that call, does what the three
  actions on the daemon of the peer do. The other branches of \<open>addLink\<close>, \<open>delLink\<close> and \<open>updateLink\<close> do
  what the actions of their threads do, once they have built the interface. The results are the same
  values in the same states of the daemon, whatever the host answers.
\<close>

lemma threads_are_handlers:
  "add_other_host E (j_bypass j) (j_pod j) (j_peerPod j) (j_link j) (j_start j) =
     bnd (drive E j 4 L_lock) (\<lambda>p. case p of
       Finished r \<Rightarrow> ret r
     | _ \<Rightarrow> check (hosted (UpdateRemote (rpc E) (j_pod j) (j_peerPod j) (j_link j)))
              (bnd (observe_since E ''add'' (j_start j)) (\<lambda>_. ret None)))
   \<and> Update E None (remote_payload (j_pod j) (j_peerPod j) (j_link j)) =
       bnd (drive E j 3 R_lock) (\<lambda>p. ret (case p of Finished err \<Rightarrow> (False, err) | _ \<Rightarrow> (True, None)))
   \<and> add_same_host E (j_bypass j) (j_pod j) (j_peerPod j) (j_myVeth j) (j_link j) (j_start j) =
       (case MakeVeth (pod_net_ns (j_peerPod j)) (pb_peer_intf (j_link j)) (pb_peer_ip (j_link j)) (pb_peer_mac (j_link j)) of
          Inl err \<Rightarrow> ret (Some err)
        | Inr peerVeth \<Rightarrow> bnd (drive E (j\<lparr> j_peerVeth := peerVeth \<rparr>) 3 S_lock) (\<lambda>p. ret (ended p)))
   \<and> bnd (Update E (j_bypass j) (physical_payload (j_pod j) (j_link j))) (\<lambda>(response, err).
        if \<not> response \<or> err \<noteq> None then ret err else ret None) = bnd (drive E j 3 P_lock) (\<lambda>p. ret (ended p))
   \<and> hosted (ext (nl_MakeMacVLan (net E) (j_myVeth j) \<lparr> mv_ParentIF = pb_peer_intf (j_link j), mv_Mode = MacvlanMode E \<rparr>)) =
       bnd (drive E j 1 M_run) (\<lambda>p. ret (ended p))
   \<and> delLink E (j_pod j) (j_link j) =
       bnd (hosted (ext (now E))) (\<lambda>t.
         case MakeVeth (pod_net_ns (j_pod j)) (pb_local_intf (j_link j)) (pb_local_ip (j_link j)) (pb_local_mac (j_link j)) of
           Inl err \<Rightarrow> ret (Some err)
         | Inr myVeth \<Rightarrow> bnd (drive E (j\<lparr> j_myVeth := myVeth, j_start := t \<rparr>) 4 D_remove) (\<lambda>p. ret (ended p)))
   \<and> updateLink E (j_pod j) (j_link j) =
       bnd (reads (\<lambda>d. Some (TCPIPBypass d))) (\<lambda>bypass.
       bnd (hosted (ext (now E))) (\<lambda>t.
         case MakeVeth (pod_net_ns (j_pod j)) (pb_local_intf (j_link j)) (pb_local_ip (j_link j)) (pb_local_mac (j_link j)) of
           Inl err \<Rightarrow> ret (Some err)
         | Inr myVeth \<Rightarrow>
             bnd (drive E (j\<lparr> j_bypass := bypass, j_myVeth := myVeth, j_start := t \<rparr>) 1 U_run) (\<lambda>p. ret (ended p))))"
  using local_half [of E j] remote_half [of E j] same_host [of E j] physical_thread [of E j] macvlan_thread [of E j] del_thread [of E j] update_thread [of E j]
  by (simp only: payload_def)

section \<open>Mutexes and threads\<close>

text \<open>The mutex a thread holds, as a pair of a daemon and a UID.\<close>

fun holds :: "'n job \<Rightarrow> pc \<Rightarrow> ('n \<times> int64) option" where
  "holds j L_setup = Some (j_local j, pb_uid (j_link j))"
| "holds j L_add = Some (j_local j, pb_uid (j_link j))"
| "holds j (L_unlock err) = Some (j_local j, pb_uid (j_link j))"
| "holds j (R_run t) = Some (j_peer j, remote_uid j)"
| "holds j (R_unlock r) = Some (j_peer j, remote_uid j)"
| "holds j S_run = Some (j_local j, pb_uid (j_link j))"
| "holds j (S_unlock r) = Some (j_local j, pb_uid (j_link j))"
| "holds j (P_run t) = Some (j_local j, remote_uid j)"
| "holds j (P_unlock r) = Some (j_local j, remote_uid j)"
| "holds j _ = None"

definition holding :: "('n job \<times> pc) list \<Rightarrow> ('n \<times> int64) list" where
  "holding ts = concat (map (\<lambda>(j, p). case holds j p of None \<Rightarrow> [] | Some x \<Rightarrow> [x]) ts)"

lemma holding_simps [simp]:
  "holding [] = []" "holding (xs @ ys) = holding xs @ holding ys"
  "holding ((j, p) # ts) = (case holds j p of None \<Rightarrow> [] | Some x \<Rightarrow> [x]) @ holding ts"
  by (simp_all add: holding_def)

text \<open>How far a thread is from its end.\<close>

fun rank :: "pc \<Rightarrow> nat" where
  "rank L_lock = 8"
| "rank L_setup = 7"
| "rank L_add = 6"
| "rank (L_unlock err) = 5"
| "rank R_lock = 4"
| "rank (R_run t) = 3"
| "rank (R_unlock r) = 2"
| "rank L_observe = 1"
| "rank S_lock = 3"
| "rank S_run = 2"
| "rank (S_unlock r) = 1"
| "rank P_lock = 3"
| "rank (P_run t) = 2"
| "rank (P_unlock r) = 1"
| "rank M_run = 1"
| "rank D_remove = 4"
| "rank D_get = 3"
| "rank D_delete = 2"
| "rank D_observe = 1"
| "rank U_run = 1"
| "rank (Finished r) = 0"
| "rank (Ended r) = 0"

lemma lock_Done:
  assumes "bnd (mutexes (Lock u)) (\<lambda>_. ret p) d = (Done q, d')"
  shows "q = p \<and> u \<notin> held (linkMutexes d) \<and> held (linkMutexes d') = insert u (held (linkMutexes d))"
  using assms by (cases "u \<in> held (linkMutexes d)") (auto simp: bnd_def mutexes_def zoom_run Lock_held Lock_free ret_run)

lemma unlock_Done:
  assumes "bnd (mutexes (Unlock u)) (\<lambda>_. ret p) d = (Done q, d')"
  shows "q = p \<and> held (linkMutexes d') = held (linkMutexes d) - {u}"
proof (cases "u \<in> held (linkMutexes d)")
  case True
  with assms show ?thesis by (auto simp: bnd_def mutexes_def zoom_run Unlock_held ret_run)
next
  case False
  with assms show ?thesis by (auto simp: bnd_def mutexes_def zoom_run Unlock_def held_def ret_run split: if_splits)
qed

lemma lockless_held: "lockless m \<Longrightarrow> m d = (Done a, d') \<Longrightarrow> linkMutexes d' = linkMutexes d"
  by (auto simp: lockless_def dest: unchangedD)

lemma lockless_setup: "lockless (action E j L_setup)"
  by (auto intro!: lockless_bnd lockless_hosted panics_SetupVxLan split: option.splits)

lemma lockless_run: "lockless (action E j (R_run t))" "lockless (action E j (P_run t))"
  unfolding action.simps update_locked_def
  by (auto intro!: lockless_rules lockless_hosted panics_SetupVxLan panics_returns go_rules split: option.splits)

lemma lockless_veth: "lockless (action E j S_run)"
  by (auto intro!: lockless_rules lockless_hosted panics_returns go_rules)

text \<open>Actions between the mutexes.\<close>

fun working :: "pc \<Rightarrow> bool" where
  "working L_setup = True"
| "working L_add = True"
| "working (R_run t) = True"
| "working L_observe = True"
| "working S_run = True"
| "working (P_run t) = True"
| "working M_run = True"
| "working D_remove = True"
| "working D_get = True"
| "working D_delete = True"
| "working D_observe = True"
| "working U_run = True"
| "working p = False"

lemma lockless_action: "working p \<Longrightarrow> lockless (action E j p)"
proof (cases p)
  case L_setup
  then show ?thesis by (simp only: lockless_setup)
next
  case (R_run t)
  then show ?thesis by (simp only: lockless_run)
next
  case (P_run t)
  then show ?thesis by (simp only: lockless_run)
next
  case S_run
  then show ?thesis by (simp only: lockless_veth)
qed (auto intro!: lockless_rules lockless_hosted panics_returns go_rules split: option.splits sum.splits)

lemma working_next:
  assumes "working p" "action E j p d = (Done p', d')"
  shows "holds j p' = holds j p \<and> rank p' < rank p \<and> (\<forall>x. holds j p = Some x \<longrightarrow> fst x = place j p)"
  using assms by (cases p) (auto simp: ret_run split: option.splits sum.splits elim!: bnd_cases)

text \<open>What an action does to the mutexes of the daemon it runs on.\<close>

lemma action_locks:
  assumes "unfinished p" "action E j p d = (Done p', d')"
  shows "rank p' < rank p
    \<and> (\<forall>x. holds j p = Some x \<longrightarrow> fst x = place j p) \<and> (\<forall>x. holds j p' = Some x \<longrightarrow> fst x = place j p)
    \<and> (if holds j p' = holds j p then held (linkMutexes d') = held (linkMutexes d)
       else case holds j p of
         None \<Rightarrow> (\<exists>u. holds j p' = Some (place j p, u) \<and> u \<notin> held (linkMutexes d)
           \<and> held (linkMutexes d') = insert u (held (linkMutexes d)))
       | Some x \<Rightarrow> holds j p' = None \<and> held (linkMutexes d') = held (linkMutexes d) - {snd x})"
proof (cases "working p")
  case True
  have "linkMutexes d' = linkMutexes d" using lockless_held [OF lockless_action [OF True] assms(2)] .
  with working_next [OF True assms(2)] show ?thesis by simp
next
  case False
  show ?thesis
  proof (cases p)
    case L_lock
    with assms(2) lock_Done [of "pb_uid (j_link j)" L_setup d p' d'] show ?thesis by simp
  next
    case (L_unlock err)
    with assms(2) unlock_Done [of "pb_uid (j_link j)" "if err = None then R_lock else Finished err" d p' d']
    show ?thesis by auto
  next
    case R_lock
    let ?d = "d\<lparr> world := snd (now E (world d)) \<rparr>" and ?t = "fst (now E (world d))"
    have "bnd (mutexes (Lock (remote_uid j))) (\<lambda>_. ret (R_run ?t)) ?d = (Done p', d')"
      using assms(2) R_lock by (simp add: hosted_def zoom_run ext_run bnd_def [of "\<lambda>d. (_, _)"] bnd_def [of "zoom _ _ _"])
    from lock_Done [OF this] R_lock show ?thesis by simp
  next
    case (R_unlock r)
    with assms(2) unlock_Done [of "remote_uid j" "if snd r = None then L_observe else Finished (snd r)" d p' d']
    show ?thesis by auto
  next
    case P_lock
    let ?d = "d\<lparr> world := snd (now E (world d)) \<rparr>" and ?t = "fst (now E (world d))"
    have "bnd (mutexes (Lock (remote_uid j))) (\<lambda>_. ret (P_run ?t)) ?d = (Done p', d')"
      using assms(2) P_lock by (simp add: hosted_def zoom_run ext_run bnd_def [of "\<lambda>d. (_, _)"] bnd_def [of "zoom _ _ _"])
    from lock_Done [OF this] P_lock show ?thesis by simp
  next
    case (P_unlock r)
    with assms(2) unlock_Done [of "remote_uid j" "Ended (if \<not> fst r \<or> snd r \<noteq> None then snd r else None)" d p' d']
    show ?thesis by auto
  next
    case S_lock
    with assms(2) lock_Done [of "pb_uid (j_link j)" S_run d p' d'] show ?thesis by simp
  next
    case (S_unlock r)
    with assms(2) unlock_Done [of "pb_uid (j_link j)" "Ended r" d p' d'] show ?thesis by auto
  qed (use False assms(1) in auto)
qed

section \<open>The invariant\<close>

text \<open>
  The mutexes held on the daemons are those the threads hold, each by one thread, and every daemon is
  ready to serve.
\<close>

definition consistent :: "('n, 'w) conf \<Rightarrow> bool" where
  "consistent c \<longleftrightarrow> distinct (holding (snd c))
     \<and> (\<forall>n. held (linkMutexes (fst c n)) = {u. (n, u) \<in> set (holding (snd c))})
     \<and> (\<forall>n. daemon_ok (fst c n))"

lemma working_ok: "working p \<Longrightarrow> keeps_ok daemon_ok A (action E j p)"
proof (cases p)
  case L_setup
  then show ?thesis
    by (auto simp: link_spec_def intro!: SetupVxLan_ok keeps_ok_ret split: option.splits)
next
  case D_get
  have "keeps_ok daemon_ok A (ret (if x = pod_net_ns (j_pod j) then D_delete else D_observe))" for x
    by (simp add: keeps_ok_ret)
  then show ?thesis unfolding D_get action.simps by (intro keeps_ok_vni) (simp_all add: keeps_ok_ret)
next
  case D_delete
  have "keeps_ok daemon_ok A (modify (\<lambda>d. d\<lparr> vxlanManager := VxlanManager_Delete v (vxlanManager d) \<rparr>))" for v
    by (auto simp: keeps_ok_def VxlanManager_Delete_def daemon_ok_def intro!: hoare_modify)
  then show ?thesis unfolding D_delete by (auto intro!: hoare_rules)
qed (auto intro!: hoare_rules returns_ext update_locked_ok returns_SetupVeth returns_SetVethQdiscs split: sum.splits)

lemma action_ok: "keeps_ok daemon_ok no_panic (action E j p)"
proof (cases "working p")
  case False
  then show ?thesis by (cases p) (auto intro!: hoare_rules returns_ext)
qed (rule working_ok)

lemma starts_holds: "starts p \<Longrightarrow> holds j p = None \<and> rank p \<le> 8"
  by (cases p) simp_all

lemma initial_consistent: "initial c \<Longrightarrow> consistent c"
proof -
  assume c: "initial c"
  have "list_all (\<lambda>(j, p). starts p) ts \<Longrightarrow> holding ts = []" for ts :: "('a job \<times> pc) list"
    by (induction ts) (auto simp: starts_holds)
  with c show ?thesis by (auto simp: initial_def consistent_def)
qed

lemma step_consistent:
  assumes "step E c c'" "consistent c"
  shows "consistent c'"
  using assms
proof (cases rule: step_cases)
  case (act p n j ds p' d xs ys)
  note ok = assms(2) [unfolded act(1) consistent_def fst_conv snd_conv]
  have "daemon_ok (ds n)" using ok by blast
  with hoare_Done [OF action_ok [unfolded keeps_ok_def] _ act(5)] have d: "daemon_ok d" by simp
  note locks = action_locks [OF act(3,5), folded act(4)]
  let ?H = "holding xs @ holding ys"
  have old: "held (linkMutexes (ds m)) = {u. (m, u) \<in> set (holding (xs @ (j, p) # ys))}" for m using ok by blast
  show ?thesis
  proof (cases "holds j p' = holds j p")
    case True
    with locks have "held (linkMutexes d) = held (linkMutexes (ds n))" by simp
    with ok d True show ?thesis by (auto simp: act(2) consistent_def)
  next
    case False
    note switch = locks [unfolded if_not_P [OF False]]
    show ?thesis
    proof (cases "holds j p")
      case None
      have "\<exists>u. holds j p' = Some (n, u) \<and> u \<notin> held (linkMutexes (ds n))
          \<and> held (linkMutexes d) = insert u (held (linkMutexes (ds n)))"
        using switch None by simp
      then obtain u where u: "holds j p' = Some (n, u)" "u \<notin> held (linkMutexes (ds n))"
        "held (linkMutexes d) = insert u (held (linkMutexes (ds n)))" by blast
      with old [of n] None have "(n, u) \<notin> set ?H" by simp
      with ok d u None old show ?thesis by (auto simp: act(2) consistent_def)
    next
      case (Some x)
      have x: "holds j p' = None" "held (linkMutexes d) = held (linkMutexes (ds n)) - {snd x}" "fst x = n"
        using switch Some by simp_all
      from Some x(3) have hx: "holds j p = Some (n, snd x)" by (cases x) simp
      with ok have "(n, snd x) \<notin> set ?H" "distinct ?H" by auto
      with ok d x hx old show ?thesis by (auto simp: act(2) consistent_def)
    qed
  qed
next
  case (lost p ds xs j ys e)
  from lost(3) have "holds j p = None" by auto
  with lost assms(2) show ?thesis by (simp add: consistent_def)
qed

lemma reachable_consistent: "(step E)\<^sup>*\<^sup>* c c' \<Longrightarrow> initial c \<Longrightarrow> consistent c'"
  by (induction rule: rtranclp_induct) (auto intro: initial_consistent step_consistent)

section \<open>Progress\<close>

text \<open>An action that takes no mutex returns; so does one that takes a free mutex.\<close>

lemma working_acts:
  assumes "working p" "daemon_ok d"
  shows "\<exists>p' d'. action E j p d = (Done p', d')"
proof -
  obtain r d' where run: "action E j p d = (r, d')" by fastforce
  have "case action E j p d of (Done a, t) \<Rightarrow> daemon_ok t | (Abort x, t) \<Rightarrow> False"
    using working_ok [OF assms(1), where A = "\<lambda>_. False", of E j] assms(2) by (simp add: keeps_ok_def hoare_def)
  with run show ?thesis by (cases r) simp_all
qed

lemma unlock_total: "u \<in> held (linkMutexes d) \<Longrightarrow> \<exists>a d'. bnd (mutexes (Unlock u)) (\<lambda>_. ret p) d = (Done a, d')"
  by (simp add: bnd_def mutexes_def zoom_run Unlock_held ret_run)

lemma lock_total: "u \<notin> held (linkMutexes d) \<Longrightarrow> \<exists>a d'. bnd (mutexes (Lock u)) (\<lambda>_. ret p) d = (Done a, d')"
  by (simp add: bnd_def mutexes_def zoom_run Lock_free ret_run)

lemma holder_acts:
  assumes "daemon_ok d" "holds j p = Some (n, u)" "u \<in> held (linkMutexes d)"
  shows "\<exists>p' d'. action E j p d = (Done p', d')"
proof (cases "working p")
  case False
  with assms(2,3) unlock_total show ?thesis by (cases p) auto
qed (use assms(1) working_acts in blast)

lemma waiter_acts:
  assumes "daemon_ok d" "unfinished p" "holds j p = None" "held (linkMutexes d) = {}"
  shows "\<exists>p' d'. action E j p d = (Done p', d')"
proof (cases "working p")
  case False
  have lock: "\<exists>a d'. bnd (mutexes (Lock (remote_uid j))) (\<lambda>_. ret q) (d\<lparr> world := snd (now E (world d)) \<rparr>) = (Done a, d')"
    for q :: pc
    using lock_total [of "remote_uid j" "d\<lparr> world := snd (now E (world d)) \<rparr>" q] assms(4) by auto
  from False show ?thesis
  proof (cases p)
    case R_lock
    with lock [of "R_run (fst (now E (world d)))"] show ?thesis
      by (simp add: hosted_def zoom_run ext_run bnd_def [of "\<lambda>d. (_, _)"] bnd_def [of "zoom _ _ _"])
  next
    case P_lock
    with lock [of "P_run (fst (now E (world d)))"] show ?thesis
      by (simp add: hosted_def zoom_run ext_run bnd_def [of "\<lambda>d. (_, _)"] bnd_def [of "zoom _ _ _"])
  next
    case L_lock
    then show ?thesis using lock_total [of "pb_uid (j_link j)" d L_setup] assms(4) by simp
  next
    case S_lock
    then show ?thesis using lock_total [of "pb_uid (j_link j)" d S_run] assms(4) by simp
  qed (use assms(2,3) in auto)
qed (use assms(1) working_acts in blast)

lemma progress:
  assumes "consistent (ds, ts)" "list_ex (\<lambda>(j, p). unfinished p) ts"
  shows "\<exists>c'. act_step E (ds, ts) c'"
proof -
  have ok: "daemon_ok (ds n)" "held (linkMutexes (ds n)) = {u. (n, u) \<in> set (holding ts)}" for n
    using assms(1) by (simp_all add: consistent_def)
  have go: "\<exists>c'. act_step E (ds, ts) c'"
    if jp: "(j, p) \<in> set ts" "unfinished p" and run: "action (E (place j p)) j p (ds (place j p)) = (Done p', d')" for j p p' d'
  proof -
    obtain xs ys where "ts = xs @ (j, p) # ys" using jp(1) by (meson split_list)
    then show ?thesis using act_step.action [of p "place j p" j E ds p' d' xs ys, OF jp(2) refl run] by blast
  qed
  show ?thesis
  proof (cases "holding ts")
    case Nil
    obtain j p where jp: "(j, p) \<in> set ts" "unfinished p" using assms(2) by (auto simp: list_ex_iff)
    have "holds j p = None" using jp(1) Nil by (auto simp: holding_def split: option.splits)
    moreover have "held (linkMutexes (ds (place j p))) = {}" using ok(2) Nil by simp
    ultimately show ?thesis using waiter_acts [OF ok(1) jp(2)] go [OF jp] by blast
  next
    case (Cons x hs)
    then obtain n u where nu: "(n, u) \<in> set (holding ts)" by (cases x) auto
    then obtain j p where jp: "(j, p) \<in> set ts" "holds j p = Some (n, u)"
      by (auto simp: holding_def split: option.splits)
    have p: "unfinished p" "place j p = n" using jp(2) by (cases p; simp)+
    have "u \<in> held (linkMutexes (ds n))" using ok(2) nu by blast
    then show ?thesis using holder_acts [OF ok(1) jp(2)] go [OF jp(1) p(1)] p(2) by blast
  qed
qed

section \<open>Every run ends\<close>

definition remaining :: "('n, 'w) conf \<Rightarrow> nat" where
  "remaining c = sum_list (map (\<lambda>(j, p). rank p) (snd c))"

lemma step_remaining:
  assumes "step E c c'"
  shows "remaining c' < remaining c"
  using assms
proof (cases rule: step_cases)
  case (act p n j ds p' d xs ys)
  with action_locks [OF act(3) act(5) [unfolded act(4)]] show ?thesis by (simp add: remaining_def)
qed (auto simp: remaining_def)

lemma steps_remaining: "(step E ^^ k) c c' \<Longrightarrow> k + remaining c' \<le> remaining c"
proof (induction k arbitrary: c')
  case (Suc k)
  then obtain c1 where "(step E ^^ k) c c1" "step E c1 c'" by auto
  with Suc.IH [of c1] step_remaining [of E c1 c'] show ?case by simp
qed simp

lemma initial_remaining: "list_all (\<lambda>(j, p). starts p) ts \<Longrightarrow>
  sum_list (map (\<lambda>(j, p). rank p) ts) \<le> 8 * length ts"
  by (induction ts) (auto dest: starts_holds)

text \<open>
  C6: Any number of calls of \<open>addLink\<close>, in each of its branches, of \<open>delLink\<close> and of \<open>updateLink\<close> on any
  number of daemons, for both ends of a link at the same time or for different links, on the same or
  on different hosts, come to an end however they interleave and whatever the hosts answer; calls of
  \<open>addLink\<close> are taken from where their branch is chosen and the peer has been looked up. A run, in which
  connections to peers may also fail, has at most eight steps per call. There is no deadlock: as long
  as some call has not ended, some call can act, without the help of a failure; so when no action is
  possible any more, no call is left waiting, neither for a mutex of its own daemon nor for one of its
  peer, and no mutex is held.
\<close>

theorem concurrent_links_complete:
  assumes "initial c" and "(step E ^^ k) c c'"
  shows "k \<le> 8 * length (snd c)
    \<and> ((\<nexists>c''. act_step E c' c'') \<longrightarrow>
        list_all (\<lambda>(j, p). \<not> unfinished p) (snd c') \<and> (\<forall>n. held (linkMutexes (fst c' n)) = {}))"
proof
  show "k \<le> 8 * length (snd c)"
    using steps_remaining [OF assms(2)] initial_remaining [of "snd c"] assms(1)
    by (simp add: initial_def remaining_def)
  have ok: "consistent c'" using reachable_consistent assms relpowp_imp_rtranclp by metis
  show "(\<nexists>c''. act_step E c' c'') \<longrightarrow>
        list_all (\<lambda>(j, p). \<not> unfinished p) (snd c') \<and> (\<forall>n. held (linkMutexes (fst c' n)) = {})"
  proof
    assume stuck: "\<nexists>c''. act_step E c' c''"
    with progress [of "fst c'" "snd c'" E] ok have none: "\<not> list_ex (\<lambda>(j, p). unfinished p) (snd c')" by auto
    have fin: "holds j p = None" if "\<not> unfinished p" for j :: "'a job" and p
      using that by (cases p) simp_all
    have all: "list_all (\<lambda>(j, p). \<not> unfinished p) (snd c')" using none by (auto simp: list_ex_iff list_all_iff)
    then have "holding (snd c') = []" using fin by (auto simp: holding_def list_all_iff split: option.splits)
    with ok have "\<forall>n. held (linkMutexes (fst c' n)) = {}" by (simp add: consistent_def)
    moreover have "list_all (\<lambda>(j, p). \<not> unfinished p) (snd c')"
      using all fin by (auto simp: list_all_iff)
    ultimately show "list_all (\<lambda>(j, p). \<not> unfinished p) (snd c') \<and> (\<forall>n. held (linkMutexes (fst c' n)) = {})" by blast
  qed
qed

section \<open>Witnesses\<close>

text \<open>A thread that runs alone, for \<open>k\<close> actions.\<close>

fun solo :: "('n \<Rightarrow> 'w env) \<Rightarrow> 'n job \<Rightarrow> nat \<Rightarrow> ('n \<Rightarrow> 'w daemon) \<Rightarrow> pc \<Rightarrow> ('n \<Rightarrow> 'w daemon) \<times> pc" where
  "solo E j 0 ds p = (ds, p)"
| "solo E j (Suc k) ds p =
     (if unfinished p then
        (case action (E (place j p)) j p (ds (place j p)) of
           (Done p', d) \<Rightarrow> solo E j k (ds(place j p := d)) p'
         | (Abort x, d) \<Rightarrow> (ds, p))
      else (ds, p))"

lemma solo_steps:
  "(step E)\<^sup>*\<^sup>* (ds, xs @ (j, p) # ys) (fst (solo E j k ds p), xs @ (j, snd (solo E j k ds p)) # ys)"
proof (induction k arbitrary: ds p)
  case (Suc k)
  show ?case
  proof (cases "unfinished p")
    case True
    obtain r d where run: "action (E (place j p)) j p (ds (place j p)) = (r, d)" by fastforce
    show ?thesis
    proof (cases r)
      case (Done p')
      have "step E (ds, xs @ (j, p) # ys) (ds(place j p := d), xs @ (j, p') # ys)"
        using act_steps [OF True refl] run Done by blast
      from converse_rtranclp_into_rtranclp [OF this Suc.IH [of "ds(place j p := d)" p']] show ?thesis
        using run Done True by (simp del: fun_upd_apply)
    qed (use run True in simp)
  qed simp
qed simp

lemma quiet_SetupVxLan:
  assumes "vs_SrcIntf v \<noteq> []" "vs_IntfIp v = []"
  shows "SetupVxLan (quiet_host :: unit netlib) None v None w = (Done None, w)"
  using assms
  by (simp add: SetupVxLan_def CreateOrUpdate_def vxlan_params_same vxlan_veth_def getLinkFromNS_def update_link_def
      make_vxlan_def MakeQdiscs_def SetVethQdiscs_def ClearVethQdiscs_def vethNs_def ns_do_def quiet_host_def demo_link_def go_simps)

definition demo_job :: "bool job" where
  "demo_job =
     \<lparr> j_local = False, j_peer = True, j_bypass = None, j_pod = demo_pod,
       j_peerPod = demo_pod\<lparr> pod_name := ''r2'', pod_src_ip := ''10.0.0.2'', pod_net_ns := ''/run/netns/b'' \<rparr>,
       j_link = demo_pb_link, j_myVeth = demo_veth, j_peerVeth = demo_peer, j_start = 0 \<rparr>"

lemma quiet_env_sel:
  "net quiet_env = quiet_host" "now quiet_env = (\<lambda>w. (0, w))" by (simp_all add: quiet_env_def)

lemma eight: "(8 :: nat) = Suc (Suc (Suc (Suc (Suc (Suc (Suc (Suc 0)))))))" by simp

lemma demo_run: "snd (solo (\<lambda>_. quiet_env) demo_job 8 (\<lambda>_. demo_daemon ()) L_lock) = Finished None"
  by (simp add: eight quiet_env_sel quiet_SetupVxLan mutexes_def hosted_def zoom_run ext_run ret_run Lock_def Unlock_def MutexMap_Get_def Let_def
     demo_job_def demo_daemon_def demo_pb_link_def link_spec_def update_locked_def update_spec_def payload_def remote_payload_def
     add_vni_def observe_since_def Observe_def remote_uid_def alloc_def NewVxlanManager_def VxlanManager_Get_def go_simps)

text \<open>Daemon \<open>False\<close> adds a link to a pod on daemon \<open>True\<close>, alone.\<close>

abbreviation demo_conf :: "(bool, unit) conf" where
  "demo_conf \<equiv> (\<lambda>_. demo_daemon (), [(demo_job, L_lock)])"

lemma demo_initial: "initial demo_conf"
  by (auto simp: initial_def daemon_ok_def demo_daemon_def held_def empty_mem_def mem_ok_def NewVxlanManager_def
      NewTopologyManager_def)

lemma demo_reaches: "\<exists>ds. (step (\<lambda>_. quiet_env))\<^sup>*\<^sup>* demo_conf (ds, [(demo_job, Finished None)])"
  using solo_steps [of "\<lambda>_. quiet_env" "\<lambda>_. demo_daemon ()" "[]" demo_job L_lock "[]" 8] demo_run by auto

theorem concurrent_links_complete_witness:
  "\<exists>k ds. (step (\<lambda>_. quiet_env) ^^ k) demo_conf (ds, [(demo_job, Finished None)]) \<and> k \<le> 8
     \<and> (\<forall>n. held (linkMutexes (ds n)) = {})"
proof -
  obtain ds where "(step (\<lambda>_. quiet_env))\<^sup>*\<^sup>* demo_conf (ds, [(demo_job, Finished None)])"
    using demo_reaches by blast
  then obtain k where run: "(step (\<lambda>_. quiet_env) ^^ k) demo_conf (ds, [(demo_job, Finished None)])"
    using rtranclp_imp_relpowp by metis
  have "\<nexists>c''. act_step (\<lambda>_. quiet_env) (ds, [(demo_job, Finished None)]) c''"
    by (auto elim!: act_stepE simp: Cons_eq_append_conv)
  with concurrent_links_complete [OF demo_initial run] run show ?thesis by auto
qed

end
