(* ===== verification/Ends.thy ===== *)
theory Ends
  imports Protocol
begin

text \<open>
  What concurrent calls make of the tables of network identifiers. Calls of \<open>addLink\<close> and \<open>Update\<close> record
  the network namespace of an end under the mutex of the link; \<open>delLink\<close> looks an entry up and deletes it in
  two steps, without the mutex.
\<close>

section \<open>Both ends are recorded\<close>

text \<open>The namespace the table of a daemon gives for a network identifier.\<close>

definition entry :: "'w daemon \<Rightarrow> int32 \<Rightarrow> string option" where
  "entry d vni = (case VxlanManager_Get vni (vxlanManager d) of None \<Rightarrow> None | Some p \<Rightarrow> cells (netns_strings d) p)"

lemma add_vni_entry:
  assumes "daemon_ok d" "add_vni vni netns d = (Done a, d')"
  shows "entry d' = (entry d)(vni \<mapsto> netns)"
proof
  fix v
  obtain p h where al: "alloc netns (netns_strings d) = (p, h)" by fastforce
  have m: "mem_ok (netns_strings d)" using assms(1) by (simp add: daemon_ok_def)
  have d': "d' = d\<lparr> netns_strings := h, vxlanManager := VxlanManager_Add vni p (vxlanManager d) \<rparr>"
    using assms(2) al by (simp add: add_vni_def)
  have "cells h q = cells (netns_strings d) q" if q: "vxlans (vxlanManager d) v = Some q" for q
  proof -
    obtain s where "cells (netns_strings d) q = Some s" using assms(1) q by (fastforce simp: daemon_ok_def)
    with alloc_keeps [OF m al] show ?thesis by simp
  qed
  then show "entry d' v = ((entry d)(vni \<mapsto> netns)) v"
    using mem_ok_alloc [OF m al]
    by (auto simp: entry_def d' VxlanManager_Add_def VxlanManager_Get_def split: option.splits)
qed

text \<open>A ready daemon with table \<open>e\<close>.\<close>

definition table_is :: "(int32 \<Rightarrow> string option) \<Rightarrow> 'w daemon \<Rightarrow> bool" where
  "table_is e d \<longleftrightarrow> daemon_ok d \<and> entry d = e"

lemma table_frame:
  assumes "unchanged ok_state m"
  shows "hoare (table_is e) m (\<lambda>_. table_is e) (\<lambda>_. True)"
proof (rule hoareI)
  fix d :: "'a daemon"
  assume d: "table_is e d"
  obtain r d' where run: "m d = (r, d')" by fastforce
  have "ok_state d' = ok_state d" using unchangedD [OF assms run] .
  then have "daemon_ok d' = daemon_ok d" "entry d' = entry d"
    by (simp_all add: ok_state_def daemon_ok_def entry_def fun_eq_iff split: option.splits)
  with d run show "case m d of (Done a, t) \<Rightarrow> table_is e t | (Abort x, t) \<Rightarrow> True"
    by (cases r) (simp_all add: table_is_def)
qed

lemma frames [go_rules]:
  "unchanged ok_state (hosted m)" "unchanged ok_state (mutexes x)" "unchanged ok_state (deref_string p)"
  "unchanged ok_state (modify (\<lambda>d. d\<lparr> observations := f d \<rparr>))"
  by (simp_all add: unchanged_def hosted_def mutexes_def zoom_run deref_string_def ok_state_def split: option.splits)

lemma frame_observe [go_rules]: "unchanged ok_state (observe_since E method t0)"
  unfolding observe_since_def Observe_def by (intro unchanged_bnd frames)

lemma table_add: "hoare (table_is e) (add_vni vni netns) (\<lambda>_. table_is (e(vni \<mapsto> netns))) (\<lambda>_. True)"
proof (rule hoareI)
  fix d :: "'a daemon"
  assume d: "table_is e d"
  obtain a d' where run: "add_vni vni netns d = (Done a, d')" by (simp add: add_vni_def)
  have "daemon_ok d'"
    using hoare_Done [OF add_vni_ok [unfolded keeps_ok_def] _ run] d by (simp add: table_is_def)
  with d run show "case add_vni vni netns d of (Done a, t) \<Rightarrow> table_is (e(vni \<mapsto> netns)) t | (Abort x, t) \<Rightarrow> True"
    using add_vni_entry [of d vni netns a d'] by (simp add: table_is_def)
qed

lemma update_locked_table:
  "hoare (table_is e) (update_locked E bypass pod t0)
     (\<lambda>r. table_is (if fst r then e(rp_vni pod \<mapsto> rp_net_ns pod) else e)) (\<lambda>_. True)"
proof -
  have tail: "hoare (table_is e) (case r of
       Some err \<Rightarrow> ret (False, Some err)
     | None \<Rightarrow>
         bnd (add_vni (rp_vni pod) (rp_net_ns pod)) (\<lambda>_.
         bnd (observe_since E ''remoteUpdate'' t0) (\<lambda>_. ret (True, None))))
     (\<lambda>r. table_is (if fst r then e(rp_vni pod \<mapsto> rp_net_ns pod) else e)) (\<lambda>_. True)" for r
    by (cases r) (auto intro!: hoare_ret hoare_bnd [OF table_add hoare_bnd [OF table_frame [OF frame_observe]]])
  show ?thesis
    unfolding update_locked_def
  proof (rule hoare_bnd [OF hoare_reads [where Q = "\<lambda>_. table_is e"]])
    fix netns
    have "unchanged ok_state (case netns of
            None \<Rightarrow> ret ()
          | Some p \<Rightarrow> bnd (deref_string p) (\<lambda>old.
              if old \<noteq> rp_net_ns pod
              then bnd (hosted (RemoveLinkWithVni (net E) (rp_vni pod) old)) (\<lambda>_. ret ())
              else ret ()))"
      by (auto intro!: go_rules split: option.splits)
    then show "hoare (table_is e) (bnd (case netns of
            None \<Rightarrow> ret ()
          | Some p \<Rightarrow> bnd (deref_string p) (\<lambda>old.
              if old \<noteq> rp_net_ns pod
              then bnd (hosted (RemoveLinkWithVni (net E) (rp_vni pod) old)) (\<lambda>_. ret ())
              else ret ())) (\<lambda>_.
     bnd (reads (update_spec pod)) (\<lambda>vxlanSpec.
     bnd (hosted (SetupVxLan (net E) bypass vxlanSpec (rp_properties pod))) (\<lambda>r. case r of
       Some err \<Rightarrow> ret (False, Some err)
     | None \<Rightarrow>
         bnd (add_vni (rp_vni pod) (rp_net_ns pod)) (\<lambda>_.
         bnd (observe_since E ''remoteUpdate'' t0) (\<lambda>_. ret (True, None)))))))
       (\<lambda>r. table_is (if fst r then e(rp_vni pod \<mapsto> rp_net_ns pod) else e)) (\<lambda>_. True)"
      by (intro hoare_bnd [OF table_frame] hoare_bnd [OF hoare_reads [where Q = "\<lambda>_. table_is e"]] frames tail)
  qed
qed

lemma table_delete:
  "hoare (table_is e) (modify (\<lambda>d. d\<lparr> vxlanManager := VxlanManager_Delete v (vxlanManager d) \<rparr>))
     (\<lambda>_. table_is (e(v := None))) (\<lambda>_. True)"
proof (rule hoareI)
  fix d :: "'a daemon"
  assume d: "table_is e d"
  let ?d = "d\<lparr> vxlanManager := VxlanManager_Delete v (vxlanManager d) \<rparr>"
  have "daemon_ok ?d" using d by (auto simp: table_is_def daemon_ok_def VxlanManager_Delete_def)
  moreover have "entry ?d x = (e(v := None)) x" for x
    using d by (auto simp: table_is_def entry_def VxlanManager_Delete_def VxlanManager_Get_def split: option.splits)
  ultimately show "case modify (\<lambda>d. d\<lparr> vxlanManager := VxlanManager_Delete v (vxlanManager d) \<rparr>) d of
      (Done a, t) \<Rightarrow> table_is (e(v := None)) t | (Abort x, t) \<Rightarrow> True"
    by (simp add: table_is_def fun_eq_iff)
qed

text \<open>What an action does to the table of its daemon.\<close>

fun written :: "'n job \<Rightarrow> pc \<Rightarrow> pc \<Rightarrow> (int32 \<times> string option) option" where
  "written j L_add p' = Some (GetVniFromUid (pb_uid (j_link j)), Some (pod_net_ns (j_pod j)))"
| "written j (R_run t) (R_unlock r) =
     (if fst r then Some (GetVniFromUid (pb_uid (j_link j)), Some (pod_net_ns (j_peerPod j))) else None)"
| "written j (P_run t) (P_unlock r) =
     (if fst r then Some (GetVniFromUid (pb_uid (j_link j)), Some (pod_net_ns (j_pod j))) else None)"
| "written j D_delete p' = Some (GetVniFromUid (pb_uid (j_link j)), None)"
| "written j p p' = None"

lemma action_table:
  "hoare (table_is e) (action E j p)
     (\<lambda>p'. table_is (case written j p p' of None \<Rightarrow> e | Some (v, s) \<Rightarrow> e(v := s))) (\<lambda>_. True)"
proof (cases p)
  case L_add
  then show ?thesis by (auto intro!: hoare_bnd [OF table_add] hoare_ret)
next
  case (R_run t)
  then show ?thesis
    by (auto intro!: hoare_bnd [OF update_locked_table] hoare_ret simp: payload_def remote_payload_def)
next
  case (P_run t)
  then show ?thesis
    by (auto intro!: hoare_bnd [OF update_locked_table] hoare_ret simp: physical_payload_def)
next
  case D_delete
  then show ?thesis by (auto intro!: hoare_bnd [OF table_delete] hoare_ret)
qed (auto intro!: table_frame go_rules split: option.splits sum.splits)

text \<open>Where a thread for another host has recorded its own end, and the end of the peer.\<close>

fun past_local :: "pc \<Rightarrow> bool" where
  "past_local (L_unlock err) = (err = None)"
| "past_local R_lock = True"
| "past_local (R_run t) = True"
| "past_local (R_unlock r) = True"
| "past_local L_observe = True"
| "past_local (Finished r) = (r = None)"
| "past_local _ = False"

fun past_remote :: "pc \<Rightarrow> bool" where
  "past_remote (R_unlock r) = (snd r = None)"
| "past_remote L_observe = True"
| "past_remote (Finished r) = (r = None)"
| "past_remote _ = False"

text \<open>The threads for other hosts, those for physical peers, and those that delete a link.\<close>

fun link_pc :: "pc \<Rightarrow> bool" where
  "link_pc L_lock = True"
| "link_pc L_setup = True"
| "link_pc L_add = True"
| "link_pc (L_unlock err) = True"
| "link_pc L_observe = True"
| "link_pc R_lock = True"
| "link_pc (R_run t) = True"
| "link_pc (R_unlock r) = True"
| "link_pc (Finished r) = True"
| "link_pc _ = False"

fun phys_pc :: "pc \<Rightarrow> bool" where
  "phys_pc P_lock = True"
| "phys_pc (P_run t) = True"
| "phys_pc (P_unlock r) = True"
| "phys_pc _ = False"

fun del_pc :: "pc \<Rightarrow> bool" where
  "del_pc D_remove = True"
| "del_pc D_get = True"
| "del_pc D_delete = True"
| "del_pc D_observe = True"
| "del_pc _ = False"

lemma pc_kinds: "del_pc p \<Longrightarrow> \<not> link_pc p \<and> \<not> phys_pc p" "phys_pc p \<Longrightarrow> \<not> link_pc p \<and> \<not> del_pc p"
  by (cases p; simp)+

lemma next_pc:
  assumes "link_pc p" "unfinished p" "action E j p d = (Done p', d')"
  shows "link_pc p' \<and> (past_local p' \<longrightarrow> past_local p \<or> p = L_add)
    \<and> (past_remote p' \<longrightarrow> past_remote p \<or> (\<exists>t r. p = R_run t \<and> p' = R_unlock r \<and> fst r))"
  using assms
proof (cases p)
  case (R_run t)
  with assms(3) obtain b e where "p' = R_unlock (b, e)" "\<exists>d1. update_locked E None (payload j) t d = (Done (b, e), d1)"
    by (auto simp: ret_run elim!: bnd_cases)
  with R_run show ?thesis by (auto dest: update_locked_response)
qed (auto simp: ret_run split: option.splits if_splits elim!: bnd_cases)

definition vni :: "'n job \<Rightarrow> int32" where
  "vni j = GetVniFromUid (pb_uid (j_link j))"

lemma next_del_pc:
  assumes "del_pc p" "unfinished p" "action E j p d = (Done p', d')"
  shows "del_pc p' \<or> p' = Ended None"
    and "entry d (vni j) \<noteq> Some (pod_net_ns (j_pod j)) \<Longrightarrow> p' \<noteq> D_delete"
proof -
  show "del_pc p' \<or> p' = Ended None"
    using assms by (cases p) (auto simp: ret_run split: option.splits elim!: bnd_cases)
  show "p' \<noteq> D_delete" if "entry d (vni j) \<noteq> Some (pod_net_ns (j_pod j))"
  proof (cases p)
    case D_get
    with assms(3) that show ?thesis
      by (auto simp: bnd_reads entry_def vni_def deref_string_def ret_run bnd_def split: option.splits if_splits)
  qed (use assms in \<open>auto simp: ret_run elim!: bnd_cases\<close>)
qed

lemma next_phys_pc:
  assumes "phys_pc p" "unfinished p" "action E j p d = (Done p', d')"
  shows "phys_pc p' \<or> (\<exists>r. p' = Ended r)"
  using assms by (cases p) (auto simp: ret_run elim!: bnd_cases)

lemma next_other_pc:
  assumes "\<not> link_pc p" "\<not> del_pc p" "\<not> phys_pc p" "unfinished p" "action E j p d = (Done p', d')"
  shows "\<not> link_pc p' \<and> \<not> del_pc p' \<and> \<not> phys_pc p'"
  using assms by (cases p) (auto simp: ret_run split: sum.splits elim!: bnd_cases)

text \<open>
  The calls agree on the ends of the links: \<open>ns n v\<close> is the network namespace of the end of link \<open>v\<close>
  on daemon \<open>n\<close>. A call of \<open>delLink\<close> is for an end that is gone if the namespace it names is neither that
  of the present end nor the one in the table, so that it will find nothing to delete.
\<close>

definition agrees :: "('n \<Rightarrow> int32 \<Rightarrow> string) \<Rightarrow> 'n job \<Rightarrow> bool" where
  "agrees ns j \<longleftrightarrow> pod_net_ns (j_pod j) = ns (j_local j) (vni j) \<and> pod_net_ns (j_peerPod j) = ns (j_peer j) (vni j)"

definition gone :: "('n \<Rightarrow> int32 \<Rightarrow> string) \<Rightarrow> ('n \<Rightarrow> 'w daemon) \<Rightarrow> 'n job \<Rightarrow> bool" where
  "gone ns ds j \<longleftrightarrow> pod_net_ns (j_pod j) \<noteq> ns (j_local j) (vni j)
     \<and> entry (ds (j_local j)) (vni j) \<noteq> Some (pod_net_ns (j_pod j))"

text \<open>The ends of the links that calls of \<open>addLink\<close> for peers on other hosts add.\<close>

definition added_ends :: "('n, 'w) conf \<Rightarrow> ('n \<times> int32) set" where
  "added_ends c = {(n, v). \<exists>j. (j, L_lock) \<in> set (snd c) \<and> v = vni j \<and> (n = j_local j \<or> n = j_peer j)}"

text \<open>
  What holds of a thread while it runs, for a set \<open>A\<close> of ends: threads for other hosts work on ends of
  \<open>A\<close> only, and have recorded them as far as they have come; other threads do not interfere with them.
\<close>

definition recorded :: "('n \<times> int32) set \<Rightarrow> ('n \<Rightarrow> int32 \<Rightarrow> string) \<Rightarrow> ('n \<Rightarrow> 'w daemon) \<Rightarrow> 'n job \<times> pc \<Rightarrow> bool" where
  "recorded A ns ds = (\<lambda>(j, p).
     if link_pc p
     then agrees ns j \<and> (j_local j, vni j) \<in> A \<and> (j_peer j, vni j) \<in> A
       \<and> (past_local p \<longrightarrow> entry (ds (j_local j)) (vni j) = Some (ns (j_local j) (vni j)))
       \<and> (past_remote p \<longrightarrow> entry (ds (j_peer j)) (vni j) = Some (ns (j_peer j) (vni j)))
     else if del_pc p then (j_local j, vni j) \<in> A \<longrightarrow> p \<noteq> D_delete \<and> gone ns ds j
     else if phys_pc p then (j_local j, vni j) \<in> A \<longrightarrow> pod_net_ns (j_pod j) = ns (j_local j) (vni j)
     else True)"

text \<open>A recorded thread writes namespaces of present ends only, as far as the ends of \<open>A\<close> are concerned.\<close>

lemma written_agrees:
  assumes "recorded A ns ds (j, p)" "written j p p' = Some (v, s)" "(place j p, v) \<in> A"
  shows "s = Some (ns (place j p) v)"
  using assms
  by (cases "(j, p, p')" rule: written.cases) (auto simp: recorded_def agrees_def vni_def split: if_splits)

lemma recorded_mono:
  assumes "recorded A ns ds t" "\<And>n v. (n, v) \<in> A \<Longrightarrow> entry (ds' n) v = entry (ds n) v \<or> entry (ds' n) v = Some (ns n v)"
  shows "recorded A ns ds' t"
  using assms(1) assms(2) [of "j_local (fst t)" "vni (fst t)"] assms(2) [of "j_peer (fst t)" "vni (fst t)"]
  by (cases t) (auto simp: recorded_def gone_def split: if_splits)

lemma link_recorded:
  assumes "link_pc p" "recorded A ns ds (j, p)" "unfinished p" "action E j p (ds (place j p)) = (Done p', d)"
    and d: "entry d = (case written j p p' of None \<Rightarrow> entry (ds (place j p)) | Some (v, s) \<Rightarrow> (entry (ds (place j p)))(v := s))"
    and mono: "recorded A ns (ds(place j p := d)) (j, p)"
  shows "recorded A ns (ds(place j p := d)) (j, p')"
proof -
  let ?ds = "ds(place j p := d)"
  have ag: "agrees ns j" "(j_local j, vni j) \<in> A" "(j_peer j, vni j) \<in> A"
    using assms(1,2) by (simp_all add: recorded_def)
  note nxt = next_pc [OF assms(1,3,4)]
  note ends = mono [unfolded recorded_def split_conv if_P [OF assms(1)]]
  have "entry (?ds (j_local j)) (vni j) = Some (ns (j_local j) (vni j))" if past: "past_local p'"
  proof (cases "past_local p")
    case False
    then have "p = L_add" using nxt past by blast
    with d ag show ?thesis by (simp add: agrees_def vni_def)
  qed (use ends in blast)
  moreover have "entry (?ds (j_peer j)) (vni j) = Some (ns (j_peer j) (vni j))" if past: "past_remote p'"
  proof (cases "past_remote p")
    case False
    then obtain t r where "p = R_run t" "p' = R_unlock r" "fst r" using nxt past by blast
    with d ag show ?thesis by (simp add: agrees_def vni_def)
  qed (use ends in blast)
  ultimately show ?thesis using nxt ag by (simp add: recorded_def)
qed

lemma other_recorded:
  assumes "\<not> link_pc p" "recorded A ns ds (j, p)" "recorded A ns ds' (j, p)" "unfinished p"
    and run: "action E j p (ds (place j p)) = (Done p', d)"
  shows "recorded A ns ds' (j, p')"
proof -
  consider "del_pc p" | "phys_pc p" | "\<not> del_pc p" "\<not> phys_pc p" by blast
  then show ?thesis
  proof cases
    case 1
    then have n: "place j p = j_local j" by (cases p) simp_all
    have "p' \<noteq> D_delete \<and> gone ns ds' j" if "(j_local j, vni j) \<in> A"
      using next_del_pc(2) [OF 1 assms(4) run] n assms(1-3) 1 that by (simp add: recorded_def gone_def)
    with next_del_pc(1) [OF 1 assms(4) run] show ?thesis
      using pc_kinds(1) [of p'] by (auto simp: recorded_def)
  next
    case 2
    with next_phys_pc [OF 2 assms(4) run] pc_kinds(2) assms(3) show ?thesis by (auto simp: recorded_def)
  next
    case 3
    with next_other_pc [OF assms(1) 3 assms(4) run] show ?thesis by (simp add: recorded_def)
  qed
qed

lemma step_recorded:
  assumes "step E c c'" "consistent c" "list_all (recorded A ns (fst c)) (snd c)"
  shows "list_all (recorded A ns (fst c')) (snd c')"
  using assms(1)
proof (cases rule: step_cases)
  case (act p n j ds p' d xs ys)
  let ?ds = "ds(n := d)"
  have rec: "recorded A ns ds (j, p)" using assms(3) act(1) by simp
  have "table_is (entry (ds n)) (ds n)" using assms(2) act(1) by (simp add: table_is_def consistent_def)
  from hoare_Done [OF action_table this act(5)]
  have d: "entry d = (case written j p p' of None \<Rightarrow> entry (ds n) | Some (v, s) \<Rightarrow> (entry (ds n))(v := s))"
    by (simp add: table_is_def)
  have "entry (?ds m) v = entry (ds m) v \<or> entry (?ds m) v = Some (ns m v)" if "(m, v) \<in> A" for m v
    using d written_agrees [OF rec, of p'] act(4) that by (auto split: option.splits)
  note mono = recorded_mono [of A ns ds _ ?ds, OF _ this]
  have "recorded A ns ?ds (j, p')"
  proof (cases "link_pc p")
    case True
    from link_recorded [OF this rec act(3,5) [unfolded act(4)] d [unfolded act(4)] mono [OF rec, unfolded act(4)]]
    show ?thesis unfolding act(4) .
  next
    case False
    then show ?thesis by (rule other_recorded [OF _ rec mono [OF rec] act(3,5) [unfolded act(4)]])
  qed
  then show ?thesis
    using assms(3) act(1,2) mono by (auto simp: list_all_iff)
next
  case (lost p ds xs j ys e)
  with assms(3) show ?thesis by (auto simp: recorded_def)
qed

text \<open>
  C7: However concurrent calls of \<open>addLink\<close>, \<open>delLink\<close> and \<open>updateLink\<close> interleave, as soon as a call of
  \<open>addLink\<close> for a peer on another host has succeeded, the daemons of both ends have recorded the
  namespace of their own end under the network identifier of the link, and no later step of any call
  changes that; provided the calls agree on the ends that such calls of \<open>addLink\<close> add: all calls of
  \<open>addLink\<close> name the same namespace for such an end, and a call of \<open>delLink\<close> for such an end names a
  namespace that is neither that one nor the one its daemon has recorded before, so that it finds
  nothing to delete (a call that finds its own namespace recorded can undo the addition). Calls of
  \<open>delLink\<close> for any other end, and of \<open>addLink\<close> for other peers, are not restricted.
\<close>

theorem both_ends_recorded:
  assumes "initial c" and "(step E)\<^sup>*\<^sup>* c c'"
    and "\<forall>j. (j, L_lock) \<in> set (snd c) \<longrightarrow> agrees ns j"
    and "\<forall>j. (j, P_lock) \<in> set (snd c) \<and> (j_local j, vni j) \<in> added_ends c \<longrightarrow> pod_net_ns (j_pod j) = ns (j_local j) (vni j)"
    and "\<forall>j. (j, D_remove) \<in> set (snd c) \<and> (j_local j, vni j) \<in> added_ends c \<longrightarrow>
      pod_net_ns (j_pod j) \<noteq> ns (j_local j) (vni j) \<and> entry (fst c (j_local j)) (vni j) \<noteq> Some (pod_net_ns (j_pod j))"
    and "(j, Finished None) \<in> set (snd c')"
  shows "entry (fst c' (j_local j)) (vni j) = Some (pod_net_ns (j_pod j))
    \<and> entry (fst c' (j_peer j)) (vni j) = Some (pod_net_ns (j_peerPod j))"
proof -
  let ?A = "added_ends c"
  have "consistent c' \<and> list_all (recorded ?A ns (fst c')) (snd c')"
    using assms(2)
  proof (induction rule: rtranclp_induct)
    case base
    have "recorded ?A ns (fst c) (j, p)" if "(j, p) \<in> set (snd c)" "starts p" for j p
      using that assms(3-5) by (cases p) (auto simp: recorded_def added_ends_def gone_def)
    then have "list_all (recorded ?A ns (fst c)) (snd c)"
      using assms(1) by (fastforce simp: initial_def list_all_iff)
    then show ?case using initial_consistent [OF assms(1)] by simp
  next
    case (step c1 c2)
    then show ?case using step_consistent step_recorded by blast
  qed
  with assms(6) have "recorded ?A ns (fst c') (j, Finished None)" by (auto simp: list_all_iff)
  then show ?thesis by (simp add: recorded_def agrees_def)
qed

section \<open>Deleting an old end while the new one is added\<close>

lemma delete_step:
  assumes "consistent (ds, xs @ (j, D_delete) # ys)"
  shows "\<exists>ds'. (step E)\<^sup>*\<^sup>* (ds, xs @ (j, D_delete) # ys) (ds', xs @ (j, Ended None) # ys) \<and> entry (ds' (j_local j)) (vni j) = None"
proof -
  let ?n = "j_local j"
  have table: "table_is (entry (ds ?n)) (ds ?n)" using assms by (simp add: table_is_def consistent_def)
  obtain d where d: "action (E ?n) j D_delete (ds ?n) = (Done D_observe, d)" by (simp add: bnd_modify ret_run)
  have d_table: "table_is ((entry (ds ?n))(vni j := None)) d"
    using hoare_Done [OF action_table table d] by (simp add: vni_def)
  then obtain p' d' where p': "action (E ?n) j D_observe d = (Done p', d')"
    using working_acts [of D_observe d "E ?n" j] by (auto simp: table_is_def)
  then have d': "action (E ?n) j D_observe d = (Done (Ended None), d')" by (auto simp: ret_run elim!: bnd_cases)
  have "step E (ds, xs @ (j, D_delete) # ys) (ds(?n := d), xs @ (j, D_observe) # ys)"
    using act_steps [of D_delete ?n j E ds D_observe d xs ys] d by simp
  moreover have "step E (ds(?n := d), xs @ (j, D_observe) # ys) ((ds(?n := d))(?n := d'), xs @ (j, Ended None) # ys)"
    by (rule act_steps) (simp_all add: d' del: action.simps)
  ultimately have "(step E)\<^sup>*\<^sup>* (ds, xs @ (j, D_delete) # ys) (ds(?n := d'), xs @ (j, Ended None) # ys)" by simp
  moreover have "entry d' (vni j) = None" using hoare_Done [OF action_table d_table d'] by (simp add: table_is_def)
  ultimately show ?thesis by (metis fun_upd_same)
qed

text \<open>
  C36: \<open>delLink\<close> compares the namespace its daemon has recorded for the link with its own and deletes the
  entry in two steps, without the mutex of the link. Take any reachable state in which a call of
  \<open>delLink\<close> stands between the two and a call of \<open>addLink\<close> for the same link, with an end on the same
  daemon, has succeeded, so that the daemon has by now recorded another namespace than the one \<open>delLink\<close>
  is to forget. Then the calls can go on so that \<open>delLink\<close> succeeds too and the entry of the new end is
  gone.
\<close>

theorem delLink_race:
  assumes "initial c" and "(step E)\<^sup>*\<^sup>* c c'"
    and "(jd, D_delete) \<in> set (snd c')" and "(ja, Finished None) \<in> set (snd c')"
    and "j_local jd = j_local ja \<or> j_local jd = j_peer ja" and "pb_uid (j_link jd) = pb_uid (j_link ja)"
    and "entry (fst c' (j_local jd)) (vni ja) = Some netns" and "netns \<noteq> pod_net_ns (j_pod jd)"
  shows "\<exists>c''. (step E)\<^sup>*\<^sup>* c' c'' \<and> (jd, Ended None) \<in> set (snd c'') \<and> (ja, Finished None) \<in> set (snd c'')
    \<and> entry (fst c'' (j_local jd)) (vni ja) = None"
proof -
  obtain xs ys where ts: "snd c' = xs @ (jd, D_delete) # ys" using assms(3) by (meson split_list)
  then have c': "c' = (fst c', xs @ (jd, D_delete) # ys)" by (metis prod.collapse)
  obtain ds where ds: "(step E)\<^sup>*\<^sup>* c' (ds, xs @ (jd, Ended None) # ys)" "entry (ds (j_local jd)) (vni jd) = None"
    using delete_step reachable_consistent [OF assms(2,1)] c' by metis
  moreover have "(ja, Finished None) \<in> set (xs @ (jd, Ended None) # ys)" using assms(4) ts by auto
  moreover have "vni jd = vni ja" using assms(6) by (simp add: vni_def)
  ultimately show ?thesis by (intro exI [of _ "(ds, xs @ (jd, Ended None) # ys)"]) simp
qed

section \<open>Witnesses\<close>

text \<open>
  A pod has been created again: the table of its daemon still has the namespace of the old one, whose
  end \<open>delLink\<close> deletes, while \<open>addLink\<close> sets up the end of the new one.
\<close>

definition old_job :: "bool job" where
  "old_job = demo_job\<lparr> j_pod := demo_pod\<lparr> pod_net_ns := ''/run/netns/old'' \<rparr> \<rparr>"

definition old_daemon :: "unit daemon" where
  "old_daemon = snd (add_vni (vni old_job) ''/run/netns/old'' (demo_daemon ()))"

abbreviation old_daemons :: "bool \<Rightarrow> unit daemon" where
  "old_daemons n \<equiv> if n then demo_daemon () else old_daemon"

lemma add_vni_held: "linkMutexes (snd (add_vni v s d)) = linkMutexes d"
  by (simp add: add_vni_def split: prod.splits)

lemma old_daemon_ok: "daemon_ok old_daemon" "entry old_daemon (vni old_job) = Some ''/run/netns/old''"
  "held (linkMutexes old_daemon) = {}"
proof -
  obtain a where run: "add_vni (vni old_job) ''/run/netns/old'' (demo_daemon ()) = (Done a, old_daemon)"
    unfolding old_daemon_def by (simp add: add_vni_def split: prod.splits)
  have demo: "daemon_ok (demo_daemon ())" "held (linkMutexes (demo_daemon ())) = {}"
    using demo_initial by (simp_all add: initial_def)
  have "table_is ((entry (demo_daemon ()))(vni old_job \<mapsto> ''/run/netns/old'')) old_daemon"
    by (rule hoare_Done [OF table_add _ run]) (simp add: table_is_def demo(1))
  then show "daemon_ok old_daemon" "entry old_daemon (vni old_job) = Some ''/run/netns/old''" by (simp_all add: table_is_def)
  show "held (linkMutexes old_daemon) = {}" using demo(2) by (simp add: old_daemon_def add_vni_held)
qed

lemma old_initial: "initial (old_daemons, [(old_job, D_remove), (demo_job, L_lock)])"
  using demo_initial old_daemon_ok by (simp add: initial_def)

text \<open>The deletion has looked the entry up; the new end is added; then the entry is deleted.\<close>

lemma old_run: "solo (\<lambda>_. quiet_env) old_job 2 old_daemons D_remove = (old_daemons, D_delete)"
  by (simp add: numeral_2_eq_2 quiet_env_sel quiet_host_def hosted_def zoom_run ext_run ret_run old_daemon_def add_vni_def
      old_job_def demo_job_def demo_daemon_def demo_pod_def vni_def alloc_def empty_mem_def NewVxlanManager_def VxlanManager_Add_def
      VxlanManager_Get_def deref_string_def go_simps fun_eq_iff)

lemma new_run: "snd (solo (\<lambda>_. quiet_env) demo_job 8 old_daemons L_lock) = Finished None"
  by (simp add: eight quiet_env_sel quiet_SetupVxLan mutexes_def hosted_def zoom_run ext_run ret_run Lock_def Unlock_def MutexMap_Get_def Let_def
     demo_job_def demo_daemon_def demo_pb_link_def link_spec_def update_locked_def update_spec_def payload_def remote_payload_def
     add_vni_def observe_since_def Observe_def remote_uid_def alloc_def NewVxlanManager_def VxlanManager_Get_def
     old_daemon_def go_simps)

lemma new_entry: "entry (fst (solo (\<lambda>_. quiet_env) demo_job 8 old_daemons L_lock) False) (vni demo_job) = Some ''/run/netns/a''"
  by (simp add: eight quiet_env_sel quiet_SetupVxLan mutexes_def hosted_def zoom_run ext_run ret_run Lock_def Unlock_def MutexMap_Get_def Let_def
     demo_job_def demo_daemon_def demo_pod_def demo_pb_link_def link_spec_def update_locked_def update_spec_def payload_def remote_payload_def
     add_vni_def observe_since_def Observe_def remote_uid_def alloc_def NewVxlanManager_def VxlanManager_Get_def VxlanManager_Add_def
     old_daemon_def entry_def vni_def go_simps)

theorem delLink_race_witness:
  "\<exists>c c' c''. initial c \<and> (step (\<lambda>_. quiet_env))\<^sup>*\<^sup>* c c' \<and> entry (fst c' False) (vni demo_job) = Some ''/run/netns/a''
    \<and> (step (\<lambda>_. quiet_env))\<^sup>*\<^sup>* c' c'' \<and> (old_job, Ended None) \<in> set (snd c'') \<and> (demo_job, Finished None) \<in> set (snd c'')
    \<and> entry (fst c'' False) (vni demo_job) = None"
proof -
  let ?E = "\<lambda>_ :: bool. quiet_env" and ?c = "(old_daemons, [(old_job, D_remove), (demo_job, L_lock)])"
  let ?c' = "(fst (solo ?E demo_job 8 old_daemons L_lock), [(old_job, D_delete), (demo_job, Finished None)])"
  have "(step ?E)\<^sup>*\<^sup>* ?c (old_daemons, [(old_job, D_delete), (demo_job, L_lock)])"
    using solo_steps [of ?E old_daemons "[]" old_job D_remove "[(demo_job, L_lock)]" 2] by (simp add: old_run)
  moreover have "(step ?E)\<^sup>*\<^sup>* (old_daemons, [(old_job, D_delete), (demo_job, L_lock)]) ?c'"
    using solo_steps [of ?E old_daemons "[(old_job, D_delete)]" demo_job L_lock "[]" 8] by (simp add: new_run)
  ultimately have run: "(step ?E)\<^sup>*\<^sup>* ?c ?c'" by simp
  have job: "j_local old_job = j_local demo_job" "pb_uid (j_link old_job) = pb_uid (j_link demo_job)" "j_local demo_job = False"
    "pod_net_ns (j_pod old_job) = ''/run/netns/old''"
    by (simp_all add: old_job_def demo_job_def)
  then obtain c'' where "(step ?E)\<^sup>*\<^sup>* ?c' c''" "(old_job, Ended None) \<in> set (snd c'')" "(demo_job, Finished None) \<in> set (snd c'')"
    "entry (fst c'' False) (vni demo_job) = None"
    using delLink_race [OF old_initial run, of old_job demo_job "''/run/netns/a''"] new_entry by auto
  then show ?thesis using run old_initial new_entry
    by (intro exI [of _ ?c] exI [of _ ?c'] exI [of _ c'']) (simp only: fst_conv snd_conv simp_thms)
qed

text \<open>
  On the daemon that adds a link, \<open>delLink\<close> deletes the entry of another link at the same time.
\<close>

definition other_job :: "bool job" where
  "other_job = demo_job\<lparr> j_link := demo_pb_link\<lparr> pb_uid := 2 \<rparr> \<rparr>"

definition other_daemon :: "unit daemon" where
  "other_daemon = snd (add_vni (vni other_job) ''/run/netns/a'' (demo_daemon ()))"

abbreviation other_daemons :: "bool \<Rightarrow> unit daemon" where
  "other_daemons n \<equiv> if n then demo_daemon () else other_daemon"

lemma vnis_differ: "GetVniFromUid 1 = 5001" "GetVniFromUid 2 = 5002"
  using GetVniFromUid_int [of 1] GetVniFromUid_int [of 2] by (simp_all add: VxlanBase_def)

lemma other_run: "snd (solo (\<lambda>_. quiet_env) other_job 4 other_daemons D_remove) = Ended None"
  "entry (fst (solo (\<lambda>_. quiet_env) other_job 4 other_daemons D_remove) False) (vni other_job) = None"
  by (simp_all add: numeral_eq_Suc quiet_env_sel quiet_host_def hosted_def zoom_run ext_run ret_run other_daemon_def add_vni_def
      other_job_def demo_job_def demo_daemon_def demo_pod_def demo_pb_link_def vni_def vnis_differ alloc_def empty_mem_def NewVxlanManager_def VxlanManager_Add_def
      VxlanManager_Get_def VxlanManager_Delete_def deref_string_def entry_def observe_since_def Observe_def go_simps)

lemma other_new_run:
  "snd (solo (\<lambda>_. quiet_env) demo_job 8 (fst (solo (\<lambda>_. quiet_env) other_job 4 other_daemons D_remove)) L_lock) = Finished None"
  by (simp add: numeral_eq_Suc quiet_env_sel quiet_SetupVxLan quiet_host_def [THEN arg_cong, of nl_RemoveVethLink]
      mutexes_def hosted_def zoom_run ext_run ret_run Lock_def Unlock_def MutexMap_Get_def Let_def other_daemon_def
      other_job_def demo_job_def demo_daemon_def demo_pod_def demo_pb_link_def vni_def vnis_differ alloc_def empty_mem_def NewVxlanManager_def
      VxlanManager_Add_def link_spec_def update_locked_def update_spec_def payload_def remote_payload_def add_vni_def remote_uid_def
      VxlanManager_Get_def VxlanManager_Delete_def deref_string_def observe_since_def Observe_def go_simps)

lemma other_initial: "initial (other_daemons, [(other_job, D_remove), (demo_job, L_lock)])"
proof -
  obtain a where run: "add_vni (vni other_job) ''/run/netns/a'' (demo_daemon ()) = (Done a, other_daemon)"
    unfolding other_daemon_def by (simp add: add_vni_def split: prod.splits)
  have demo: "daemon_ok (demo_daemon ())" "held (linkMutexes (demo_daemon ())) = {}"
    using demo_initial by (simp_all add: initial_def)
  have "daemon_ok other_daemon"
    using hoare_Done [OF table_add _ run, of "entry (demo_daemon ())"] demo(1) by (simp add: table_is_def)
  moreover have "held (linkMutexes other_daemon) = {}" using demo(2) by (simp add: other_daemon_def add_vni_held)
  ultimately show ?thesis using demo by (simp add: initial_def)
qed

theorem both_ends_recorded_witness:
  "\<exists>ds. (step (\<lambda>_. quiet_env))\<^sup>*\<^sup>* (other_daemons, [(other_job, D_remove), (demo_job, L_lock)])
       (ds, [(other_job, Ended None), (demo_job, Finished None)])
     \<and> entry (other_daemons False) (vni other_job) = Some ''/run/netns/a''
     \<and> entry (fst (solo (\<lambda>_. quiet_env) other_job 4 other_daemons D_remove) False) (vni other_job) = None
     \<and> entry (ds False) (vni demo_job) = Some ''/run/netns/a'' \<and> entry (ds True) (vni demo_job) = Some ''/run/netns/b''"
proof -
  let ?E = "\<lambda>_ :: bool. quiet_env" and ?c = "(other_daemons, [(other_job, D_remove), (demo_job, L_lock)])"
  let ?d1 = "fst (solo ?E other_job 4 other_daemons D_remove)"
  let ?c' = "(fst (solo ?E demo_job 8 ?d1 L_lock), [(other_job, Ended None), (demo_job, Finished None)])"
  let ?ns = "\<lambda>n v. if n then ''/run/netns/b'' else ''/run/netns/a''"
  have "(step ?E)\<^sup>*\<^sup>* ?c (?d1, [(other_job, Ended None), (demo_job, L_lock)])"
    using solo_steps [of ?E other_daemons "[]" other_job D_remove "[(demo_job, L_lock)]" 4] by (simp add: other_run)
  moreover have "(step ?E)\<^sup>*\<^sup>* (?d1, [(other_job, Ended None), (demo_job, L_lock)]) ?c'"
    using solo_steps [of ?E ?d1 "[(other_job, Ended None)]" demo_job L_lock "[]" 8] by (simp add: other_new_run)
  ultimately have run: "(step ?E)\<^sup>*\<^sup>* ?c ?c'" by simp
  have ends: "added_ends ?c = {(False, 5001), (True, 5001)}" "vni other_job = 5002"
    by (auto simp: added_ends_def demo_job_def other_job_def demo_pb_link_def vni_def vnis_differ)
  have ns: "agrees ?ns demo_job" by (simp add: agrees_def demo_job_def demo_pod_def)
  have "entry (other_daemons False) (vni other_job) = Some ''/run/netns/a''"
    by (simp add: other_daemon_def add_vni_def entry_def demo_daemon_def alloc_def empty_mem_def VxlanManager_Add_def VxlanManager_Get_def)
  moreover have "entry (fst ?c' False) (vni demo_job) = Some ''/run/netns/a'' \<and> entry (fst ?c' True) (vni demo_job) = Some ''/run/netns/b''"
    using both_ends_recorded [OF other_initial run, of ?ns demo_job] ends ns by (simp add: demo_job_def demo_pod_def)
  ultimately show ?thesis using run other_run(2) by (intro exI [of _ "fst ?c'"]) simp
qed

end
