(* ===== verification/Plugin.thy ===== *)
theory Plugin
  imports Services Pods
begin

text \<open>
  \<open>plugin/kube_dtn.go\<close>: the CNI plugin the kubelet runs for every pod that is created or deleted. It
  reads a network configuration and asks the daemon of the node to set up or to destroy the pod.

  \<open>('w, 'j, 'r) cni\<close> holds the CNI packages it uses: parsing of the configuration and of the arguments,
  and output of a result. Results (\<open>'r\<close>) and raw JSON (\<open>'j\<close>) are passed on unread. The client of
  \<open>proto/v1/kube_dtn_grpc.pb.go\<close> returns a nil response with every error.
\<close>

section \<open>The commands\<close>

record 'j NetConf =
  CNIVersion :: string
  RawPrevResult :: "'j option"

record K8sArgs =
  K8S_POD_NAME :: string
  K8S_POD_NAMESPACE :: string

record CmdArgs =
  StdinData :: string
  Args :: string
  Netns :: string

record ('w, 'j, 'r) cni =
  Unmarshal :: "string \<Rightarrow> error + 'j NetConf"
  ParsePrevResult :: "'j NetConf \<Rightarrow> error + 'r"
  NewResultFromResult :: "'r \<Rightarrow> error + 'r"
  empty_Result :: 'r
  LoadArgs :: "string \<Rightarrow> error + K8sArgs"
  PrintResult :: "'r \<Rightarrow> string \<Rightarrow> 'w \<Rightarrow> error option \<times> 'w"
  ReadFile :: "string \<Rightarrow> 'w \<Rightarrow> (error + string) \<times> 'w"

definition LocalDaemon :: string where
  "LocalDaemon = ''passthrough:///'' @ Localhost @ '':'' @ DefaultPort"

definition loadConf :: "('w, 'j, 'r) cni \<Rightarrow> string \<Rightarrow> error + 'j NetConf \<times> 'r" where
  "loadConf C bytes =
     (case Unmarshal C bytes of
        Inl err \<Rightarrow> Inl (Wrap ''failed to load netconf: '' err)
      | Inr n \<Rightarrow>
          if RawPrevResult n = None then Inr (n, empty_Result C)
          else (case ParsePrevResult C n of
            Inl err \<Rightarrow> Inl (Wrap ''could not parse prevResult: '' err)
          | Inr prev \<Rightarrow>
              (case NewResultFromResult C prev of
                 Inl err \<Rightarrow> Inl (Wrap ''could not convert result to current version: '' err)
               | Inr result \<Rightarrow> Inr (n, result))))"

definition cmdAdd :: "('w, 'j, 'r) cni \<Rightarrow> 'w rpcs \<Rightarrow> CmdArgs \<Rightarrow> ('w, error option) go" where
  "cmdAdd C R args =
     (case loadConf C (StdinData args) of
        Inl err \<Rightarrow> ret (Some err)
      | Inr (n, result) \<Rightarrow>
          (case LoadArgs C (Args args) of
             Inl err \<Rightarrow> ret (Some err)
           | Inr cniArgs \<Rightarrow>
               check (ext (rpc_Dial R LocalDaemon))
                 (bnd (rpc_SetupPod R LocalDaemon
                         \<lparr> spq_name = K8S_POD_NAME cniArgs, spq_kube_ns = K8S_POD_NAMESPACE cniArgs,
                           spq_net_ns = Netns args \<rparr>) (\<lambda>r. case r of
                    Inl err \<Rightarrow> ret (Some err)
                  | Inr response \<Rightarrow>
                      if \<not> response then ret None
                      else ext (PrintResult C result (CNIVersion n))))))"

text \<open>\<open>ok.Response\<close> is read before the error is, and \<open>ok\<close> is nil if there is an error.\<close>

definition cmdDel :: "('w, 'j, 'r) cni \<Rightarrow> 'w rpcs \<Rightarrow> CmdArgs \<Rightarrow> ('w, error option) go" where
  "cmdDel C R args =
     (case LoadArgs C (Args args) of
        Inl err \<Rightarrow> ret (Some err)
      | Inr cniArgs \<Rightarrow>
          (case loadConf C (StdinData args) of
             Inl err \<Rightarrow> ret (Some err)
           | Inr (n, result) \<Rightarrow>
               check (ext (rpc_Dial R LocalDaemon))
                 (bnd (rpc_DestroyPod R LocalDaemon
                         \<lparr> pq_name = K8S_POD_NAME cniArgs, pq_kube_ns = K8S_POD_NAMESPACE cniArgs \<rparr>) (\<lambda>r. case r of
                    Inl err \<Rightarrow> halt (Panic ''nil pointer dereference'')
                  | Inr response \<Rightarrow>
                      if \<not> response then ext (PrintResult C result (CNIVersion n))
                      else ret None))))"

definition cmdCheck :: "CmdArgs \<Rightarrow> ('w, error option) go" where
  "cmdCheck args = ret (Some (Errorf ''not implemented''))"

text \<open>The value of \<open>interNodeLinkType\<close>, which starts as \<open>VXLAN\<close>.\<close>

definition SetInterNodeLinkType :: "('w, 'j, 'r) cni \<Rightarrow> string \<Rightarrow> ('w, string) go" where
  "SetInterNodeLinkType C interNodeLinkType =
     bnd (ext (ReadFile C ''/etc/cni/net.d/kubedtn-inter-node-link-type'')) (\<lambda>r. case r of
       Inl err \<Rightarrow> ret interNodeLinkType
     | Inr b \<Rightarrow> ret b)"

text \<open>
  \<open>main\<close>, as the exit status of the process. \<open>skel.PluginMainWithError\<close>, which runs the command the environment
  names, is a parameter; the file of the log is left out.
\<close>

definition plugin_main :: "('w, 'j, 'r) cni \<Rightarrow> 'w rpcs
    \<Rightarrow> ((CmdArgs \<Rightarrow> ('w, error option) go) \<Rightarrow> (CmdArgs \<Rightarrow> ('w, error option) go) \<Rightarrow> (CmdArgs \<Rightarrow> ('w, error option) go)
        \<Rightarrow> ('w, error option) go) \<Rightarrow> ('w, nat) go" where
  "plugin_main C R PluginMainWithError =
     bnd (SetInterNodeLinkType C ''VXLAN'') (\<lambda>interNodeLinkType.
     bnd (PluginMainWithError (cmdAdd C R) cmdCheck (cmdDel C R)) (\<lambda>e.
     ret (if e \<noteq> None then 1 else 0)))"

lemma plugin_main_status:
  assumes "plugin_main C R P w = (Done status, w')"
  shows "\<exists>w1 e. P (cmdAdd C R) cmdCheck (cmdDel C R) w1 = (Done e, w') \<and> status = (if e = None then 0 else 1)"
proof -
  obtain w1 e where "P (cmdAdd C R) cmdCheck (cmdDel C R) w1 = (Done e, w')" "status = (if e \<noteq> None then 1 else 0)"
    using assms by (auto simp: plugin_main_def ret_run elim!: bnd_cases)
  then show ?thesis by (intro exI [of _ w1] exI [of _ e]) simp
qed

section \<open>The plugin and the daemon together\<close>

text \<open>
  The plugin on a node: its world is the daemon of the node and what the plugin wrote, the results
  with their versions. \<open>types.PrintResult\<close> writes a result as JSON of the given version, or returns the
  error of the conversion or of the output; it does not concern the daemon.
\<close>

type_synonym ('w, 'r) node = "'w daemon \<times> ('r \<times> string) list"

definition on_daemon :: "('w daemon, 'a) go \<Rightarrow> (('w, 'r) node, 'a) go" where
  "on_daemon m = zoom fst (\<lambda>d (_, out). (d, out)) m"

definition total_on_daemon :: "('w daemon \<Rightarrow> 'a \<times> 'w daemon) \<Rightarrow> ('w, 'r) node \<Rightarrow> 'a \<times> ('w, 'r) node" where
  "total_on_daemon f = (\<lambda>(d, out). case f d of (a, d') \<Rightarrow> (a, (d', out)))"

definition node_rpcs :: "'w env \<Rightarrow> 'w retry \<Rightarrow> (('w, 'r) node) rpcs" where
  "node_rpcs E retry =
     \<lparr> rpc_Dial = (\<lambda>u. total_on_daemon (rpc_Dial (daemon_rpcs E retry) u)),
       rpc_AddLinks = (\<lambda>u q. total_on_daemon (rpc_AddLinks (daemon_rpcs E retry) u q)),
       rpc_DelLinks = (\<lambda>u q. total_on_daemon (rpc_DelLinks (daemon_rpcs E retry) u q)),
       rpc_UpdateLinks = (\<lambda>u q. total_on_daemon (rpc_UpdateLinks (daemon_rpcs E retry) u q)),
       rpc_SetupPod = (\<lambda>u q. on_daemon (rpc_SetupPod (daemon_rpcs E retry) u q)),
       rpc_DestroyPod = (\<lambda>u q. on_daemon (rpc_DestroyPod (daemon_rpcs E retry) u q)) \<rparr>"

definition prints :: "(('w, 'r) node, 'j, 'r) cni \<Rightarrow> bool" where
  "prints C \<longleftrightarrow> (\<forall>r v d out. case PrintResult C r v (d, out) of
      (None, x) \<Rightarrow> x = (d, out @ [(r, v)])
    | (Some e, (d', out')) \<Rightarrow> d' = d)"

lemmas node_simps = node_rpcs_def daemon_rpcs_def on_daemon_def total_on_daemon_def

lemma dial_node: "rpc_Dial (node_rpcs E retry) u x = (None, x)"
  by (cases x) (simp add: node_simps)

lemma setup_node: "rpc_SetupPod (node_rpcs E retry) u q (d, out) = (case await (SetupPod E retry q) d of (a, d') \<Rightarrow> (a, (d', out)))"
  by (simp add: node_simps zoom_run split: prod.splits)

lemma destroy_node:
  "rpc_DestroyPod (node_rpcs E retry) u q (d, out) = (case await (DestroyPod E retry q) d of (a, d') \<Rightarrow> (a, (d', out)))"
  by (simp add: node_simps zoom_run split: prod.splits)

text \<open>
  The result the previous plugin of the chain left in the configuration: an empty one if there is none.
\<close>

inductive previous_result :: "('w, 'j, 'r) cni \<Rightarrow> string \<Rightarrow> 'j NetConf \<Rightarrow> 'r \<Rightarrow> bool" for C bytes where
  first: "Unmarshal C bytes = Inr n \<Longrightarrow> RawPrevResult n = None \<Longrightarrow> previous_result C bytes n (empty_Result C)"
| chained: "Unmarshal C bytes = Inr n \<Longrightarrow> RawPrevResult n = Some json \<Longrightarrow> ParsePrevResult C n = Inr prev \<Longrightarrow>
    NewResultFromResult C prev = Inr result \<Longrightarrow> previous_result C bytes n result"

lemma loadConf_previous: "loadConf C bytes = Inr (n, result) \<longleftrightarrow> previous_result C bytes n result"
  by (auto simp: loadConf_def previous_result.simps split: sum.splits if_splits)

text \<open>The daemon reports success exactly if it reports no error.\<close>

lemma SetAlive_response: "SetAlive E retry pod d = (Done (response, err), d') \<Longrightarrow> response \<longleftrightarrow> err = None"
  unfolding SetAlive_def Let_def by (auto simp: ret_run split: option.splits elim!: bnd_cases)

lemma SetupPod_response: "SetupPod E retry q d = (Done (response, err), d') \<Longrightarrow> response \<longleftrightarrow> err = None"
  unfolding SetupPod_def Let_def
  by (auto simp: ret_run split: sum.splits if_splits elim!: bnd_cases dest!: SetAlive_response add_batch.handler_cases)

text \<open>With no mutex held, a call of the plugin is answered.\<close>

lemma SetupPod_answers:
  assumes "retry_ok retry" "held (linkMutexes d) = {}" "SetupPod E retry q d = (Abort x, d')"
  shows "\<exists>t. x = Panic t"
  using lockingD [OF locks_ok_SetupPod [OF assms(1), unfolded locks_ok_def, rule_format] assms(2,3)] by simp

lemma DestroyPod_answers:
  assumes "retry_ok retry" "held (linkMutexes d) = {}" "DestroyPod E retry q d = (Abort x, d')"
  shows "\<exists>t. x = Panic t"
  using lockingD [OF locks_ok_DestroyPod [OF assms(1), unfolded locks_ok_def, rule_format] assms(2,3)] by simp

lemma await_SetupPod:
  assumes "retry_ok retry" "held (linkMutexes d) = {}" "SetupPod E retry q d = (r, d')"
  shows "\<exists>a. await (SetupPod E retry q) d = (Done a, d') \<and> (if r = Done (True, None) then a = Inr True else \<exists>e. a = Inl e)"
proof (cases r)
  case (Done x)
  obtain response err where "x = (response, err)" by fastforce
  with Done assms(3) SetupPod_response [of E retry q d response err d'] show ?thesis
    by (cases err) (auto simp: await_def)
next
  case (Abort x)
  with SetupPod_answers [OF assms(1,2)] assms(3) obtain t where "x = Panic t" by blast
  with Abort assms(3) show ?thesis by (simp add: await_def)
qed

text \<open>
  C9: On a node whose daemon has no mutex held, \<open>cmdAdd\<close> always returns. If the configuration and the
  arguments parse, the daemon sets up the pod they name. If it reports success, \<open>cmdAdd\<close> writes, once, the
  result of the previous plugin in the version of the configuration, and returns the error of that
  output, if any; so it returns no error exactly if the pod is set up and the result is written. If the
  daemon reports an error, so does \<open>cmdAdd\<close>, and writes nothing. A configuration or arguments that do
  not parse are an error and leave the daemon alone.
\<close>

theorem cmdAdd_on_node:
  assumes "prints C" and "retry_ok retry" and "held (linkMutexes d) = {}"
  shows "\<exists>err d' out'. cmdAdd C (node_rpcs E retry) args (d, out) = (Done err, (d', out'))
    \<and> (\<forall>n result a. previous_result C (StdinData args) n result \<and> LoadArgs C (Args args) = Inr a \<longrightarrow>
         (\<exists>r. SetupPod E retry \<lparr> spq_name = K8S_POD_NAME a, spq_kube_ns = K8S_POD_NAMESPACE a, spq_net_ns = Netns args \<rparr> d = (r, d')
            \<and> (if r = Done (True, None)
               then err = fst (PrintResult C result (CNIVersion n) (d', out)) \<and> (err = None \<longrightarrow> out' = out @ [(result, CNIVersion n)])
               else err \<noteq> None \<and> out' = out)))
    \<and> ((\<nexists>n result a. previous_result C (StdinData args) n result \<and> LoadArgs C (Args args) = Inr a) \<longrightarrow>
         err \<noteq> None \<and> d' = d \<and> out' = out)"
proof (cases "\<exists>n result a. loadConf C (StdinData args) = Inr (n, result) \<and> LoadArgs C (Args args) = Inr a")
  case False
  then have "\<exists>e. cmdAdd C (node_rpcs E retry) args (d, out) = (Done (Some e), (d, out))"
    by (auto simp: cmdAdd_def ret_run split: sum.splits)
  with False show ?thesis by (auto simp: loadConf_previous [symmetric])
next
  case True
  then obtain n result a where conf: "loadConf C (StdinData args) = Inr (n, result)" "LoadArgs C (Args args) = Inr a" by blast
  let ?q = "\<lparr> spq_name = K8S_POD_NAME a, spq_kube_ns = K8S_POD_NAMESPACE a, spq_net_ns = Netns args \<rparr>"
  obtain r d' where run: "SetupPod E retry ?q d = (r, d')" by fastforce
  obtain x where x: "await (SetupPod E retry ?q) d = (Done x, d')" "if r = Done (True, None) then x = Inr True else \<exists>e. x = Inl e"
    using await_SetupPod [OF assms(2,3) run] by blast
  obtain e d2 out2 where print: "PrintResult C result (CNIVersion n) (d', out) = (e, (d2, out2))" by (metis prod.collapse)
  then have out: "d2 = d'" "e = None \<longrightarrow> out2 = out @ [(result, CNIVersion n)]"
    using assms(1) unfolding prints_def by (auto split: option.splits dest!: spec [of _ result] spec [of _ "CNIVersion n"] spec [of _ d'] spec [of _ out])
  have go: "cmdAdd C (node_rpcs E retry) args (d, out) =
    (case x of Inl err \<Rightarrow> (Done (Some err), (d', out)) | Inr response \<Rightarrow> if \<not> response then (Done None, (d', out)) else (Done e, (d2, out2)))"
    using conf x(1) print
    by (auto simp: cmdAdd_def check_def bnd_ext dial_node bnd_def [of "rpc_SetupPod _ _ _"] setup_node ext_run ret_run split: sum.splits)
  show ?thesis
  proof (cases "r = Done (True, None)")
    case True
    with x(2) have "x = Inr True" by simp
    with go True conf run out print show ?thesis by (auto simp: loadConf_previous [symmetric])
  next
    case False
    with x(2) obtain err where "x = Inl err" by auto
    with go False conf run show ?thesis by (auto simp: loadConf_previous [symmetric])
  qed
qed

lemma DestroyPod_wired:
  assumes "removal_once (net E)" "GetWiresByPod (order E) (pq_kube_ns q) (pq_name q) (wire_state d) \<noteq> []"
  shows "\<not> (\<exists>response d'. DestroyPod E retry q d = (Done (response, None), d'))"
proof -
  let ?d = "d\<lparr> topologyManager := TopologyManager_Delete (pq_name q) (pq_kube_ns q) (topologyManager d) \<rparr>"
  let ?m = "RemGRPCWire (net E) (errlist E) (order E) (destroy_wire q)"
  obtain r st where run: "?m (world d, wire_state d) = (r, st)" by (metis prod.collapse)
  have "(\<exists>e. r = Done (False, Some e)) \<or> (\<exists>x. r = Abort x)"
    by (rule RemGRPCWire_fails [OF assms(1) _ run]) (simp add: destroy_wire_def assms(2))
  moreover have "wired ?m ?d = (r, (case st of (w, x) \<Rightarrow> ?d\<lparr> world := w, wire_state := x \<rparr>))"
    using run by (simp add: wired_def zoom_run split: prod.splits)
  ultimately show ?thesis by (auto simp: DestroyPod_def bnd_modify ret_run)
qed

text \<open>The daemon answers \<open>False\<close> without an error exactly if it cannot read the topology of the pod.\<close>

lemma DestroyPod_unknown:
  assumes "DestroyPod E retry q d = (Done (response, None), d')"
  shows "\<exists>d1 x d2. wired (RemGRPCWire (net E) (errlist E) (order E) (destroy_wire q))
      (d\<lparr> topologyManager := TopologyManager_Delete (pq_name q) (pq_kube_ns q) (topologyManager d) \<rparr>) = (Done (True, None), d1)
    \<and> Get E q d1 = (Done x, d2) \<and> (response \<longleftrightarrow> (\<exists>pod. x = Inr pod))"
  using assms unfolding DestroyPod_def Let_def bnd_modify
  by (auto simp: ret_run split: sum.splits if_splits option.splits elim!: bnd_cases dest!: del_batch.handler_cases)

lemma await_DestroyPod:
  assumes "retry_ok retry" "held (linkMutexes d) = {}" "DestroyPod E retry q d = (r, d')"
  shows "await (DestroyPod E retry q) d =
    (Done (case r of Done (response, None) \<Rightarrow> Inr response | Done (response, Some e) \<Rightarrow> Inl e
       | Abort x \<Rightarrow> Inl (ExtError ''transport is closing'')), d')"
proof (cases r)
  case (Done x)
  with assms(3) show ?thesis by (cases x) (auto simp: await_def split: option.splits)
next
  case (Abort x)
  with DestroyPod_answers [OF assms(1,2)] assms(3) obtain t where "x = Panic t" by blast
  with Abort assms(3) show ?thesis by (simp add: await_def)
qed


section \<open>Witnesses\<close>

text \<open>An output that fails for a version that is not known.\<close>

definition print_result :: "'r \<Rightarrow> string \<Rightarrow> ('w, 'r) node \<Rightarrow> error option \<times> ('w, 'r) node" where
  "print_result result version = (\<lambda>(d, out).
     if version = [] then (Some (Errorf ''unsupported CNI result version''), (d, out))
     else (None, (d, out @ [(result, version)])))"

definition demo_cni :: "((unit, string) node, string, string) cni" where
  "demo_cni =
     \<lparr> Unmarshal = (\<lambda>b. Inr \<lparr> CNIVersion = ''0.3.0'', RawPrevResult = Some b \<rparr>),
       ParsePrevResult = (\<lambda>n. Inr (the (RawPrevResult n))),
       NewResultFromResult = Inr,
       empty_Result = [],
       LoadArgs = (\<lambda>s. Inr \<lparr> K8S_POD_NAME = ''r1'', K8S_POD_NAMESPACE = ''default'' \<rparr>),
       PrintResult = print_result,
       ReadFile = (\<lambda>p w. (Inl NotFound, w)) \<rparr>"

definition demo_args :: CmdArgs where
  "demo_args = \<lparr> StdinData = ''prev'', Args = [], Netns = ''/run/netns/a'' \<rparr>"

definition empty_cluster :: "unit env" where
  "empty_cluster = quiet_env\<lparr> rest := (rest quiet_env)\<lparr> rest_Topology := (\<lambda>q w. (Inl NotFound, w)) \<rparr> \<rparr>"

lemma demo_getPod_none: "getPod empty_cluster n ns (demo_daemon ()) = (Done (Inl NotFound), demo_daemon ())"
  by (simp add: getPod_def GetByKey_def empty_cluster_def quiet_env_def hosted_def zoom_run bnd_def ext_run ret_run
      demo_daemon_def Topology_Get_def Let_def)

lemma demo_prints: "prints demo_cni"
  by (simp add: prints_def demo_cni_def print_result_def)

lemma demo_previous: "previous_result demo_cni (StdinData demo_args) \<lparr> CNIVersion = ''0.3.0'', RawPrevResult = Some ''prev'' \<rparr> ''prev''"
  by (auto simp: previous_result.simps demo_cni_def demo_args_def)

lemma demo_LoadArgs: "LoadArgs demo_cni (Args demo_args) = Inr \<lparr> K8S_POD_NAME = ''r1'', K8S_POD_NAMESPACE = ''default'' \<rparr>"
  by (simp add: demo_cni_def)

lemma demo_unlocked: "held (linkMutexes (demo_daemon ())) = {}"
  by (simp add: demo_daemon_def held_def)

theorem cmdAdd_on_node_witness:
  "\<exists>d. cmdAdd demo_cni (node_rpcs empty_cluster (\<lambda>f. f)) demo_args (demo_daemon (), []) =
      (Done None, (d, [(''prev'', ''0.3.0'')]))"
proof -
  have "SetupPod empty_cluster (\<lambda>f. f) q (demo_daemon ()) = (Done (True, None), demo_daemon ())" for q
    by (simp add: SetupPod_def Get_def demo_getPod_none ret_run)
  moreover have "fst (PrintResult demo_cni ''prev'' ''0.3.0'' (d, [])) = None" for d
    by (simp add: demo_cni_def print_result_def)
  ultimately show ?thesis
    using cmdAdd_on_node [OF demo_prints retry_ok_once demo_unlocked, of empty_cluster demo_args "[]"] demo_previous demo_LoadArgs
    by fastforce
qed


end
