(* ===== verification/Controller.thy ===== *)
theory Controller
  imports Utils Clientset
begin

text \<open>
  \<open>controllers/topology_controller.go\<close>: the reconciler. It compares the links of a topology's status,
  the ones it believes to be set up, with those of its specification and asks the daemon of the pod's
  node to delete, add and update links; then it copies the specification into the status.

  The Kubernetes client, the calls to daemons and the retry helper are the parameter \<open>'w cluster\<close>.
\<close>

section \<open>Comparing links\<close>

definition EqualWithoutProperties :: "Link \<Rightarrow> Link \<Rightarrow> bool" where
  "EqualWithoutProperties a b \<longleftrightarrow>
     LocalIntf a = LocalIntf b \<and>
     LocalIP a = LocalIP b \<and>
     LocalMAC a = LocalMAC b \<and>
     PeerIntf a = PeerIntf b \<and>
     PeerIP a = PeerIP b \<and>
     PeerMAC a = PeerMAC b \<and>
     PeerPod a = PeerPod b \<and>
     UID a = UID b"

text \<open>The inner loop over the new links: the first one equal to the old link ends it.\<close>

fun find_new :: "Link \<Rightarrow> Link list \<Rightarrow> Link option" where
  "find_new oldLink [] = None"
| "find_new oldLink (newLink # new) =
     (if EqualWithoutProperties oldLink newLink then Some newLink else find_new oldLink new)"

fun diff_old :: "Link list \<Rightarrow> Link list \<Rightarrow> Link list \<Rightarrow> Link list \<Rightarrow> Link list \<times> Link list" where
  "diff_old [] new del propertiesChanged = (del, propertiesChanged)"
| "diff_old (oldLink # old) new del propertiesChanged =
     (case find_new oldLink new of
        Some newLink \<Rightarrow>
          diff_old old new del
            (if Properties oldLink \<noteq> Properties newLink then propertiesChanged @ [newLink] else propertiesChanged)
      | None \<Rightarrow> diff_old old new (del @ [oldLink]) propertiesChanged)"

fun found_old :: "Link \<Rightarrow> Link list \<Rightarrow> bool" where
  "found_old newLink [] = False"
| "found_old newLink (oldLink # old) =
     (if EqualWithoutProperties oldLink newLink then True else found_old newLink old)"

fun diff_new :: "Link list \<Rightarrow> Link list \<Rightarrow> Link list \<Rightarrow> Link list" where
  "diff_new [] old add = add"
| "diff_new (newLink # new) old add =
     (if found_old newLink old then diff_new new old add else diff_new new old (add @ [newLink]))"

text \<open>The links to add, to delete and to update.\<close>

definition CalcDiff :: "Link list \<Rightarrow> Link list \<Rightarrow> Link list \<times> Link list \<times> Link list" where
  "CalcDiff old new =
     (case diff_old old new [] [] of (del, propertiesChanged) \<Rightarrow> (diff_new new old [], del, propertiesChanged))"

section \<open>Calls to daemons\<close>

record 'w cluster =
  cl_Get :: "string \<times> string \<Rightarrow> 'w \<Rightarrow> (error + Topology) \<times> 'w"
  cl_StatusUpdate :: "Topology \<Rightarrow> 'w \<Rightarrow> error option \<times> 'w"
  cl_rpc :: "'w rpcs"
  cl_retry :: "('w, error option) go \<Rightarrow> ('w, error option) go"

definition ConnectDaemon :: "'w cluster \<Rightarrow> string \<Rightarrow> ('w, error option) go" where
  "ConnectDaemon K ip = ext (rpc_Dial (cl_rpc K) (daemon_url ip))"

text \<open>The value \<open>make\<close> fills the slice with before the loop of \<open>Map\<close> overwrites every element.\<close>

definition zero_pb_Link :: pb_Link where
  "zero_pb_Link =
     \<lparr> pb_peer_pod = [], pb_local_intf = [], pb_peer_intf = [], pb_local_ip = [], pb_peer_ip = [],
       pb_local_mac = [], pb_peer_mac = [], pb_uid = 0, pb_properties = None \<rparr>"

definition batch_pod :: "Topology \<Rightarrow> pb_Pod" where
  "batch_pod topology =
     \<lparr> pod_name = Name topology,
       pod_src_ip = SrcIP (Status topology),
       pod_net_ns = NetNs (Status topology),
       pod_kube_ns = Namespace topology,
       pod_links = [] \<rparr>"

definition batch_query :: "Topology \<Rightarrow> Link list \<Rightarrow> pb_LinksBatchQuery" where
  "batch_query topology links =
     \<lparr> lbq_local_pod = Some (batch_pod topology),
       lbq_links = Map zero_pb_Link links Link_ToProto \<rparr>"

text \<open>\<open>if err != nil || !result.GetResponse() { return err }\<close>\<close>

definition rpc_error :: "error + bool \<Rightarrow> error option" where
  "rpc_error r = (case r of Inl err \<Rightarrow> Some err | Inr response \<Rightarrow> None)"

definition Reconciler_AddLinks :: "'w cluster \<Rightarrow> Topology \<Rightarrow> Link list \<Rightarrow> ('w, error option) go" where
  "Reconciler_AddLinks K topology links =
     (if length links = 0 then ret None
      else check (ConnectDaemon K (SrcIP (Status topology)))
             (bnd (ext (rpc_AddLinks (cl_rpc K) (daemon_url (SrcIP (Status topology))) (batch_query topology links)))
                (\<lambda>r. ret (rpc_error r))))"

definition Reconciler_DelLinks :: "'w cluster \<Rightarrow> Topology \<Rightarrow> Link list \<Rightarrow> ('w, error option) go" where
  "Reconciler_DelLinks K topology links =
     (if length links = 0 then ret None
      else check (ConnectDaemon K (SrcIP (Status topology)))
             (bnd (ext (rpc_DelLinks (cl_rpc K) (daemon_url (SrcIP (Status topology))) (batch_query topology links)))
                (\<lambda>r. ret (rpc_error r))))"

definition Reconciler_UpdateLinks :: "'w cluster \<Rightarrow> Topology \<Rightarrow> Link list \<Rightarrow> ('w, error option) go" where
  "Reconciler_UpdateLinks K topology links =
     (if length links = 0 then ret None
      else check (ConnectDaemon K (SrcIP (Status topology)))
             (bnd (ext (rpc_UpdateLinks (cl_rpc K) (daemon_url (SrcIP (Status topology))) (batch_query topology links)))
                (\<lambda>r. ret (rpc_error r))))"

section \<open>Reconciling\<close>

definition IgnoreNotFound :: "error \<Rightarrow> error option" where
  "IgnoreNotFound err = (if err = NotFound then None else Some err)"

definition copy_status :: "'w cluster \<Rightarrow> string \<times> string \<Rightarrow> ('w, error option) go" where
  "copy_status K req =
     bnd (ext (cl_Get K req)) (\<lambda>r. case r of
       Inl err \<Rightarrow> ret (IgnoreNotFound err)
     | Inr topology \<Rightarrow>
         ext (cl_StatusUpdate K (topology\<lparr> Status := (Status topology)
           \<lparr> StatusLinks := SpecLinks (Spec topology) \<rparr> \<rparr>)))"

definition apply_changes :: "'w cluster \<Rightarrow> Topology \<Rightarrow> ('w, error option) go" where
  "apply_changes K topology =
     (case StatusLinks (Status topology) of
        None \<Rightarrow> ret None
      | Some old \<Rightarrow>
          (case CalcDiff old (items (SpecLinks (Spec topology))) of (add, del, propertiesChanged) \<Rightarrow>
             check (Reconciler_DelLinks K topology del)
               (check (Reconciler_AddLinks K topology add)
                  (Reconciler_UpdateLinks K topology propertiesChanged))))"

definition Reconcile :: "'w cluster \<Rightarrow> string \<times> string \<Rightarrow> ('w, error option) go" where
  "Reconcile K req =
     bnd (ext (cl_Get K req)) (\<lambda>r. case r of
       Inl err \<Rightarrow> ret (IgnoreNotFound err)
     | Inr topology \<Rightarrow>
         if StatusLinks (Status topology) = SpecLinks (Spec topology) then ret None
         else check (apply_changes K topology) (cl_retry K (copy_status K req)))"

section \<open>The difference of two lists up to an equivalence\<close>

definition added :: "('a \<Rightarrow> 'a \<Rightarrow> bool) \<Rightarrow> 'a list \<Rightarrow> 'a list \<Rightarrow> 'a list" where
  "added eqv old new = filter (\<lambda>n. \<not> list_ex (\<lambda>x. eqv x n) old) new"

definition deleted :: "('a \<Rightarrow> 'a \<Rightarrow> bool) \<Rightarrow> 'a list \<Rightarrow> 'a list \<Rightarrow> 'a list" where
  "deleted eqv old new = filter (\<lambda>x. find (eqv x) new = None) old"

definition changed :: "('a \<Rightarrow> 'a \<Rightarrow> bool) \<Rightarrow> ('a \<Rightarrow> 'p) \<Rightarrow> 'a list \<Rightarrow> 'a list \<Rightarrow> 'a list" where
  "changed eqv props old new =
     concat (map (\<lambda>x. case find (eqv x) new of
       Some n \<Rightarrow> if props x \<noteq> props n then [n] else [] | None \<Rightarrow> []) old)"

text \<open>Carrying out a difference on a list: delete, replace by the changed item of the same key, add.\<close>

definition patch :: "('a \<Rightarrow> 'a \<Rightarrow> bool) \<Rightarrow> 'a list \<Rightarrow> 'a list \<Rightarrow> 'a list \<Rightarrow> 'a list \<Rightarrow> 'a list" where
  "patch eqv add del upd old =
     map (\<lambda>x. case find (eqv x) upd of Some n \<Rightarrow> n | None \<Rightarrow> x) (filter (\<lambda>x. x \<notin> set del) old) @ add"

lemma find_SomeD: "find P xs = Some y \<Longrightarrow> y \<in> set xs \<and> P y"
  by (auto simp: find_Some_iff)

text \<open>
  The contract \<open>CalcDiff\<close> relies on: comparing links without their properties is an equivalence, and
  together with equal properties it is equality.
\<close>

locale keyed_items =
  fixes eqv :: "'a \<Rightarrow> 'a \<Rightarrow> bool"
    and props :: "'a \<Rightarrow> 'p"
  assumes eqv_refl: "eqv a a"
    and eqv_sym: "eqv a b \<Longrightarrow> eqv b a"
    and eqv_trans: "eqv a b \<Longrightarrow> eqv b c \<Longrightarrow> eqv a c"
    and eqv_props: "eqv a b \<Longrightarrow> props a = props b \<Longrightarrow> a = b"
begin

lemma find_unique:
  assumes "\<And>a b. a \<in> set new \<Longrightarrow> b \<in> set new \<Longrightarrow> eqv a b \<Longrightarrow> a = b" "n \<in> set new" "eqv x n"
  shows "find (eqv x) new = Some n"
proof (cases "find (eqv x) new")
  case None
  with assms(2,3) show ?thesis by (auto simp: find_None_iff)
next
  case (Some m)
  then have "m \<in> set new" "eqv x m" by (auto simp: find_Some_iff)
  then have "m = n" using assms eqv_sym eqv_trans by blast
  with Some show ?thesis by simp
qed

lemma patch_item:
  assumes uniq: "\<And>a b. a \<in> set new \<Longrightarrow> b \<in> set new \<Longrightarrow> eqv a b \<Longrightarrow> a = b"
    and x: "x \<in> set old" "n \<in> set new" "eqv x n"
  shows "(case find (eqv x) (changed eqv props old new) of Some m \<Rightarrow> m | None \<Rightarrow> x) = n"
proof (cases "find (eqv x) (changed eqv props old new)")
  case None
  have "find (eqv x) new = Some n" using uniq x(2,3) by (rule find_unique)
  then have "props x = props n"
    using None x(1,3) by (force simp: find_None_iff changed_def)
  with None x(3) show ?thesis by (simp add: eqv_props)
next
  case (Some m)
  then have m: "m \<in> set (changed eqv props old new)" "eqv x m" by (auto simp: find_Some_iff)
  then have "m \<in> set new"
    by (auto simp: changed_def split: option.splits if_splits dest!: find_SomeD [OF sym])
  then have "m = n" using uniq x m eqv_sym eqv_trans by blast
  with Some show ?thesis by simp
qed

text \<open>If no two new items have the same key, carrying out the difference gives the new items.\<close>

lemma patch_correct:
  assumes uniq: "\<And>a b. a \<in> set new \<Longrightarrow> b \<in> set new \<Longrightarrow> eqv a b \<Longrightarrow> a = b"
  shows "set (patch eqv (added eqv old new) (deleted eqv old new) (changed eqv props old new) old) = set new"
    (is "set ?p = _")
proof (intro set_eqI iffI)
  fix n
  assume "n \<in> set ?p"
  then consider "n \<in> set (added eqv old new)"
    | x where "x \<in> set old" "x \<notin> set (deleted eqv old new)"
        "n = (case find (eqv x) (changed eqv props old new) of Some m \<Rightarrow> m | None \<Rightarrow> x)"
    by (auto simp: patch_def)
  then show "n \<in> set new"
  proof cases
    case 1
    then show ?thesis by (simp add: added_def)
  next
    case 2
    then obtain m where "m \<in> set new" "eqv x m"
      by (auto simp: deleted_def find_Some_iff) (metis nth_mem)
    with 2 patch_item [of new x old m] uniq show ?thesis by simp
  qed
next
  fix n
  assume n: "n \<in> set new"
  show "n \<in> set ?p"
  proof (cases "list_ex (\<lambda>x. eqv x n) old")
    case True
    then obtain x where x: "x \<in> set old" "eqv x n" by (auto simp: list_ex_iff)
    have "x \<notin> set (deleted eqv old new)"
      using find_unique [OF uniq n x(2)] by (simp add: deleted_def)
    moreover have "(case find (eqv x) (changed eqv props old new) of Some m \<Rightarrow> m | None \<Rightarrow> x) = n"
      using uniq x n by (intro patch_item)
    ultimately show ?thesis using x(1) by (force simp: patch_def)
  next
    case False
    with n show ?thesis by (simp add: patch_def added_def)
  qed
qed

end

interpretation link_diff: keyed_items EqualWithoutProperties Properties
  by unfold_locales (auto simp: EqualWithoutProperties_def)

lemma find_new_find: "find_new x new = find (EqualWithoutProperties x) new"
  by (induction new) simp_all

lemma found_old_ex: "found_old n old \<longleftrightarrow> list_ex (\<lambda>x. EqualWithoutProperties x n) old"
  by (induction old) simp_all

lemma diff_new_filter: "diff_new new old acc = acc @ added EqualWithoutProperties old new"
  by (induction new arbitrary: acc) (simp_all add: added_def found_old_ex)

lemma diff_old_filter:
  "diff_old old new d c =
     (d @ deleted EqualWithoutProperties old new, c @ changed EqualWithoutProperties Properties old new)"
  by (induction old arbitrary: d c) (auto simp: deleted_def changed_def find_new_find split: option.splits)

lemma CalcDiff_eq:
  "CalcDiff old new = (added EqualWithoutProperties old new, deleted EqualWithoutProperties old new,
     changed EqualWithoutProperties Properties old new)"
  by (simp add: CalcDiff_def diff_old_filter diff_new_filter)

text \<open>
  C2: If no two links of the new list differ in their properties only, then deleting the links
  \<open>CalcDiff\<close> says to delete, replacing the ones whose properties changed and adding the ones to add
  turns any old list into one with exactly the links of the new list.
\<close>

theorem CalcDiff_correct:
  assumes "\<forall>a \<in> set new. \<forall>b \<in> set new. EqualWithoutProperties a b \<longrightarrow> a = b"
    and "CalcDiff old new = (add, del, propertiesChanged)"
  shows "set (patch EqualWithoutProperties add del propertiesChanged old) = set new"
  using link_diff.patch_correct [of new old] assms by (auto simp: CalcDiff_eq)

text \<open>
  \<open>CalcDiff\<close> asks for nothing exactly if each link of either list has a counterpart in the other
  with the same fields, and every old link has the properties of the first new link equal to it up to
  properties.
\<close>

theorem CalcDiff_nothing:
  "CalcDiff old new = ([], [], []) \<longleftrightarrow>
     list_all (\<lambda>n. list_ex (\<lambda>x. EqualWithoutProperties x n) old) new
     \<and> list_all (\<lambda>x. find (EqualWithoutProperties x) new = Some x) old"
proof -
  let ?m = "\<lambda>x. find (EqualWithoutProperties x) new"
  have item: "(case ?m x of Some n \<Rightarrow> if Properties x \<noteq> Properties n then [n] else [] | None \<Rightarrow> []) = [] \<and> ?m x \<noteq> None
      \<longleftrightarrow> (\<exists>n. ?m x = Some n \<and> x = n)" for x
  proof (cases "?m x")
    case (Some n)
    then have "EqualWithoutProperties x n" by (simp add: find_SomeD)
    then have "Properties x = Properties n \<longleftrightarrow> x = n" using link_diff.eqv_props by auto
    with Some show ?thesis by simp
  qed simp
  have "changed EqualWithoutProperties Properties old new = [] \<and> deleted EqualWithoutProperties old new = []
      \<longleftrightarrow> (\<forall>x \<in> set old. (case ?m x of Some n \<Rightarrow> if Properties x \<noteq> Properties n then [n] else [] | None \<Rightarrow> []) = []
          \<and> ?m x \<noteq> None)"
    unfolding changed_def deleted_def concat_eq_Nil_conv filter_empty_conv set_map by blast
  also have "\<dots> \<longleftrightarrow> (\<forall>x \<in> set old. \<exists>n. ?m x = Some n \<and> x = n)" by (simp only: item)
  finally show ?thesis by (auto simp: CalcDiff_eq added_def filter_empty_conv list_all_iff)
qed

section \<open>The requests of a reconciliation\<close>

datatype cevent =
    EvDelLinks string pb_LinksBatchQuery "error + bool"
  | EvAddLinks string pb_LinksBatchQuery "error + bool"
  | EvUpdateLinks string pb_LinksBatchQuery "error + bool"
  | EvStatus Topology "error option"

text \<open>A cluster that logs the calls to daemons and the updates of a status.\<close>

definition recording_cluster ::
  "'w cluster \<Rightarrow> (('w \<times> cevent list, error option) go \<Rightarrow> ('w \<times> cevent list, error option) go)
   \<Rightarrow> ('w \<times> cevent list) cluster" where
  "recording_cluster K retry =
     \<lparr> cl_Get = (\<lambda>req. asking (cl_Get K req)),
       cl_StatusUpdate = (\<lambda>t. changing (EvStatus t) (cl_StatusUpdate K t)),
       cl_rpc = \<lparr> rpc_Dial = (\<lambda>u. asking (rpc_Dial (cl_rpc K) u)),
                  rpc_AddLinks = (\<lambda>u q. changing (EvAddLinks u q) (rpc_AddLinks (cl_rpc K) u q)),
                  rpc_DelLinks = (\<lambda>u q. changing (EvDelLinks u q) (rpc_DelLinks (cl_rpc K) u q)),
                  rpc_UpdateLinks = (\<lambda>u q. changing (EvUpdateLinks u q) (rpc_UpdateLinks (cl_rpc K) u q)),
                  rpc_SetupPod = (\<lambda>u q. zoom fst (\<lambda>w (_, l). (w, l)) (rpc_SetupPod (cl_rpc K) u q)),
                  rpc_DestroyPod = (\<lambda>u q. zoom fst (\<lambda>w (_, l). (w, l)) (rpc_DestroyPod (cl_rpc K) u q)) \<rparr>,
       cl_retry = retry \<rparr>"

lemma recording_cluster_sel [simp]:
  "cl_Get (recording_cluster K retry) = (\<lambda>req. asking (cl_Get K req))"
  "cl_StatusUpdate (recording_cluster K retry) = (\<lambda>t. changing (EvStatus t) (cl_StatusUpdate K t))"
  "cl_retry (recording_cluster K retry) = retry"
  "rpc_Dial (cl_rpc (recording_cluster K retry)) = (\<lambda>u. asking (rpc_Dial (cl_rpc K) u))"
  "rpc_AddLinks (cl_rpc (recording_cluster K retry)) = (\<lambda>u q. changing (EvAddLinks u q) (rpc_AddLinks (cl_rpc K) u q))"
  "rpc_DelLinks (cl_rpc (recording_cluster K retry)) = (\<lambda>u q. changing (EvDelLinks u q) (rpc_DelLinks (cl_rpc K) u q))"
  "rpc_UpdateLinks (cl_rpc (recording_cluster K retry)) =
     (\<lambda>u q. changing (EvUpdateLinks u q) (rpc_UpdateLinks (cl_rpc K) u q))"
  by (simp_all add: recording_cluster_def)

text \<open>A call about some links: none for no links, otherwise one that the daemon answered without error.\<close>

definition called :: "(string \<Rightarrow> pb_LinksBatchQuery \<Rightarrow> error + bool \<Rightarrow> cevent) \<Rightarrow> Topology \<Rightarrow> Link list \<Rightarrow> cevent list \<Rightarrow> bool" where
  "called ev t links evs \<longleftrightarrow>
     (if links = [] then evs = []
      else \<exists>b. evs = [ev (daemon_url (SrcIP (Status t))) (batch_query t links) (Inr b)])"

definition is_status :: "cevent \<Rightarrow> bool" where
  "is_status e =
     (case e of EvStatus t _ \<Rightarrow> StatusLinks (Status t) = SpecLinks (Spec t) | _ \<Rightarrow> False)"

lemma call_emits:
  assumes "\<And>r. \<not> is_status (ev u q r)"
  shows "emits (check (ext (asking d)) (bnd (ext (changing (ev u q) f)) (\<lambda>r. ret (rpc_error r))))
    (\<lambda>r evs. \<not> list_ex is_status evs \<and> (\<exists>x. r = Done x) \<and> (r = Done None \<longrightarrow> (\<exists>b. evs = [ev u q (Inr b)])))"
  using assms by (auto intro!: emit_rules simp: rpc_error_def split: sum.splits)

lemma Reconciler_emits:
  "emits (Reconciler_DelLinks (recording_cluster K retry) t links)
    (\<lambda>r evs. \<not> list_ex is_status evs \<and> (\<exists>x. r = Done x) \<and> (r = Done None \<longrightarrow> called EvDelLinks t links evs))"
  "emits (Reconciler_AddLinks (recording_cluster K retry) t links)
    (\<lambda>r evs. \<not> list_ex is_status evs \<and> (\<exists>x. r = Done x) \<and> (r = Done None \<longrightarrow> called EvAddLinks t links evs))"
  "emits (Reconciler_UpdateLinks (recording_cluster K retry) t links)
    (\<lambda>r evs. \<not> list_ex is_status evs \<and> (\<exists>x. r = Done x) \<and> (r = Done None \<longrightarrow> called EvUpdateLinks t links evs))"
  by (auto simp: Reconciler_DelLinks_def Reconciler_AddLinks_def Reconciler_UpdateLinks_def ConnectDaemon_def
      called_def is_status_def intro!: emits_ret emits_mono [OF call_emits])

text \<open>The calls of a reconciliation, in order.\<close>

definition calls :: "Topology \<Rightarrow> Link list \<times> Link list \<times> Link list \<Rightarrow> cevent list \<Rightarrow> bool" where
  "calls t diff evs \<longleftrightarrow>
     (case diff of (add, del, upd) \<Rightarrow> \<exists>a b c. evs = a @ b @ c
        \<and> called EvDelLinks t del a \<and> called EvAddLinks t add b \<and> called EvUpdateLinks t upd c)"

lemma apply_changes_emits:
  assumes "StatusLinks (Status t) = Some old"
  shows "emits (apply_changes (recording_cluster K retry) t)
    (\<lambda>r evs. \<not> list_ex is_status evs \<and> (\<exists>x. r = Done x)
       \<and> (r = Done None \<longrightarrow> calls t (CalcDiff old (items (SpecLinks (Spec t)))) evs))"
proof -
  obtain add del upd where d: "CalcDiff old (items (SpecLinks (Spec t))) = (add, del, upd)" by (metis prod_cases3)
  have rest: "emits (check (Reconciler_AddLinks (recording_cluster K retry) t add)
      (Reconciler_UpdateLinks (recording_cluster K retry) t upd))
    (\<lambda>r evs. \<not> list_ex is_status evs \<and> (\<exists>x. r = Done x)
       \<and> (r = Done None \<longrightarrow> (\<exists>b c. evs = b @ c \<and> called EvAddLinks t add b \<and> called EvUpdateLinks t upd c)))"
    by (rule emits_check [OF Reconciler_emits(2)]) (auto intro!: emits_mono [OF Reconciler_emits(3)])
  show ?thesis
    unfolding apply_changes_def assms option.case d prod.case calls_def
    by (rule emits_check [OF Reconciler_emits(1)]) (auto intro!: emits_mono [OF rest])
qed

lemma emits_retry:
  assumes "retry_ok retry" "emits f (\<lambda>r evs. list_all is_status evs)"
  shows "emits (retry f) (\<lambda>r evs. list_all is_status evs)"
proof -
  obtain n where "retry f = retry_times n f" using assms(1) unfolding retry_ok_def by blast
  moreover have "emits (retry_times n f) (\<lambda>r evs. list_all is_status evs)"
    by (induction n) (auto intro!: assms(2) emits_bnd [OF assms(2)] emits_ret elim: emits_mono)
  ultimately show ?thesis by simp
qed

lemma copy_status_emits: "emits (copy_status (recording_cluster K retry) req) (\<lambda>r evs. list_all is_status evs)"
  unfolding copy_status_def recording_cluster_sel
  by (auto intro!: emit_rules simp: is_status_def split: sum.splits)

lemma Reconcile_calls:
  assumes "retry_ok retry" and "cl_Get K req w = (Inr t, w1)" and "StatusLinks (Status t) = Some old"
    and "StatusLinks (Status t) \<noteq> SpecLinks (Spec t)"
    and "Reconcile (recording_cluster K retry) req (w, []) = (r, (w', evs))"
    and "r = Done None \<or> list_ex is_status evs"
  shows "\<exists>a b. evs = a @ b \<and> calls t (CalcDiff old (items (SpecLinks (Spec t)))) a \<and> list_all is_status b"
proof -
  let ?K = "recording_cluster K retry"
  have run: "check (apply_changes ?K t) (retry (copy_status ?K req)) (w1, []) = (r, (w', evs))"
    using assms(2,4,5) by (simp add: Reconcile_def bnd_ext asking_run)
  have "emits (check (apply_changes ?K t) (retry (copy_status ?K req)))
     (\<lambda>r evs. r = Done None \<or> list_ex is_status evs \<longrightarrow>
        (\<exists>a b. evs = a @ b \<and> calls t (CalcDiff old (items (SpecLinks (Spec t)))) a \<and> list_all is_status b))"
    by (rule emits_check [OF apply_changes_emits [OF assms(3)]])
      (auto intro!: emits_mono [OF emits_retry [OF assms(1) copy_status_emits]])
  from emits_run [OF this run] assms(6) show ?thesis by auto
qed

text \<open>
  C3: If a reconciliation of a topology it has seen before succeeds, or updates a status at all, then it
  first called the daemon of the pod's node to delete, to add and to update exactly the links of the
  difference, in this order, each call made only for a non-empty list and answered without error; after
  that it only wrote statuses whose links are those of the specification.
\<close>

theorem Reconcile_requests:
  assumes "retry_ok retry" and "cl_Get K req w = (Inr t, w1)" and "StatusLinks (Status t) = Some old"
    and "StatusLinks (Status t) \<noteq> SpecLinks (Spec t)"
    and "Reconcile (recording_cluster K retry) req (w, []) = (r, (w', evs))"
    and "r = Done None \<or> list_ex is_status evs"
  shows "\<exists>a b. evs = a @ b \<and> calls t (CalcDiff old (items (SpecLinks (Spec t)))) a \<and> list_all is_status b"
  using assms by (rule Reconcile_calls)

section \<open>A change of the specification during a reconciliation\<close>

text \<open>
  A cluster that holds one topology, counts the reads and changes the specification to \<open>newer\<close> right
  after the first read. Daemons answer every call with success.
\<close>

definition racing :: "Link slice \<Rightarrow> (nat \<times> Topology) cluster" where
  "racing newer =
     \<lparr> cl_Get = (\<lambda>req (n, t). (Inr t, (n + 1, if n = 0 then t\<lparr> Spec := \<lparr> SpecLinks = newer \<rparr> \<rparr> else t))),
       cl_StatusUpdate = (\<lambda>u (n, t). (None, (n, u))),
       cl_rpc = \<lparr> rpc_Dial = (\<lambda>u w. (None, w)),
                  rpc_AddLinks = (\<lambda>u q w. (Inr True, w)), rpc_DelLinks = (\<lambda>u q w. (Inr True, w)),
                  rpc_UpdateLinks = (\<lambda>u q w. (Inr True, w)), rpc_SetupPod = (\<lambda>u q. ret (Inr True)),
                  rpc_DestroyPod = (\<lambda>u q. ret (Inr True)) \<rparr>,
       cl_retry = (\<lambda>f. f) \<rparr>"

lemma racing_calls:
  "\<exists>a. Reconciler_DelLinks (recording_cluster (racing newer) retry) t links (w, l) = (Done None, (w, l @ a)) \<and> called EvDelLinks t links a"
  "\<exists>a. Reconciler_AddLinks (recording_cluster (racing newer) retry) t links (w, l) = (Done None, (w, l @ a)) \<and> called EvAddLinks t links a"
  "\<exists>a. Reconciler_UpdateLinks (recording_cluster (racing newer) retry) t links (w, l) = (Done None, (w, l @ a)) \<and> called EvUpdateLinks t links a"
  by (auto simp: Reconciler_DelLinks_def Reconciler_AddLinks_def Reconciler_UpdateLinks_def ConnectDaemon_def
      check_def bnd_ext asking_run changing_run racing_def rpc_error_def ret_run called_def)

lemma racing_apply:
  assumes "StatusLinks (Status t) = Some old"
  shows "\<exists>a. apply_changes (recording_cluster (racing newer) retry) t (w, l) = (Done None, (w, l @ a))
    \<and> calls t (CalcDiff old (items (SpecLinks (Spec t)))) a"
proof -
  let ?K = "recording_cluster (racing newer) retry"
  obtain add del upd where d: "CalcDiff old (items (SpecLinks (Spec t))) = (add, del, upd)" by (metis prod_cases3)
  obtain a where a: "Reconciler_DelLinks ?K t del (w, l) = (Done None, (w, l @ a))" "called EvDelLinks t del a"
    using racing_calls(1) by blast
  obtain b where b: "Reconciler_AddLinks ?K t add (w, l @ a) = (Done None, (w, (l @ a) @ b))" "called EvAddLinks t add b"
    using racing_calls(2) [where l = "l @ a"] by blast
  obtain c where c: "Reconciler_UpdateLinks ?K t upd (w, (l @ a) @ b) = (Done None, (w, ((l @ a) @ b) @ c))"
    "called EvUpdateLinks t upd c"
    using racing_calls(3) [where l = "(l @ a) @ b"] by blast
  have "apply_changes ?K t (w, l) = (Done None, (w, l @ a @ b @ c))"
    using a b c by (simp add: apply_changes_def assms d)
  with a b c d show ?thesis by (auto simp: calls_def)
qed

lemma racing_reconcile:
  assumes "StatusLinks (Status t) = Some old" "SpecLinks (Spec t) = Some new" "old \<noteq> new"
  shows "\<exists>a. Reconcile (recording_cluster (racing newer) (\<lambda>f. f)) req ((0, t), []) =
      (Done None, ((2, t\<lparr> Spec := \<lparr> SpecLinks = newer \<rparr>, Status := (Status t)\<lparr> StatusLinks := newer \<rparr> \<rparr>),
        a @ [EvStatus (t\<lparr> Spec := \<lparr> SpecLinks = newer \<rparr>, Status := (Status t)\<lparr> StatusLinks := newer \<rparr> \<rparr>) None]))
    \<and> calls t (CalcDiff old new) a"
proof -
  let ?K = "recording_cluster (racing newer) (\<lambda>f. f)" and ?t1 = "t\<lparr> Spec := \<lparr> SpecLinks = newer \<rparr> \<rparr>"
  let ?t2 = "?t1\<lparr> Status := (Status ?t1)\<lparr> StatusLinks := newer \<rparr> \<rparr>"
  obtain a where a: "apply_changes ?K t ((1, ?t1), []) = (Done None, ((1, ?t1), [] @ a))" "calls t (CalcDiff old new) a"
    using racing_apply [OF assms(1), of newer "\<lambda>f. f" "(1, ?t1)" "[]"] assms(2) by auto
  have "Reconcile ?K req ((0, t), []) = (Done None, ((2, ?t2), a @ [EvStatus ?t2 None]))"
    using a(1) assms
    by (simp add: Reconcile_def bnd_ext asking_run racing_def [THEN arg_cong, of cl_Get] copy_status_def ext_changing)
      (simp add: racing_def ext_run changing_run)
  with a(2) show ?thesis by auto
qed

text \<open>
  C34: If the specification changes between the first read and the copy into the status, the
  reconciliation still succeeds, calls daemons for the difference to the old specification only and
  records the new one as applied, so that the next reconciliation makes no request at all: the change
  never reaches a daemon.
\<close>

theorem Reconcile_lost_update:
  assumes "StatusLinks (Status t) = Some old" and "SpecLinks (Spec t) = Some new" and "old \<noteq> new"
  shows "\<exists>a t' u n. Reconcile (recording_cluster (racing newer) (\<lambda>f. f)) req ((0, t), []) =
      (Done None, ((n, t'), a @ [EvStatus u None]))
    \<and> calls t (CalcDiff old new) a
    \<and> SpecLinks (Spec t') = newer \<and> StatusLinks (Status t') = newer
    \<and> (\<exists>w'. Reconcile (recording_cluster (racing newer) (\<lambda>f. f)) req ((n, t'), []) = (Done None, (w', [])))"
proof -
  let ?t2 = "t\<lparr> Spec := \<lparr> SpecLinks = newer \<rparr>, Status := (Status t)\<lparr> StatusLinks := newer \<rparr> \<rparr>"
  have "\<exists>w'. Reconcile (recording_cluster (racing newer) (\<lambda>f. f)) req ((2, ?t2), []) = (Done None, (w', []))"
    by (simp add: Reconcile_def bnd_ext asking_run ret_run) (simp add: racing_def ret_run)
  moreover obtain a where "Reconcile (recording_cluster (racing newer) (\<lambda>f. f)) req ((0, t), []) =
      (Done None, ((2, ?t2), a @ [EvStatus ?t2 None]))" "calls t (CalcDiff old new) a"
    using racing_reconcile [OF assms] by blast
  ultimately show ?thesis
    by (intro exI [of _ a] exI [of _ ?t2] exI [of _ 2] conjI) auto
qed

section \<open>Witnesses\<close>

definition link_to :: "string \<Rightarrow> int64 \<Rightarrow> string \<Rightarrow> Link" where
  "link_to peer uid latency =
     \<lparr> LocalIntf = ''eth1'', LocalIP = [], LocalMAC = [], PeerIntf = ''eth1'', PeerIP = [], PeerMAC = [],
       PeerPod = peer, UID = uid,
       Properties = \<lparr> Latency = latency, LatencyCorr = [], Jitter = [], Loss = [], LossCorr = [], Rate = [], Gap = 0,
         Duplicate = [], DuplicateCorr = [], ReorderProb = [], ReorderCorr = [], CorruptProb = [], CorruptCorr = [] \<rparr> \<rparr>"

theorem CalcDiff_correct_witness:
  "set (patch EqualWithoutProperties [link_to ''r4'' 4 []] [link_to ''r2'' 2 []] [link_to ''r3'' 3 ''10ms'']
      [link_to ''r2'' 2 [], link_to ''r3'' 3 []])
    = set [link_to ''r3'' 3 ''10ms'', link_to ''r4'' 4 []]"
proof (rule CalcDiff_correct)
  show "CalcDiff [link_to ''r2'' 2 [], link_to ''r3'' 3 []] [link_to ''r3'' 3 ''10ms'', link_to ''r4'' 4 []]
      = ([link_to ''r4'' 4 []], [link_to ''r2'' 2 []], [link_to ''r3'' 3 ''10ms''])"
    by (simp add: CalcDiff_def EqualWithoutProperties_def link_to_def)
qed (simp add: EqualWithoutProperties_def link_to_def)

definition topology_with :: "Link list \<Rightarrow> Link list \<Rightarrow> Topology" where
  "topology_with old new =
     \<lparr> Name = ''r1'', Namespace = ''default'', Finalizers = [], ResourceVersion = ''1'',
       Spec = \<lparr> SpecLinks = Some new \<rparr>,
       Status = \<lparr> Skipped = None, SrcIP = ''10.0.0.1'', NetNs = ''/run/netns/a'', StatusLinks = Some old \<rparr> \<rparr>"

theorem Reconcile_lost_update_witness:
  "\<exists>a t' u n. Reconcile (recording_cluster (racing (Some [link_to ''r2'' 2 [], link_to ''r3'' 3 []])) (\<lambda>f. f)) (''default'', ''r1'')
      ((0, topology_with [] [link_to ''r2'' 2 []]), []) = (Done None, ((n, t'), a @ [EvStatus u None]))
    \<and> StatusLinks (Status t') = Some [link_to ''r2'' 2 [], link_to ''r3'' 3 []]"
  using Reconcile_lost_update [of "topology_with [] [link_to ''r2'' 2 []]" "[]" "[link_to ''r2'' 2 []]"
      "Some [link_to ''r2'' 2 [], link_to ''r3'' 3 []]" "(''default'', ''r1'')"]
  by (auto simp: topology_with_def)

theorem Reconcile_requests_witness:
  "\<exists>w' evs a b. Reconcile (recording_cluster (racing (Some [link_to ''r2'' 2 []])) (\<lambda>f. f)) (''default'', ''r1'')
      ((0, topology_with [] [link_to ''r2'' 2 []]), []) = (Done None, (w', evs))
    \<and> evs = a @ b \<and> called EvAddLinks (topology_with [] [link_to ''r2'' 2 []]) [link_to ''r2'' 2 []] a"
proof -
  let ?t = "topology_with [] [link_to ''r2'' 2 []]" and ?new = "Some [link_to ''r2'' 2 []]"
  let ?K = "recording_cluster (racing ?new) (\<lambda>f. f)"
  obtain w' evs where run: "Reconcile ?K (''default'', ''r1'') ((0, ?t), []) = (Done None, (w', evs))"
    using racing_reconcile [of ?t "[]" "[link_to ''r2'' 2 []]" ?new "(''default'', ''r1'')"]
    by (auto simp: topology_with_def)
  have g: "cl_Get (racing ?new) (''default'', ''r1'') (0, ?t) = (Inr ?t, (1, ?t\<lparr> Spec := \<lparr> SpecLinks = ?new \<rparr> \<rparr>))"
    by (simp add: racing_def)
  have st: "StatusLinks (Status ?t) = Some []" "StatusLinks (Status ?t) \<noteq> SpecLinks (Spec ?t)"
    "items (SpecLinks (Spec ?t)) = [link_to ''r2'' 2 []]"
    by (simp_all add: topology_with_def)
  have d: "CalcDiff [] [link_to ''r2'' 2 []] = ([link_to ''r2'' 2 []], [], [])" by (simp add: CalcDiff_def)
  obtain a b where "evs = a @ b" "calls ?t ([link_to ''r2'' 2 []], [], []) a"
    using Reconcile_requests [OF retry_ok_once g st(1,2) run] st(3) d by auto
  then show ?thesis
    using run by (auto simp: calls_def called_def [of EvDelLinks] called_def [of EvUpdateLinks])
qed

end
