(* ===== verification/Converge.thy ===== *)
theory Converge
  imports Controller
begin

text \<open>
  What the controller makes of the network of a pod. A network maps each link, without its properties,
  to the properties it was set up with; the calls in the log of a reconciliation change it.

  The answer of a call does not say what the call did. A failed one has processed some of its links,
  and one perhaps in part; and a successful one need not have processed all: \<open>delLink\<close> ignores a removal
  that fails, and \<open>addLink\<close> leaves a link alone whose peer is not alive yet. So nothing is taken for
  granted but that a call changes only the links it names, and the theorems speak of the links for
  which the calls did what they were asked.
\<close>

section \<open>Networks\<close>

type_synonym network = "pb_Link \<Rightarrow> pb_LinkProperties option option"

definition pb_key :: "pb_Link \<Rightarrow> pb_Link" where
  "pb_key l = l\<lparr> pb_properties := None \<rparr>"

definition put_link :: "pb_Link \<Rightarrow> network \<Rightarrow> network" where
  "put_link l n = n(pb_key l \<mapsto> pb_properties l)"

definition drop_link :: "pb_Link \<Rightarrow> network \<Rightarrow> network" where
  "drop_link l n = n(pb_key l := None)"

definition network_of :: "Link list \<Rightarrow> network" where
  "network_of links = map_of (map (\<lambda>l. (pb_key (Link_ToProto l), pb_properties (Link_ToProto l))) links)"

text \<open>What a call does to the network.\<close>

definition touches_only :: "pb_Link list \<Rightarrow> network \<Rightarrow> network \<Rightarrow> bool" where
  "touches_only ls n n' \<longleftrightarrow> (\<forall>k. k \<notin> pb_key ` set ls \<longrightarrow> n' k = n k)"

fun ev_links :: "cevent \<Rightarrow> pb_Link list" where
  "ev_links (EvDelLinks u q r) = lbq_links q"
| "ev_links (EvAddLinks u q r) = lbq_links q"
| "ev_links (EvUpdateLinks u q r) = lbq_links q"
| "ev_links (EvStatus t r) = []"

text \<open>What a call asks for.\<close>

fun asked :: "cevent \<Rightarrow> network \<Rightarrow> network" where
  "asked (EvDelLinks u q r) n = fold drop_link (lbq_links q) n"
| "asked (EvAddLinks u q r) n = fold put_link (lbq_links q) n"
| "asked (EvUpdateLinks u q r) n = fold put_link (lbq_links q) n"
| "asked (EvStatus t r) n = n"

text \<open>An effect of a call that is as asked for the links of \<open>S\<close>, and anything for its other links.\<close>

definition effect :: "pb_Link set \<Rightarrow> cevent \<Rightarrow> network \<Rightarrow> network \<Rightarrow> bool" where
  "effect S e n n' \<longleftrightarrow> touches_only (ev_links e) n n' \<and> (\<forall>k \<in> S. n' k = asked e n k)"

fun effects :: "pb_Link set \<Rightarrow> cevent list \<Rightarrow> network \<Rightarrow> network \<Rightarrow> bool" where
  "effects S [] n n' \<longleftrightarrow> n' = n"
| "effects S (e # es) n n' \<longleftrightarrow> (\<exists>m. effect S e n m \<and> effects S es m n')"

text \<open>Keys of links.\<close>

lemma pb_key_eq: "pb_key (Link_ToProto a) = pb_key (Link_ToProto b) \<longleftrightarrow> EqualWithoutProperties a b"
  by (auto simp: pb_key_def Link_ToProto_def EqualWithoutProperties_def)

definition unique_keys :: "Link list \<Rightarrow> bool" where
  "unique_keys links \<longleftrightarrow> (\<forall>a \<in> set links. \<forall>b \<in> set links. EqualWithoutProperties a b \<longrightarrow> a = b)"

abbreviation key :: "Link \<Rightarrow> pb_Link" where
  "key l \<equiv> pb_key (Link_ToProto l)"

lemma network_of_in: "unique_keys links \<Longrightarrow> l \<in> set links \<Longrightarrow> network_of links (key l) = Some (pb_properties (Link_ToProto l))"
proof (induction links)
  case (Cons a links)
  have IH: "l \<in> set links \<Longrightarrow> network_of links (key l) = Some (pb_properties (Link_ToProto l))"
    using Cons.IH Cons.prems(1) by (simp add: unique_keys_def)
  have cons: "network_of (a # links) (key l) =
      (if key l = key a then Some (pb_properties (Link_ToProto a)) else network_of links (key l))"
    by (simp add: network_of_def)
  show ?case
  proof (cases "key l = key a")
    case True
    then have "l = a" using Cons.prems unfolding unique_keys_def pb_key_eq by auto
    then show ?thesis using cons by simp
  next
    case False
    then show ?thesis using cons IH Cons.prems(2) by auto
  qed
qed simp

lemma network_of_notin: "k \<notin> key ` set links \<Longrightarrow> network_of links k = None"
  by (auto simp: network_of_def map_of_eq_None_iff)

lemma fold_drop: "fold drop_link ls n = (\<lambda>k. if k \<in> pb_key ` set ls then None else n k)"
  by (induction ls arbitrary: n) (auto simp: drop_link_def)

lemma fold_put_notin: "k \<notin> pb_key ` set ls \<Longrightarrow> fold put_link ls n k = n k"
  by (induction ls arbitrary: n) (auto simp: put_link_def)

lemma fold_put_in:
  assumes "\<And>a b. a \<in> set ls \<Longrightarrow> b \<in> set ls \<Longrightarrow> pb_key a = pb_key b \<Longrightarrow> a = b" "l \<in> set ls"
  shows "fold put_link ls n (pb_key l) = Some (pb_properties l)"
  using assms
proof (induction ls arbitrary: n)
  case (Cons a ls)
  show ?case
  proof (cases "l \<in> set ls")
    case True
    then show ?thesis using Cons.IH Cons.prems(1) by simp
  next
    case False
    then have "a = l" using Cons.prems(2) by simp
    moreover have "pb_key l \<notin> pb_key ` set ls"
    proof
      assume "pb_key l \<in> pb_key ` set ls"
      then obtain b where "b \<in> set ls" "pb_key b = pb_key l" by auto
      with Cons.prems(1) [of b l] Cons.prems(2) False show False by auto
    qed
    ultimately have "fold put_link (a # ls) n (pb_key l) = put_link l n (pb_key l)" by (simp add: fold_put_notin)
    also have "\<dots> = Some (pb_properties l)" by (simp add: put_link_def)
    finally show ?thesis .
  qed
qed simp

section \<open>The log of a reconciliation\<close>

text \<open>
  Every reconciliation, successful or not, makes at most one call of each kind, in this order, each for
  its part of the difference, and then writes statuses.
\<close>

definition tried :: "(string \<Rightarrow> pb_LinksBatchQuery \<Rightarrow> error + bool \<Rightarrow> cevent) \<Rightarrow> Link list \<Rightarrow> cevent list \<Rightarrow> bool" where
  "tried ev links evs \<longleftrightarrow> evs = [] \<or> (\<exists>u q r. evs = [ev u q r] \<and> lbq_links q = map Link_ToProto links)"

definition log_of :: "Link list \<times> Link list \<times> Link list \<Rightarrow> cevent list \<Rightarrow> bool" where
  "log_of diff evs \<longleftrightarrow> (case diff of (add, del, upd) \<Rightarrow> \<exists>a b c s. evs = a @ b @ c @ s \<and> tried EvDelLinks del a
     \<and> tried EvAddLinks add b \<and> tried EvUpdateLinks upd c \<and> list_all is_status s)"

lemma batch_links [simp]: "lbq_links (batch_query t links) = map Link_ToProto links"
  by (simp add: batch_query_def Map_map)

lemma Reconciler_tried:
  "emits (Reconciler_DelLinks (recording_cluster K retry) t links) (\<lambda>r evs. tried EvDelLinks links evs)"
  "emits (Reconciler_AddLinks (recording_cluster K retry) t links) (\<lambda>r evs. tried EvAddLinks links evs)"
  "emits (Reconciler_UpdateLinks (recording_cluster K retry) t links) (\<lambda>r evs. tried EvUpdateLinks links evs)"
  by (auto simp: tried_def Reconciler_DelLinks_def Reconciler_AddLinks_def Reconciler_UpdateLinks_def ConnectDaemon_def
      intro!: emit_rules)

lemma tried_none: "tried ev links []"
  by (simp add: tried_def)

lemma apply_changes_log:
  assumes "StatusLinks (Status t) = Some old" "CalcDiff old (items (SpecLinks (Spec t))) = (add, del, upd)"
  shows "emits (apply_changes (recording_cluster K retry) t)
    (\<lambda>r evs. \<exists>a b c. evs = a @ b @ c \<and> tried EvDelLinks del a \<and> tried EvAddLinks add b \<and> tried EvUpdateLinks upd c)"
proof -
  have rest: "emits (check (Reconciler_AddLinks (recording_cluster K retry) t add)
      (Reconciler_UpdateLinks (recording_cluster K retry) t upd))
    (\<lambda>r evs. \<exists>b c. evs = b @ c \<and> tried EvAddLinks add b \<and> tried EvUpdateLinks upd c)"
    by (rule emits_check [OF Reconciler_tried(2)])
      (auto intro!: emits_mono [OF Reconciler_tried(3)] intro: tried_none)
  show ?thesis
    unfolding apply_changes_def assms option.case prod.case
    by (rule emits_check [OF Reconciler_tried(1)])
      (blast intro: emits_mono [OF rest] tried_none append_Nil2 [symmetric])+
qed

lemma log_of_intro:
  "tried EvDelLinks del a \<Longrightarrow> tried EvAddLinks add b \<Longrightarrow> tried EvUpdateLinks upd c \<Longrightarrow> list_all is_status s
    \<Longrightarrow> log_of (add, del, upd) (a @ b @ c @ s)"
  unfolding log_of_def by blast

lemma Reconcile_log:
  assumes "retry_ok retry" "cl_Get K req w = (Inr t, w1)" "StatusLinks (Status t) = Some old"
    and "Reconcile (recording_cluster K retry) req (w, []) = (r, (w', evs))"
  shows "log_of (CalcDiff old (items (SpecLinks (Spec t)))) evs"
proof -
  let ?K = "recording_cluster K retry"
  obtain add del upd where d: "CalcDiff old (items (SpecLinks (Spec t))) = (add, del, upd)" by (metis prod_cases3)
  show ?thesis
  proof (cases "StatusLinks (Status t) = SpecLinks (Spec t)")
    case True
    with assms(2,4) have "evs = []" by (simp add: Reconcile_def bnd_ext asking_run ret_run)
    with d show ?thesis by (auto simp: log_of_def tried_none)
  next
    case False
    have "emits (check (apply_changes ?K t) (retry (copy_status ?K req))) (\<lambda>r evs. log_of (add, del, upd) evs)"
    proof (rule emits_check [OF apply_changes_log [OF assms(3) d]])
      fix evs
      assume "\<exists>a b c. evs = a @ b @ c \<and> tried EvDelLinks del a \<and> tried EvAddLinks add b \<and> tried EvUpdateLinks upd c"
      then show "emits (retry (copy_status ?K req)) (\<lambda>r e. log_of (add, del, upd) (evs @ e))"
        using log_of_intro by (auto intro!: emits_mono [OF emits_retry [OF assms(1) copy_status_emits]])
    qed (use log_of_intro [where s = "[]"] in auto)
    moreover have "check (apply_changes ?K t) (retry (copy_status ?K req)) (w1, []) = (r, (w', evs))"
      using assms(2,4) False by (simp add: Reconcile_def bnd_ext asking_run)
    ultimately show ?thesis using emits_run d by fastforce
  qed
qed

section \<open>Carrying out the difference\<close>

lemma in_added: "x \<in> set (added EqualWithoutProperties old new) \<longleftrightarrow> x \<in> set new \<and> (\<forall>y \<in> set old. \<not> EqualWithoutProperties y x)"
  by (auto simp: added_def list_ex_iff)

lemma in_deleted: "y \<in> set (deleted EqualWithoutProperties old new) \<longleftrightarrow> y \<in> set old \<and> (\<forall>x \<in> set new. \<not> EqualWithoutProperties y x)"
  by (auto simp: deleted_def find_None_iff)

lemma in_changed:
  assumes "unique_keys new"
  shows "x \<in> set (changed EqualWithoutProperties Properties old new) \<longleftrightarrow>
    x \<in> set new \<and> (\<exists>y \<in> set old. EqualWithoutProperties y x \<and> Properties y \<noteq> Properties x)"
proof -
  have "find (EqualWithoutProperties y) new = Some x \<longleftrightarrow> x \<in> set new \<and> EqualWithoutProperties y x" for y
    using link_diff.find_unique [of new x y] assms by (auto simp: unique_keys_def dest: find_SomeD)
  note this [symmetric]
  moreover have "x \<in> set (changed EqualWithoutProperties Properties old new) \<longleftrightarrow>
    (\<exists>y \<in> set old. find (EqualWithoutProperties y) new = Some x \<and> Properties y \<noteq> Properties x)"
    by (force simp: changed_def split: option.splits if_splits)
  ultimately show ?thesis by auto
qed

lemma key_image: "k \<in> pb_key ` set (map Link_ToProto ls) \<longleftrightarrow> (\<exists>l \<in> set ls. k = key l)"
  by auto

lemma unique_sub:
  assumes "unique_keys new" "set ls \<subseteq> set new" "l \<in> set ls"
  shows "fold put_link (map Link_ToProto ls) n (key l) = Some (pb_properties (Link_ToProto l))"
proof (rule fold_put_in)
  fix a b
  assume "a \<in> set (map Link_ToProto ls)" "b \<in> set (map Link_ToProto ls)" "pb_key a = pb_key b"
  then obtain x y where "a = Link_ToProto x" "b = Link_ToProto y" "x \<in> set new" "y \<in> set new" "EqualWithoutProperties x y"
    using assms(2) by (auto simp: pb_key_eq) blast
  with assms(1) show "a = b" unfolding unique_keys_def by blast
qed (use assms(3) in simp)

lemma diff_links:
  assumes "unique_keys new" "CalcDiff old new = (add, del, upd)"
  shows "set upd \<subseteq> set new" "set add \<subseteq> set new"
    and "l \<in> set del \<Longrightarrow> x \<in> set new \<Longrightarrow> key l \<noteq> key x"
    and "l \<in> set old \<Longrightarrow> (\<And>x. x \<in> set new \<Longrightarrow> key l \<noteq> key x) \<Longrightarrow> l \<in> set del"
    and "x \<in> set new \<Longrightarrow> x \<notin> set add \<Longrightarrow> x \<notin> set upd \<Longrightarrow> x \<in> set old"
proof -
  have d: "add = added EqualWithoutProperties old new" "del = deleted EqualWithoutProperties old new"
    "upd = changed EqualWithoutProperties Properties old new" using assms(2) by (simp_all add: CalcDiff_eq)
  show "set upd \<subseteq> set new" "set add \<subseteq> set new"
    unfolding d using in_changed [OF assms(1)] in_added by blast+
  show "l \<in> set del \<Longrightarrow> x \<in> set new \<Longrightarrow> key l \<noteq> key x"
    and "l \<in> set old \<Longrightarrow> (\<And>x. x \<in> set new \<Longrightarrow> key l \<noteq> key x) \<Longrightarrow> l \<in> set del"
    unfolding d in_deleted pb_key_eq by blast+
  show "x \<in> set new \<Longrightarrow> x \<notin> set add \<Longrightarrow> x \<notin> set upd \<Longrightarrow> x \<in> set old"
    unfolding d in_added in_changed [OF assms(1)] using link_diff.eqv_props by blast
qed

lemma fold_put_other: "\<forall>l \<in> set ls. k \<noteq> key l \<Longrightarrow> fold put_link (map Link_ToProto ls) n k = n k"
  by (rule fold_put_notin) auto

lemma fold_drop_in: "l \<in> set ls \<Longrightarrow> fold drop_link (map Link_ToProto ls) n (key l) = None"
  by (simp add: fold_drop)

lemma fold_drop_other: "\<forall>l \<in> set ls. k \<noteq> key l \<Longrightarrow> fold drop_link (map Link_ToProto ls) n k = n k"
  by (simp add: fold_drop image_iff)

lemma touches_other: "touches_only (map Link_ToProto ls) n n' \<Longrightarrow> \<forall>l \<in> set ls. k \<noteq> key l \<Longrightarrow> n' k = n k"
  by (simp add: touches_only_def image_iff)

text \<open>
  A network that differs from the old one on links of the difference only becomes the new network
  when the difference is carried out completely.
\<close>

lemma patched_network:
  assumes old: "unique_keys old" and new: "unique_keys new" and d: "CalcDiff old new = (add, del, upd)"
    and n: "touches_only (map Link_ToProto (add @ del @ upd)) (network_of old) n"
  shows "fold put_link (map Link_ToProto upd) (fold put_link (map Link_ToProto add) (fold drop_link (map Link_ToProto del) n))
    = network_of new"
    (is "?m = _")
proof
  fix k
  note diff = diff_links [OF new d]
  show "?m k = network_of new k"
  proof (cases "\<exists>x \<in> set new. k = key x")
    case True
    then obtain x where x: "x \<in> set new" "k = key x" by blast
    have same: "y = x" if "y \<in> set new" "k = key y" for y
      using that x new unfolding unique_keys_def pb_key_eq [symmetric] by metis
    have val: "network_of new k = Some (pb_properties (Link_ToProto x))" using network_of_in [OF new x(1)] x(2) by simp
    consider "x \<in> set upd" | "x \<in> set add" "x \<notin> set upd" | "x \<notin> set add" "x \<notin> set upd" by blast
    then show ?thesis
    proof cases
      case 1
      then show ?thesis using unique_sub [OF new diff(1)] val x(2) by simp
    next
      case 2
      then have "\<forall>l \<in> set upd. k \<noteq> key l" using same diff(1) by blast
      with 2 show ?thesis using unique_sub [OF new diff(2)] val x(2) by (simp add: fold_put_other)
    next
      case 3
      then have out: "\<forall>l \<in> set upd. k \<noteq> key l" "\<forall>l \<in> set add. k \<noteq> key l" using same diff(1,2) by blast+
      moreover have del: "\<forall>l \<in> set del. k \<noteq> key l" using diff(3) x by metis
      ultimately have "?m k = network_of old k"
        using touches_other [OF n, of k] by (simp add: fold_put_other fold_drop_other ball_Un)
      with network_of_in [OF old diff(5) [OF x(1) 3]] val x(2) show ?thesis by simp
    qed
  next
    case False
    then have none: "network_of new k = None" by (intro network_of_notin) auto
    have out: "\<forall>l \<in> set upd. k \<noteq> key l" "\<forall>l \<in> set add. k \<noteq> key l" using False diff(1,2) by blast+
    show ?thesis
    proof (cases "\<exists>l \<in> set del. k = key l")
      case True
      with out none show ?thesis by (auto simp: fold_put_other fold_drop_in)
    next
      case nodel: False
      then have "k \<notin> key ` set old" using diff(4) False by auto
      with out nodel none touches_other [OF n, of k] show ?thesis
        by (simp add: fold_put_other fold_drop_other ball_Un network_of_notin)
    qed
  qed
qed

section \<open>Convergence\<close>

lemma effects_touch: "effects S es n n' \<Longrightarrow> touches_only (concat (map ev_links es)) n n'"
proof (induction es arbitrary: n)
  case (Cons e es)
  then obtain m where "effect S e n m" "effects S es m n'" by auto
  with Cons.IH [of m] show ?case by (fastforce simp: effect_def touches_only_def)
qed (simp add: touches_only_def)

lemma asked_at: "n k = m k \<Longrightarrow> asked e n k = asked e m k"
proof -
  assume eq: "n k = m k"
  have put: "fold put_link ls n k = fold put_link ls m k" for ls
    using eq
  proof (induction ls arbitrary: n m)
    case (Cons l ls)
    then have "put_link l n k = put_link l m k" by (simp add: put_link_def)
    from Cons.IH [of "put_link l n" "put_link l m", OF this] show ?case by simp
  qed simp
  show "asked e n k = asked e m k"
    by (cases e) (simp_all only: asked.simps put fold_drop eq)
qed

lemma effects_at: "effects S es n n' \<Longrightarrow> k \<in> S \<Longrightarrow> n k = m k \<Longrightarrow> n' k = fold asked es m k"
proof (induction es arbitrary: n m)
  case (Cons e es)
  then obtain n1 where n1: "effect S e n n1" "effects S es n1 n'" by auto
  with Cons.prems(2) have "n1 k = asked e n k" by (simp add: effect_def)
  also have "\<dots> = asked e m k" using Cons.prems(3) by (rule asked_at)
  finally show ?case using Cons.IH [OF n1(2) Cons.prems(2)] by simp
qed simp

lemma touches_only_mono: "touches_only ls n n' \<Longrightarrow> set ls \<subseteq> set ls' \<Longrightarrow> touches_only ls' n n'"
  by (auto simp: touches_only_def)

lemma status_links: "list_all is_status s \<Longrightarrow> set (concat (map ev_links s)) = {}"
  by (induction s) (auto simp: is_status_def split: cevent.splits)

lemma status_asked: "list_all is_status s \<Longrightarrow> fold asked s n = n"
  by (induction s) (auto simp: is_status_def split: cevent.splits)

lemma log_of_links:
  "log_of (add, del, upd) evs \<Longrightarrow> set (concat (map ev_links evs)) \<subseteq> set (map Link_ToProto (add @ del @ upd))"
  by (auto simp: log_of_def tried_def simp del: set_concat simp: status_links)

text \<open>An attempt to bring a pod from the links \<open>old\<close> of its status to the links \<open>new\<close> of its specification.\<close>

definition attempt :: "'w cluster \<Rightarrow> (('w \<times> cevent list, error option) go \<Rightarrow> ('w \<times> cevent list, error option) go)
    \<Rightarrow> string \<times> string \<Rightarrow> Link list \<Rightarrow> Link list \<Rightarrow> error option out \<Rightarrow> cevent list \<Rightarrow> bool" where
  "attempt K retry req old new r evs \<longleftrightarrow> (\<exists>w w1 w' t. cl_Get K req w = (Inr t, w1)
     \<and> StatusLinks (Status t) = Some old \<and> items (SpecLinks (Spec t)) = new
     \<and> Reconcile (recording_cluster K retry) req (w, []) = (r, (w', evs)))"

lemma attemptI:
  "cl_Get K req w = (Inr t, w1) \<Longrightarrow> StatusLinks (Status t) = Some old \<Longrightarrow> items (SpecLinks (Spec t)) = new
    \<Longrightarrow> Reconcile (recording_cluster K retry) req (w, []) = (r, (w', evs)) \<Longrightarrow> attempt K retry req old new r evs"
  unfolding attempt_def by blast

lemma attempt_log: "retry_ok retry \<Longrightarrow> attempt K retry req old new r evs \<Longrightarrow> log_of (CalcDiff old new) evs"
  unfolding attempt_def by (auto dest: Reconcile_log)

lemma CalcDiff_same: "unique_keys old \<Longrightarrow> CalcDiff old old = ([], [], [])"
  using link_diff.find_unique [of old] link_diff.eqv_refl
  by (fastforce simp: CalcDiff_nothing unique_keys_def list_all_iff list_ex_iff)

definition carried_out :: "Link list \<times> Link list \<times> Link list \<Rightarrow> network \<Rightarrow> network" where
  "carried_out diff n = (case diff of (add, del, upd) \<Rightarrow> fold put_link (map Link_ToProto upd)
     (fold put_link (map Link_ToProto add) (fold drop_link (map Link_ToProto del) n)))"

lemma called_asked:
  "called EvDelLinks t links evs \<Longrightarrow> fold asked evs n = fold drop_link (map Link_ToProto links) n"
  "called EvAddLinks t links evs \<Longrightarrow> fold asked evs n = fold put_link (map Link_ToProto links) n"
  "called EvUpdateLinks t links evs \<Longrightarrow> fold asked evs n = fold put_link (map Link_ToProto links) n"
  by (auto simp: called_def split: if_splits)

lemma calls_asked: "calls t diff evs \<Longrightarrow> fold asked evs n = carried_out diff n"
  by (auto simp: calls_def carried_out_def called_asked)

lemma attempt_done:
  assumes "retry_ok retry" "attempt K retry req old new (Done None) evs" "unique_keys old"
  shows "fold asked evs n = carried_out (CalcDiff old new) n"
proof -
  obtain w w1 w' t where get: "cl_Get K req w = (Inr t, w1)" "StatusLinks (Status t) = Some old"
      "items (SpecLinks (Spec t)) = new"
    and run: "Reconcile (recording_cluster K retry) req (w, []) = (Done None, (w', evs))"
    using assms(2) unfolding attempt_def by blast
  show ?thesis
  proof (cases "StatusLinks (Status t) = SpecLinks (Spec t)")
    case True
    with get run have "evs = []" "old = new" by (auto simp: Reconcile_def bnd_ext asking_run ret_run items_def)
    then show ?thesis using CalcDiff_same [OF assms(3)] by (simp add: carried_out_def)
  next
    case False
    obtain a b where "evs = a @ b" "calls t (CalcDiff old new) a" "list_all is_status b"
      using Reconcile_calls [OF assms(1) get(1,2) False run] get(3) by auto
    then show ?thesis by (simp add: calls_asked status_asked)
  qed
qed

text \<open>The links of the difference are those on which the two networks differ.\<close>

lemma diff_keys:
  assumes old: "unique_keys old" and new: "unique_keys new" and d: "CalcDiff old new = (add, del, upd)"
  shows "k \<in> key ` set (add @ del @ upd) \<longleftrightarrow> network_of old k \<noteq> network_of new k"
proof
  have e: "add = added EqualWithoutProperties old new" "del = deleted EqualWithoutProperties old new"
    "upd = changed EqualWithoutProperties Properties old new" using d by (simp_all add: CalcDiff_eq)
  have none: "network_of links (key x) = None" if "\<forall>y \<in> set links. \<not> EqualWithoutProperties y x" for links x
  proof (rule network_of_notin)
    show "key x \<notin> key ` set links" using that link_diff.eqv_sym unfolding image_iff pb_key_eq by blast
  qed
  assume "k \<in> key ` set (add @ del @ upd)"
  then consider x where "x \<in> set add" "k = key x" | x where "x \<in> set del" "k = key x" | x where "x \<in> set upd" "k = key x" by auto
  then show "network_of old k \<noteq> network_of new k"
  proof cases
    case (1 x)
    then show ?thesis using none [of old x] network_of_in [OF new, of x] by (simp add: e in_added)
  next
    case (2 x)
    then have "\<forall>y \<in> set new. \<not> EqualWithoutProperties y x" using link_diff.eqv_sym by (auto simp: e in_deleted)
    with 2 show ?thesis using none [of new x] network_of_in [OF old, of x] by (simp add: e in_deleted)
  next
    case (3 x)
    then obtain y where y: "x \<in> set new" "y \<in> set old" "key y = key x" "Properties y \<noteq> Properties x"
      unfolding e in_changed [OF new] pb_key_eq by blast
    then have "pb_properties (Link_ToProto y) \<noteq> pb_properties (Link_ToProto x)"
      by (simp add: Link_ToProto_def LinkProperties_ToProto_inject)
    with 3 y network_of_in [OF new y(1)] network_of_in [OF old y(2)] show ?thesis by simp
  qed
next
  assume ne: "network_of old k \<noteq> network_of new k"
  show "k \<in> key ` set (add @ del @ upd)"
  proof (rule ccontr)
    assume out: "k \<notin> key ` set (add @ del @ upd)"
    have "carried_out (add, del, upd) (network_of old) k = network_of new k"
      using patched_network [OF old new d, of "network_of old"] by (simp add: carried_out_def touches_only_def)
    moreover have "carried_out (add, del, upd) (network_of old) k = network_of old k"
      using out by (simp add: carried_out_def fold_put_other fold_drop_other image_iff ball_Un)
    ultimately show False using ne by simp
  qed
qed

lemma attempts_touch:
  assumes "retry_ok retry" "CalcDiff old new = (add, del, upd)"
    and "\<forall>log \<in> set logs. \<exists>r. attempt K retry req old new r log" "effects S (concat logs) n n'"
  shows "touches_only (map Link_ToProto (add @ del @ upd)) n n'"
proof -
  have "set (concat (map ev_links log)) \<subseteq> set (map Link_ToProto (add @ del @ upd))" if "log \<in> set logs" for log
    using that assms(1,2,3) attempt_log log_of_links by metis
  then have "set (concat (map ev_links (concat logs))) \<subseteq> set (map Link_ToProto (add @ del @ upd))"
    by (simp add: UN_subset_iff)
  with effects_touch [OF assms(4)] show ?thesis by (rule touches_only_mono)
qed

lemma attempt_touches:
  assumes "retry_ok retry" "CalcDiff old new = (add, del, upd)" "attempt K retry req old new r evs" "effects S evs n n'"
  shows "touches_only (map Link_ToProto (add @ del @ upd)) n n'"
proof -
  have "\<forall>log \<in> set [evs]. \<exists>r. attempt K retry req old new r log" using assms(3) by auto
  moreover have "effects S (concat [evs]) n n'" using assms(4) by simp
  ultimately show ?thesis by (rule attempts_touch [OF assms(1,2)])
qed

text \<open>
  C4: Any number of attempts fail, at whatever call, and do anything to the links they name; then one
  succeeds, the specification being the same throughout. From whatever network the attempts started, a
  link that the status and the specification agree about is as the specification says if it was so at
  the start, since no attempt touches it; and a link they do not agree about is, if the calls of the
  last attempt did for it what they were asked, whatever the failed attempts had left there. So if
  they did so for all links, the pod has exactly the network of its specification. No two links of the
  status or of the specification may differ in their properties only. The answers of the daemon alone
  do not show that its calls did what they were asked.
\<close>

theorem Reconcile_converges:
  assumes "retry_ok retry" and "unique_keys old" and "unique_keys new"
    and "\<forall>log \<in> set failed. \<exists>r. attempt K retry req old new r log"
    and "attempt K retry req old new (Done None) evs"
    and "effects {} (concat failed) start m" and "effects S evs m net"
  shows "(\<forall>k. (if network_of old k = network_of new k then start k = network_of old k else k \<in> S) \<longrightarrow> net k = network_of new k)
    \<and> (start = network_of old \<and> S = UNIV \<longrightarrow> net = network_of new)"
proof -
  obtain add del upd where d: "CalcDiff old new = (add, del, upd)" by (metis prod_cases3)
  let ?ls = "map Link_ToProto (add @ del @ upd)"
  have diff: "k \<in> pb_key ` set ?ls \<longleftrightarrow> network_of old k \<noteq> network_of new k" for k
    using diff_keys [OF assms(2,3) d, of k] unfolding set_map image_image .
  have one: "net k = network_of new k"
    if k: "if network_of old k = network_of new k then start k = network_of old k else k \<in> S" for k
  proof (cases "network_of old k = network_of new k")
    case True
    then have out: "k \<notin> pb_key ` set ?ls" using diff by simp
    have "touches_only ?ls start m" using assms(1) d assms(4,6) by (rule attempts_touch)
    moreover have "touches_only ?ls m net" using assms(1) d assms(5,7) by (rule attempt_touches)
    ultimately have "net k = start k" using out by (simp add: touches_only_def)
    with k True show ?thesis by simp
  next
    case False
    then have in_diff: "k \<in> pb_key ` set ?ls" using diff by simp
    define n where "n = (\<lambda>k. if k \<in> pb_key ` set ?ls then m k else network_of old k)"
    have "touches_only ?ls (network_of old) n" by (simp add: touches_only_def n_def)
    then have "carried_out (add, del, upd) n = network_of new"
      unfolding carried_out_def prod.case by (rule patched_network [OF assms(2,3) d])
    moreover have "net k = carried_out (add, del, upd) n k"
      using effects_at [OF assms(7), of k n] attempt_done [OF assms(1,5,2)] k False in_diff d by (simp add: n_def)
    ultimately show ?thesis by simp
  qed
  then have "net = network_of new" if "start = network_of old" "S = UNIV" using that by (simp add: fun_eq_iff)
  with one show ?thesis by blast
qed

section \<open>A change of the specification between attempts\<close>

lemma diff_notin:
  assumes "unique_keys new" "CalcDiff old new = (add, del, upd)" "\<forall>l \<in> set old. key x \<noteq> key l"
  shows "\<forall>l \<in> set del. key x \<noteq> key l" "\<forall>l \<in> set upd. key x \<noteq> key l" "x \<in> set new \<Longrightarrow> x \<in> set add"
proof -
  have d: "add = added EqualWithoutProperties old new" "del = deleted EqualWithoutProperties old new"
    "upd = changed EqualWithoutProperties Properties old new" using assms(2) by (simp_all add: CalcDiff_eq)
  show "\<forall>l \<in> set del. key x \<noteq> key l" using assms(3) by (simp add: d deleted_def)
  show "\<forall>l \<in> set upd. key x \<noteq> key l"
  proof
    fix l
    assume "l \<in> set upd"
    then obtain y where "y \<in> set old" "key y = key l" unfolding d in_changed [OF assms(1)] pb_key_eq by blast
    with assms(3) show "key x \<noteq> key l" by metis
  qed
  show "x \<in> set new \<Longrightarrow> x \<in> set add"
    unfolding d in_added using assms(3) unfolding pb_key_eq using link_diff.eqv_sym by blast
qed

lemma add_survives:
  assumes log: "log_of (add, del, upd) evs" and ev: "EvAddLinks u q (Inr b) \<in> set evs"
    and add: "unique_keys new" "set add \<subseteq> set new" "x \<in> set add" and upd: "\<forall>l \<in> set upd. key x \<noteq> key l"
    and effects: "effects {key x} evs n n'"
  shows "n' (key x) = Some (pb_properties (Link_ToProto x))"
proof -
  obtain a b' c s where evs: "evs = a @ b' @ c @ s" and t: "tried EvDelLinks del a" "tried EvAddLinks add b'"
      "tried EvUpdateLinks upd c" and s: "list_all is_status s"
    using log unfolding log_of_def by auto
  have "EvAddLinks u q (Inr b) \<in> set b'"
    using ev t(1,3) s unfolding evs by (auto simp: tried_def list_all_iff is_status_def)
  then have b': "b' = [EvAddLinks u q (Inr b)]" "lbq_links q = map Link_ToProto add" using t(2) by (auto simp: tried_def)
  let ?m = "fold put_link (map Link_ToProto add) (fold asked a n)"
  have "n' (key x) = fold asked c ?m (key x)"
    using effects_at [OF effects, of "key x" n] s by (simp add: evs b' status_asked)
  also have "\<dots> = ?m (key x)" using t(3) upd by (auto simp: tried_def fold_put_other)
  also have "\<dots> = Some (pb_properties (Link_ToProto x))" by (rule unique_sub [OF add])
  finally show ?thesis .
qed

text \<open>
  C35: If an attempt fails after the daemon has added a link, and the specification is changed before the
  next one, then a link that the failed attempt added and the changed specification no longer has stays
  in the network, whatever the later calls do to the links they name: the attempt that succeeds takes
  the links of the status for the network and does not delete it.
\<close>

theorem Reconcile_leaves_links:
  assumes "retry_ok retry" and "unique_keys old" and "unique_keys new" and "unique_keys newer"
    and "attempt K retry req old new (Done (Some err)) evs" and "EvAddLinks u q (Inr b) \<in> set evs"
    and "attempt K retry req old newer (Done None) evs'"
    and "effects {key x} evs start m" and "effects {} evs' m net"
    and "x \<in> set new" and "\<forall>l \<in> set old \<union> set newer. \<not> EqualWithoutProperties x l"
  shows "net (key x) = Some (pb_properties (Link_ToProto x)) \<and> network_of newer (key x) = None"
proof -
  have out: "\<forall>l \<in> set old. key x \<noteq> key l" "\<forall>l \<in> set newer. key x \<noteq> key l"
    using assms(11) unfolding pb_key_eq by auto
  obtain add del upd where d: "CalcDiff old new = (add, del, upd)" by (metis prod_cases3)
  obtain add' del' upd' where d': "CalcDiff old newer = (add', del', upd')" by (metis prod_cases3)
  note diff = diff_notin [OF assms(3) d out(1)] and diff' = diff_notin [OF assms(4) d' out(1)]
  have log: "log_of (add, del, upd) evs" using attempt_log [OF assms(1,5)] d by simp
  have x: "m (key x) = Some (pb_properties (Link_ToProto x))"
    using log assms(6,3) diff_links(2) [OF assms(3) d] diff(3) [OF assms(10)] diff(2) assms(8) by (rule add_survives)
  have add': "\<forall>l \<in> set add'. key x \<noteq> key l" using diff_links(2) [OF assms(4) d'] out(2) by blast
  have "touches_only (map Link_ToProto (add' @ del' @ upd')) m net"
    using assms(1) d' assms(7,9) by (rule attempt_touches)
  then have "net (key x) = m (key x)" by (rule touches_other) (use add' diff'(1,2) in auto)
  moreover have "network_of newer (key x) = None" using out(2) by (intro network_of_notin) auto
  ultimately show ?thesis using x by simp
qed

section \<open>Witnesses\<close>

text \<open>A cluster whose daemons refuse the first call to update links and answer every other call with success.\<close>

definition flaky :: "(nat \<times> Topology) cluster" where
  "flaky =
     \<lparr> cl_Get = (\<lambda>req (n, t). (Inr t, (n, t))),
       cl_StatusUpdate = (\<lambda>u (n, t). (None, (n, u))),
       cl_rpc = (cl_rpc (racing None))\<lparr> rpc_UpdateLinks :=
         (\<lambda>u q (n, t). (if n = 0 then Inl (ExtError ''busy'') else Inr True, (n + 1, t))) \<rparr>,
       cl_retry = (\<lambda>f. f) \<rparr>"

abbreviation "w_old \<equiv> [link_to ''r2'' 2 []]"
abbreviation "w_new \<equiv> [link_to ''r2'' 2 ''10ms'', link_to ''r3'' 3 []]"
abbreviation "w_topology \<equiv> topology_with w_old w_new"
abbreviation "w_url \<equiv> daemon_url (SrcIP (Status w_topology))"
abbreviation "w_add \<equiv> EvAddLinks w_url (batch_query w_topology [link_to ''r3'' 3 []]) (Inr True)"
abbreviation "w_update \<equiv> EvUpdateLinks w_url (batch_query w_topology [link_to ''r2'' 2 ''10ms''])"

lemma w_unique: "unique_keys w_old" "unique_keys w_new"
  by (simp_all add: unique_keys_def EqualWithoutProperties_def link_to_def)

lemma w_diff: "CalcDiff w_old w_new = ([link_to ''r3'' 3 []], [], [link_to ''r2'' 2 ''10ms''])"
  by (simp add: CalcDiff_def EqualWithoutProperties_def link_to_def)

lemma flaky_sel:
  "cl_Get flaky = (\<lambda>req (n, t). (Inr t, (n, t)))" "cl_StatusUpdate flaky = (\<lambda>u (n, t). (None, (n, u)))"
  "rpc_Dial (cl_rpc flaky) = (\<lambda>u w. (None, w))" "rpc_AddLinks (cl_rpc flaky) = (\<lambda>u q w. (Inr True, w))"
  "rpc_UpdateLinks (cl_rpc flaky) = (\<lambda>u q (n, t). (if n = 0 then Inl (ExtError ''busy'') else Inr True, (n + 1, t)))"
  by (simp_all add: flaky_def racing_def)

lemma w_sel: "StatusLinks (Status (topology_with old new)) = Some old" "SpecLinks (Spec (topology_with old new)) = Some new"
  by (simp_all add: topology_with_def)

lemma flaky_apply:
  "apply_changes (recording_cluster flaky (\<lambda>f. f)) w_topology ((n, t), []) =
     (if n = 0 then (Done (Some (ExtError ''busy'')), ((1, t), [w_add, w_update (Inl (ExtError ''busy''))]))
      else (Done None, ((n + 1, t), [w_add, w_update (Inr True)])))"
  by (simp add: apply_changes_def w_sel w_diff Reconciler_DelLinks_def Reconciler_AddLinks_def Reconciler_UpdateLinks_def
      ConnectDaemon_def check_def bnd_ext asking_run changing_run flaky_sel rpc_error_def ret_run)

lemma flaky_attempts:
  "attempt flaky (\<lambda>f. f) req w_old w_new (Done (Some (ExtError ''busy''))) [w_add, w_update (Inl (ExtError ''busy''))]"
  "\<exists>s. attempt flaky (\<lambda>f. f) req w_old w_new (Done None) [w_add, w_update (Inr True), s]"
  "attempt flaky (\<lambda>f. f) req w_old w_old (Done None) []"
proof -
  have ne: "w_old \<noteq> w_new" by (simp add: link_to_def)
  show "attempt flaky (\<lambda>f. f) req w_old w_new (Done (Some (ExtError ''busy''))) [w_add, w_update (Inl (ExtError ''busy''))]"
    using ne
    by (intro attemptI [where w = "(0, w_topology)" and t = w_topology])
      (simp_all add: flaky_sel w_sel Reconcile_def bnd_ext asking_run flaky_apply check_def ret_run)
  show "attempt flaky (\<lambda>f. f) req w_old w_old (Done None) []"
    by (intro attemptI [where w = "(0, topology_with w_old w_old)" and t = "topology_with w_old w_old"])
      (simp_all add: flaky_sel w_sel Reconcile_def bnd_ext asking_run ret_run)
  have "\<exists>s w'. Reconcile (recording_cluster flaky (\<lambda>f. f)) req ((1, w_topology), []) =
      (Done None, (w', [w_add, w_update (Inr True), s]))"
    using ne by (simp add: flaky_sel w_sel Reconcile_def bnd_ext asking_run flaky_apply check_def copy_status_def ext_changing)
  then show "\<exists>s. attempt flaky (\<lambda>f. f) req w_old w_new (Done None) [w_add, w_update (Inr True), s]"
    by (elim exE, intro exI attemptI [where w = "(1, w_topology)" and t = w_topology]) (simp_all add: flaky_sel w_sel)
qed

lemma effects_exist: "\<exists>n'. effects S evs n n'"
proof (induction evs arbitrary: n)
  case (Cons e evs)
  have "touches_only (ev_links e) n (asked e n)"
    by (cases e) (auto simp: touches_only_def fold_drop fold_put_notin)
  then have "effect S e n (asked e n)" by (simp add: effect_def)
  with Cons.IH [of "asked e n"] show ?case by auto
next
  case Nil
  show ?case by (rule exI [of _ n]) simp
qed

theorem Reconcile_converges_witness:
  "\<exists>failed evs m net. attempt flaky (\<lambda>f. f) (''default'', ''r1'') w_old w_new (Done (Some (ExtError ''busy''))) failed
    \<and> attempt flaky (\<lambda>f. f) (''default'', ''r1'') w_old w_new (Done None) evs
    \<and> effects {} failed (network_of w_old) m \<and> effects UNIV evs m net \<and> net = network_of w_new"
proof -
  let ?req = "(''default'', ''r1'')" and ?failed = "[w_add, w_update (Inl (ExtError ''busy''))]"
  obtain s where ok: "attempt flaky (\<lambda>f. f) ?req w_old w_new (Done None) [w_add, w_update (Inr True), s]"
    using flaky_attempts(2) by blast
  obtain m where m: "effects {} (concat [?failed]) (network_of w_old) m" using effects_exist by blast
  obtain net where net: "effects UNIV [w_add, w_update (Inr True), s] m net" using effects_exist by blast
  have "\<forall>log \<in> set [?failed]. \<exists>r. attempt flaky (\<lambda>f. f) ?req w_old w_new r log" using flaky_attempts(1) by auto
  from Reconcile_converges [OF retry_ok_once w_unique this ok m net] have "net = network_of w_new" by simp
  moreover have "effects {} ?failed (network_of w_old) m" using m by (simp only: concat.simps append_Nil2)
  ultimately show ?thesis using flaky_attempts(1) ok net by blast
qed

theorem Reconcile_leaves_links_witness:
  "\<exists>evs evs' m net. attempt flaky (\<lambda>f. f) (''default'', ''r1'') w_old w_new (Done (Some (ExtError ''busy''))) evs
    \<and> attempt flaky (\<lambda>f. f) (''default'', ''r1'') w_old w_old (Done None) evs'
    \<and> effects {key (link_to ''r3'' 3 [])} evs (network_of w_old) m \<and> effects {} evs' m net
    \<and> net (key (link_to ''r3'' 3 [])) \<noteq> None \<and> network_of w_old (key (link_to ''r3'' 3 [])) = None"
proof -
  let ?req = "(''default'', ''r1'')" and ?evs = "[w_add, w_update (Inl (ExtError ''busy''))]"
  obtain m where m: "effects {key (link_to ''r3'' 3 [])} ?evs (network_of w_old) m" using effects_exist by blast
  obtain net where net: "effects {} [] m net" using effects_exist by blast
  have x: "link_to ''r3'' 3 [] \<in> set w_new"
    "\<forall>l \<in> set w_old \<union> set w_old. \<not> EqualWithoutProperties (link_to ''r3'' 3 []) l"
    by (simp_all add: EqualWithoutProperties_def link_to_def)
  have add: "w_add \<in> set ?evs" by simp
  show ?thesis
    using Reconcile_leaves_links [OF retry_ok_once w_unique w_unique(1) flaky_attempts(1) add flaky_attempts(3) m net x]
      flaky_attempts(1,3) m net by blast
qed

end
