(* ===== verification/CniConfig.thy ===== *)
theory CniConfig
  imports GoStrings "HOL-Library.List_Lexorder" "HOL-Library.Char_ord"
begin

text \<open>
  \<open>daemon/cni/cni.go\<close>: the daemon installs itself as the last plugin of the CNI configuration of the
  node when it starts, and removes that configuration when it ends.

  \<open>'w conf_env\<close> holds the file operations, the readers of the package \<open>libcni\<close>, and the JSON encoder and
  decoder. A decoded document is a map from keys to values of type \<open>interface\<close>; the plugin that is
  appended is a pointer to a \<open>NetConf\<close> with the given type and name.
\<close>

section \<open>Configurations\<close>

datatype iface =
    JNull | JBool bool | JNumber rat | JString string | JArray "iface list" | JObject "(string \<times> iface) list"
  | NetConfPtr string string

type_synonym document = "string \<Rightarrow> iface option"

text \<open>What the code reads of \<open>libcni.NetworkConfigList\<close> and \<open>libcni.NetworkConfig\<close>.\<close>

record NetworkConfigList =
  ncl_Plugins :: nat
  ncl_Bytes :: string

record NetworkConfig =
  nc_Type :: string
  nc_Bytes :: string

record 'w conf_env =
  ConfFiles :: "string \<Rightarrow> string list \<Rightarrow> 'w \<Rightarrow> (error + string list) \<times> 'w"
  ConfListFromFile :: "string \<Rightarrow> 'w \<Rightarrow> (error + NetworkConfigList) \<times> 'w"
  ConfFromFile :: "string \<Rightarrow> 'w \<Rightarrow> (error + NetworkConfig) \<times> 'w"
  ConfListFromConf :: "NetworkConfig \<Rightarrow> error + NetworkConfigList"
  json_Unmarshal :: "string \<Rightarrow> error + document"
  json_MarshalIndent :: "document \<Rightarrow> error + string"
  WriteFile :: "string \<Rightarrow> string \<Rightarrow> 'w \<Rightarrow> error option \<times> 'w"
  Remove :: "string \<Rightarrow> 'w \<Rightarrow> error option \<times> 'w"
  os_Getenv :: "string \<Rightarrow> 'w \<Rightarrow> string \<times> 'w"

definition defaultNetDir :: string where
  "defaultNetDir = ''/etc/cni/net.d''"

definition defaultCNIFile :: string where
  "defaultCNIFile = ''00-kubedtn.conflist''"

definition interNodeLinkConf :: string where
  "interNodeLinkConf = ''/etc/cni/net.d/kubedtn-inter-node-link-type''"

definition defaultPluginName :: string where
  "defaultPluginName = ''kubedtn''"

definition kubedtnCNIPath :: string where
  "kubedtnCNIPath = filepath_Join [defaultNetDir, defaultCNIFile]"

section \<open>Loading\<close>

text \<open>The files of other plugins.\<close>

fun other_files :: "string list \<Rightarrow> string list" where
  "other_files [] = []"
| "other_files (f # files) = (if Contains f ''kubedtn'' then other_files files else f # other_files files)"

text \<open>One file as a list of plugins; \<open>None\<close> if it is skipped.\<close>

definition read_list :: "'w conf_env \<Rightarrow> string \<Rightarrow> ('w, NetworkConfigList option) go" where
  "read_list F confFile =
     (if HasSuffix confFile ''.conflist''
      then bnd (ext (ConfListFromFile F confFile)) (\<lambda>r. case r of
             Inl err \<Rightarrow> ret None
           | Inr confList \<Rightarrow> ret (Some confList))
      else bnd (ext (ConfFromFile F confFile)) (\<lambda>r. case r of
             Inl err \<Rightarrow> ret None
           | Inr conf \<Rightarrow>
               if nc_Type conf = [] then ret None
               else (case ConfListFromConf F conf of Inl err \<Rightarrow> ret None | Inr confList \<Rightarrow> ret (Some confList))))"

fun pick_loop :: "'w conf_env \<Rightarrow> string list \<Rightarrow> ('w, error + document) go" where
  "pick_loop F [] =
     ret (Inl (Errorf (''no valid network configurations found in '' @ defaultNetDir)))"
| "pick_loop F (confFile # files) =
     bnd (read_list F confFile) (\<lambda>r. case r of
       None \<Rightarrow> pick_loop F files
     | Some confList \<Rightarrow>
         if ncl_Plugins confList = 0 then pick_loop F files
         else ret (json_Unmarshal F (ncl_Bytes confList)))"

definition loadConfList :: "'w conf_env \<Rightarrow> ('w, error + document) go" where
  "loadConfList F =
     bnd (ext (ConfFiles F defaultNetDir [''.conf'', ''.conflist'', ''.json''])) (\<lambda>r. case r of
       Inl err \<Rightarrow> ret (Inl err)
     | Inr files \<Rightarrow>
         if length files = 0 then ret (Inl (Errorf (''no net configurations found in '' @ defaultNetDir)))
         else pick_loop F (sort (other_files files)))"

section \<open>Saving and removing\<close>

definition saveConfList :: "'w conf_env \<Rightarrow> document \<Rightarrow> ('w, error option) go" where
  "saveConfList F m =
     (case json_MarshalIndent F m of
        Inl err \<Rightarrow> ret (Some err)
      | Inr bytes \<Rightarrow> ext (WriteFile F kubedtnCNIPath bytes))"

definition saveInterNodeLinkConf :: "'w conf_env \<Rightarrow> ('w, error option) go" where
  "saveInterNodeLinkConf F =
     bnd (ext (os_Getenv F ''INTER_NODE_LINK_TYPE'')) (\<lambda>value. ext (WriteFile F interNodeLinkConf value))"

definition removeInterNodeLinkConf :: "'w conf_env \<Rightarrow> ('w, error option) go" where
  "removeInterNodeLinkConf F =
     bnd (ext (Remove F interNodeLinkConf)) (\<lambda>r. case r of
       Some err \<Rightarrow> ret (Some (Wrap (''failed to remove '' @ interNodeLinkConf @ '': '') err))
     | None \<Rightarrow> ret None)"

text \<open>The appended plugin and the version.\<close>

definition with_plugin :: "iface list \<Rightarrow> document \<Rightarrow> document" where
  "with_plugin plugins conf =
     conf(''cniVersion'' \<mapsto> JString ''0.3.0'',
          ''plugins'' \<mapsto> JArray (plugins @ [NetConfPtr defaultPluginName defaultPluginName]))"

definition cni_Init :: "'w conf_env \<Rightarrow> ('w, error option) go" where
  "cni_Init F =
     bnd (loadConfList F) (\<lambda>r. case r of
       Inl err \<Rightarrow> ret (Some err)
     | Inr conf \<Rightarrow>
         (case conf ''plugins'' of
            Some (JArray plugins) \<Rightarrow> check (saveInterNodeLinkConf F) (saveConfList F (with_plugin plugins conf))
          | _ \<Rightarrow> halt (Panic ''interface conversion'')))"

definition cni_Cleanup :: "'w conf_env \<Rightarrow> ('w, unit) go" where
  "cni_Cleanup F =
     bnd (ext (Remove F kubedtnCNIPath)) (\<lambda>_. bnd (removeInterNodeLinkConf F) (\<lambda>_. ret ()))"

section \<open>A file system\<close>

text \<open>
  What is assumed of the operations on files, where \<open>view w\<close> gives the contents of the files: writing and
  removing do what they say or fail, a failed write may leave anything in its file; reading changes
  nothing; \<open>ConfFiles\<close> lists the files of a directory with given extensions; and what the readers
  return depends on the contents of their file.
\<close>

definition conf_file :: "string \<Rightarrow> string list \<Rightarrow> string \<Rightarrow> bool" where
  "conf_file dir exts p \<longleftrightarrow> (\<exists>n. p = dir @ ''/'' @ n \<and> CHR ''/'' \<notin> set n \<and> list_ex (HasSuffix n) exts)"

definition file_system :: "'w conf_env \<Rightarrow> ('w \<Rightarrow> string \<Rightarrow> string option) \<Rightarrow> bool" where
  "file_system F view \<longleftrightarrow>
     (\<forall>p b w. case WriteFile F p b w of
        (None, w') \<Rightarrow> view w' = (view w)(p \<mapsto> b) | (Some e, w') \<Rightarrow> (\<exists>c. view w' = (view w)(p := c)))
   \<and> (\<forall>p w. case Remove F p w of
        (None, w') \<Rightarrow> view w' = (view w)(p := None) | (Some e, w') \<Rightarrow> view w' = view w)
   \<and> (\<forall>n w. view (snd (os_Getenv F n w)) = view w)
   \<and> (\<forall>dir exts w. view (snd (ConfFiles F dir exts w)) = view w)
   \<and> (\<forall>dir exts w fs. fst (ConfFiles F dir exts w) = Inr fs \<longrightarrow>
        distinct fs \<and> set fs = {p. view w p \<noteq> None \<and> conf_file dir exts p})
   \<and> (\<forall>p w. view (snd (ConfListFromFile F p w)) = view w \<and> view (snd (ConfFromFile F p w)) = view w)
   \<and> (\<forall>p w w'. view w p = view w' p \<longrightarrow>
        fst (ConfListFromFile F p w) = fst (ConfListFromFile F p w') \<and> fst (ConfFromFile F p w) = fst (ConfFromFile F p w'))"

lemma file_systemD:
  assumes "file_system F view"
  shows "WriteFile F p b w = (None, w') \<Longrightarrow> view w' = (view w)(p \<mapsto> b)"
    and "WriteFile F p b w = (Some e, w') \<Longrightarrow> \<exists>c. view w' = (view w)(p := c)"
    and "Remove F p w = (None, w') \<Longrightarrow> view w' = (view w)(p := None)"
    and "Remove F p w = (Some e, w') \<Longrightarrow> view w' = view w"
    and "view (snd (os_Getenv F n w)) = view w"
    and "view (snd (ConfFiles F dir exts w)) = view w"
    and "fst (ConfFiles F dir exts w) = Inr fs \<Longrightarrow> distinct fs \<and> set fs = {p. view w p \<noteq> None \<and> conf_file dir exts p}"
    and "view (snd (ConfListFromFile F p w)) = view w"
    and "view (snd (ConfFromFile F p w)) = view w"
    and "view w p = view w2 p \<Longrightarrow> fst (ConfListFromFile F p w) = fst (ConfListFromFile F p w2)"
    and "view w p = view w2 p \<Longrightarrow> fst (ConfFromFile F p w) = fst (ConfFromFile F p w2)"
proof -
  show "WriteFile F p b w = (None, w') \<Longrightarrow> view w' = (view w)(p \<mapsto> b)"
    and "WriteFile F p b w = (Some e, w') \<Longrightarrow> \<exists>c. view w' = (view w)(p := c)"
    using assms [unfolded file_system_def, THEN conjunct1, THEN spec, of p, THEN spec, of b, THEN spec, of w] by simp_all
  show "Remove F p w = (None, w') \<Longrightarrow> view w' = (view w)(p := None)"
    and "Remove F p w = (Some e, w') \<Longrightarrow> view w' = view w"
    using assms [unfolded file_system_def, THEN conjunct2, THEN conjunct1, THEN spec, of p, THEN spec, of w] by simp_all
qed (use assms [unfolded file_system_def] in blast)+

section \<open>What is chosen\<close>

text \<open>What a file offers, which files are considered, and the one that is taken: the first in the order of names.\<close>

definition list_at :: "'w conf_env \<Rightarrow> 'w \<Rightarrow> string \<Rightarrow> NetworkConfigList option" where
  "list_at F w p = (case read_list F p w of (Done r, w') \<Rightarrow> r | (Abort x, w') \<Rightarrow> None)"

definition usable :: "'w conf_env \<Rightarrow> 'w \<Rightarrow> string \<Rightarrow> bool" where
  "usable F w p \<longleftrightarrow> (\<exists>l. list_at F w p = Some l \<and> ncl_Plugins l \<noteq> 0)"

definition candidates :: "(string \<Rightarrow> string option) \<Rightarrow> string set" where
  "candidates files =
     {p. files p \<noteq> None \<and> conf_file defaultNetDir [''.conf'', ''.conflist'', ''.json''] p \<and> \<not> Contains p ''kubedtn''}"

definition chosen :: "'w conf_env \<Rightarrow> ('w \<Rightarrow> string \<Rightarrow> string option) \<Rightarrow> 'w \<Rightarrow> string \<Rightarrow> bool" where
  "chosen F view w p \<longleftrightarrow> p \<in> candidates (view w) \<and> usable F w p
     \<and> (\<forall>q. q \<in> candidates (view w) \<longrightarrow> usable F w q \<longrightarrow> p \<le> q)"

lemma chosen_unique: "chosen F view w p \<Longrightarrow> chosen F view w q \<Longrightarrow> p = q"
  by (meson chosen_def order_antisym)

lemma read_list_run:
  assumes "file_system F view"
  shows "\<exists>w'. read_list F p w = (Done (list_at F w p), w') \<and> view w' = view w"
proof -
  note fs = file_systemD(8,9) [OF assms, where p = p and w = w]
  have "\<exists>r w'. read_list F p w = (Done r, w') \<and> view w' = view w"
    using fs by (auto simp: read_list_def bnd_ext ret_run split: sum.splits)
  then show ?thesis by (auto simp: list_at_def)
qed

lemma list_at_local:
  assumes "file_system F view" "view w p = view w2 p"
  shows "list_at F w p = list_at F w2 p"
  using file_systemD(10,11) [OF assms(1) assms(2)]
  by (auto simp: list_at_def read_list_def bnd_ext ret_run split: sum.splits)

lemma pick_loop_run:
  assumes "file_system F view" "view w0 = view w"
  shows "\<exists>r w'. pick_loop F files w0 = (Done r, w') \<and> view w' = view w \<and>
    (\<forall>conf. r = Inr conf \<longrightarrow> (\<exists>p l as bs. files = as @ p # bs \<and> \<not> list_ex (usable F w) as \<and> usable F w p
       \<and> list_at F w p = Some l \<and> json_Unmarshal F (ncl_Bytes l) = Inr conf))"
  using assms(2)
proof (induction files arbitrary: w0)
  case Nil
  then show ?case by (simp add: ret_run)
next
  case (Cons f files)
  obtain w1 where w1: "read_list F f w0 = (Done (list_at F w0 f), w1)" "view w1 = view w0"
    using read_list_run [OF assms(1)] by blast
  have same: "list_at F w0 f = list_at F w f" using list_at_local [OF assms(1)] Cons.prems by metis
  show ?case
  proof (cases "usable F w f")
    case True
    then obtain l where "list_at F w f = Some l" "ncl_Plugins l \<noteq> 0" by (auto simp: usable_def)
    with w1 same Cons.prems True show ?thesis
      by (intro exI [of _ "json_Unmarshal F (ncl_Bytes l)"] exI [of _ w1]) (fastforce simp: ret_run)
  next
    case False
    have step: "pick_loop F (f # files) w0 = pick_loop F files w1"
      using False w1(1) same by (auto simp: usable_def split: option.splits)
    obtain r w' where IH: "pick_loop F files w1 = (Done r, w')" "view w' = view w"
      "\<forall>conf. r = Inr conf \<longrightarrow> (\<exists>p l as bs. files = as @ p # bs \<and> \<not> list_ex (usable F w) as \<and> usable F w p
         \<and> list_at F w p = Some l \<and> json_Unmarshal F (ncl_Bytes l) = Inr conf)"
      using Cons.IH [of w1] w1(2) Cons.prems by metis
    have "\<exists>p l as bs. f # files = as @ p # bs \<and> \<not> list_ex (usable F w) as \<and> usable F w p
        \<and> list_at F w p = Some l \<and> json_Unmarshal F (ncl_Bytes l) = Inr conf" if conf: "r = Inr conf" for conf
    proof -
      obtain p l as bs where "files = as @ p # bs" "\<not> list_ex (usable F w) as" "usable F w p"
        "list_at F w p = Some l" "json_Unmarshal F (ncl_Bytes l) = Inr conf"
        using IH(3) conf by blast
      with False show ?thesis by (intro exI [of _ p] exI [of _ l] exI [of _ "f # as"] exI [of _ bs]) simp
    qed
    with IH(1,2) step show ?thesis by (metis (no_types, lifting))
  qed
qed

lemma set_other_files: "set (other_files files) = {f \<in> set files. \<not> Contains f ''kubedtn''}"
  by (induction files) auto

lemma loadConfList_run:
  assumes "file_system F view"
  shows "\<exists>r w'. loadConfList F w = (Done r, w') \<and> view w' = view w \<and>
    (\<forall>conf. r = Inr conf \<longrightarrow> (\<exists>p l. chosen F view w p \<and> list_at F w p = Some l \<and> json_Unmarshal F (ncl_Bytes l) = Inr conf))"
proof -
  let ?exts = "[''.conf'', ''.conflist'', ''.json'']"
  obtain x w1 where files: "ConfFiles F defaultNetDir ?exts w = (x, w1)" by fastforce
  have view: "view w1 = view w" using file_systemD(6) [OF assms, where dir = defaultNetDir and exts = ?exts and w = w] files by simp
  show ?thesis
  proof (cases "\<exists>fs. x = Inr fs \<and> fs \<noteq> []")
    case False
    then show ?thesis using files view by (cases x) (auto simp: loadConfList_def bnd_ext ret_run)
  next
    case True
    then obtain fs where fs: "x = Inr fs" "fs \<noteq> []" by blast
    let ?files = "sort (other_files fs)"
    have cand: "set ?files = candidates (view w)"
      using file_systemD(7) [OF assms, where dir = defaultNetDir and exts = ?exts and w = w and fs = fs] files fs(1)
      by (auto simp: set_other_files candidates_def)
    obtain r w' where run: "pick_loop F ?files w1 = (Done r, w')" "view w' = view w"
      "\<forall>conf. r = Inr conf \<longrightarrow> (\<exists>p l as bs. ?files = as @ p # bs \<and> \<not> list_ex (usable F w) as \<and> usable F w p
         \<and> list_at F w p = Some l \<and> json_Unmarshal F (ncl_Bytes l) = Inr conf)"
      using pick_loop_run [OF assms view, of ?files] by metis
    have "chosen F view w p" if split: "?files = as @ p # bs" "\<not> list_ex (usable F w) as" "usable F w p" for p as bs
    proof -
      have "sorted (as @ p # bs)" using split(1) by (metis sorted_sort)
      with split show ?thesis
        unfolding chosen_def cand [symmetric] by (auto simp: split(1) sorted_append list_ex_iff)
    qed
    with run fs files show ?thesis
      by (intro exI [of _ r] exI [of _ w']) (fastforce simp: loadConfList_def bnd_ext)
  qed
qed

section \<open>Installing and removing\<close>

lemma own_files: "Contains kubedtnCNIPath ''kubedtn''" "Contains interNodeLinkConf ''kubedtn''" "kubedtnCNIPath \<noteq> interNodeLinkConf"
  by code_simp+

lemma cni_Init_run:
  assumes "file_system F view" "cni_Init F w = (Done None, w')"
  shows "\<exists>p l conf plugins bytes linkType. chosen F view w p \<and> list_at F w p = Some l
    \<and> json_Unmarshal F (ncl_Bytes l) = Inr conf \<and> conf ''plugins'' = Some (JArray plugins)
    \<and> json_MarshalIndent F (with_plugin plugins conf) = Inr bytes
    \<and> view w' = (view w)(interNodeLinkConf \<mapsto> linkType, kubedtnCNIPath \<mapsto> bytes)"
proof -
  obtain r w1 where load: "loadConfList F w = (Done r, w1)" "view w1 = view w"
    "\<forall>conf. r = Inr conf \<longrightarrow> (\<exists>p l. chosen F view w p \<and> list_at F w p = Some l \<and> json_Unmarshal F (ncl_Bytes l) = Inr conf)"
    using loadConfList_run [OF assms(1)] by metis
  obtain conf plugins where conf: "r = Inr conf" "conf ''plugins'' = Some (JArray plugins)"
    and save: "check (saveInterNodeLinkConf F) (saveConfList F (with_plugin plugins conf)) w1 = (Done None, w')"
    using assms(2) load(1) by (auto simp: cni_Init_def ret_run halt_run split: sum.splits option.splits iface.splits)
  obtain w2 where w2: "saveInterNodeLinkConf F w1 = (Done None, w2)" "saveConfList F (with_plugin plugins conf) w2 = (Done None, w')"
    using save by (auto simp: check_def ret_run elim!: bnd_cases split: option.splits)
  obtain linkType w3 where env: "os_Getenv F ''INTER_NODE_LINK_TYPE'' w1 = (linkType, w3)" by fastforce
  have "WriteFile F interNodeLinkConf linkType w3 = (None, w2)"
    using w2(1) env by (cases "WriteFile F interNodeLinkConf linkType w3") (auto simp: saveInterNodeLinkConf_def bnd_ext ext_run)
  from file_systemD(1) [OF assms(1) this] file_systemD(5) [OF assms(1), of "''INTER_NODE_LINK_TYPE''" w1] env load(2)
  have v2: "view w2 = (view w)(interNodeLinkConf \<mapsto> linkType)" by simp
  obtain bytes where bytes: "json_MarshalIndent F (with_plugin plugins conf) = Inr bytes" "WriteFile F kubedtnCNIPath bytes w2 = (None, w')"
    using w2(2) by (auto simp: saveConfList_def ext_run ret_run prod_eq_iff split: sum.splits)
  from file_systemD(1) [OF assms(1) bytes(2)] v2 have "view w' = (view w)(interNodeLinkConf \<mapsto> linkType, kubedtnCNIPath \<mapsto> bytes)"
    by simp
  with load(3) conf bytes(1) show ?thesis by metis
qed

text \<open>Files of the daemon do not matter for the choice.\<close>

lemma chosen_same:
  assumes "file_system F view" "\<And>p. \<not> Contains p ''kubedtn'' \<Longrightarrow> view w p = view w2 p"
  shows "chosen F view w p \<longleftrightarrow> chosen F view w2 p"
proof -
  have cand: "candidates (view w) = candidates (view w2)" using assms(2) by (auto simp: candidates_def)
  have "usable F w q = usable F w2 q" if "q \<in> candidates (view w2)" for q
    using list_at_local [OF assms(1), of w q w2] assms(2) that by (simp add: usable_def candidates_def)
  with cand show ?thesis by (auto simp: chosen_def)
qed

lemma cni_Cleanup_run:
  assumes "file_system F view"
  shows "\<exists>w'. cni_Cleanup F w = (Done (), w')
    \<and> (\<forall>p. p \<notin> {kubedtnCNIPath, interNodeLinkConf} \<longrightarrow> view w' p = view w p)
    \<and> ((\<forall>p w. view w p \<noteq> None \<longrightarrow> fst (Remove F p w) = None) \<longrightarrow>
        view w' kubedtnCNIPath = None \<and> view w' interNodeLinkConf = None)"
proof -
  obtain r1 w1 where a: "Remove F kubedtnCNIPath w = (r1, w1)" by fastforce
  obtain r2 w2 where b: "Remove F interNodeLinkConf w1 = (r2, w2)" by fastforce
  have run: "cni_Cleanup F w = (Done (), w2)"
    using a b by (cases r2) (simp_all add: cni_Cleanup_def removeInterNodeLinkConf_def bnd_ext ret_run bnd_bnd)
  have v: "view w1 = (view w)(kubedtnCNIPath := if r1 = None then None else view w kubedtnCNIPath)"
    "view w2 = (view w1)(interNodeLinkConf := if r2 = None then None else view w1 interNodeLinkConf)"
    using file_systemD(3,4) [OF assms] a b by (cases r1; cases r2; auto)+
  have "view w2 kubedtnCNIPath = None \<and> view w2 interNodeLinkConf = None"
    if rm: "\<forall>p w. view w p \<noteq> None \<longrightarrow> fst (Remove F p w) = None"
    proof -
    have "view w kubedtnCNIPath = None \<or> r1 = None" using rm a by (metis fst_conv)
    moreover have "view w1 interNodeLinkConf = None \<or> r2 = None" using rm b by (metis fst_conv)
    ultimately show ?thesis using v own_files(3) by auto
  qed
  with run v show ?thesis by auto
qed

lemma cni_Init_cleaned:
  assumes "file_system F view" "cni_Init F w = (Done None, w1)"
  shows "\<exists>w2. cni_Cleanup F w1 = (Done (), w2)
        \<and> (\<forall>p. p \<notin> {kubedtnCNIPath, interNodeLinkConf} \<longrightarrow> view w2 p = view w p)
        \<and> ((\<forall>p w. view w p \<noteq> None \<longrightarrow> fst (Remove F p w) = None) \<longrightarrow>
             view w2 kubedtnCNIPath = None \<and> view w2 interNodeLinkConf = None)"
proof -
  have "view w1 p = view w p" if "p \<notin> {kubedtnCNIPath, interNodeLinkConf}" for p
    using cni_Init_run [OF assms] that by auto
  with cni_Cleanup_run [OF assms(1), of w1] show ?thesis by (metis (no_types, lifting))
qed

text \<open>
  A successful \<open>Init\<close> changes two files only, both its own. Into its configuration it writes the
  configuration of the first usable file of the directory, in the order of names and without its own
  files, with the version set and the plugin of the daemon appended to the plugins once.
\<close>

theorem cni_Init_installs:
  assumes "file_system F view" and "cni_Init F w = (Done None, w')"
  shows "\<exists>p l conf plugins bytes linkType. chosen F view w p \<and> list_at F w p = Some l
    \<and> json_Unmarshal F (ncl_Bytes l) = Inr conf \<and> conf ''plugins'' = Some (JArray plugins)
    \<and> json_MarshalIndent F (conf(''cniVersion'' \<mapsto> JString ''0.3.0'',
         ''plugins'' \<mapsto> JArray (plugins @ [NetConfPtr ''kubedtn'' ''kubedtn'']))) = Inr bytes
    \<and> view w' = (view w)(interNodeLinkConf \<mapsto> linkType, kubedtnCNIPath \<mapsto> bytes)"
  using cni_Init_run [OF assms] unfolding with_plugin_def defaultPluginName_def .

text \<open>
  C13: \<open>Init\<close> can be repeated: after a daemon that ended without \<open>Cleanup\<close>, the next one installs the same
  configuration again, not one with the plugin twice. \<open>Cleanup\<close> undoes \<open>Init\<close>: every other file is as it
  was before \<open>Init\<close>, and if existing files can be removed, both files of the daemon are gone.
\<close>

theorem cni_Init_Cleanup:
  assumes "file_system F view" and "cni_Init F w = (Done None, w1)"
  shows "(\<forall>w2. cni_Init F w1 = (Done None, w2) \<longrightarrow> view w2 kubedtnCNIPath = view w1 kubedtnCNIPath)
    \<and> (\<exists>w2. cni_Cleanup F w1 = (Done (), w2)
        \<and> (\<forall>p. p \<notin> {kubedtnCNIPath, interNodeLinkConf} \<longrightarrow> view w2 p = view w p)
        \<and> ((\<forall>p w. view w p \<noteq> None \<longrightarrow> fst (Remove F p w) = None) \<longrightarrow>
             view w2 kubedtnCNIPath = None \<and> view w2 interNodeLinkConf = None))"
proof
  from cni_Init_run [OF assms] obtain p l conf plugins bytes linkType where
    one: "chosen F view w p" "list_at F w p = Some l" "json_Unmarshal F (ncl_Bytes l) = Inr conf"
      "conf ''plugins'' = Some (JArray plugins)" "json_MarshalIndent F (with_plugin plugins conf) = Inr bytes"
    and v1: "view w1 = (view w)(interNodeLinkConf \<mapsto> linkType, kubedtnCNIPath \<mapsto> bytes)" by blast
  have other: "view w q = view w1 q" if "\<not> Contains q ''kubedtn''" for q
    using that v1 own_files by auto
  show "\<forall>w2. cni_Init F w1 = (Done None, w2) \<longrightarrow> view w2 kubedtnCNIPath = view w1 kubedtnCNIPath"
  proof (intro allI impI)
    fix w2
    assume "cni_Init F w1 = (Done None, w2)"
    from cni_Init_run [OF assms(1) this] obtain p' l' conf' plugins' bytes' linkType' where
      two: "chosen F view w1 p'" "list_at F w1 p' = Some l'" "json_Unmarshal F (ncl_Bytes l') = Inr conf'"
        "conf' ''plugins'' = Some (JArray plugins')" "json_MarshalIndent F (with_plugin plugins' conf') = Inr bytes'"
      and v2: "view w2 = (view w1)(interNodeLinkConf \<mapsto> linkType', kubedtnCNIPath \<mapsto> bytes')" by blast
    have "chosen F view w p'" using chosen_same [OF assms(1) other] two(1) by blast
    then have p: "p' = p" using chosen_unique one(1) by metis
    have "\<not> Contains p ''kubedtn''" using one(1) by (simp add: chosen_def candidates_def)
    with list_at_local [OF assms(1), of w p w1] other have "l' = l" using one(2) two(2) p by simp
    with one two have "bytes' = bytes" by simp
    with v1 v2 show "view w2 kubedtnCNIPath = view w1 kubedtnCNIPath" by simp
  qed
  show "\<exists>w2. cni_Cleanup F w1 = (Done (), w2)
        \<and> (\<forall>p. p \<notin> {kubedtnCNIPath, interNodeLinkConf} \<longrightarrow> view w2 p = view w p)
        \<and> ((\<forall>p w. view w p \<noteq> None \<longrightarrow> fst (Remove F p w) = None) \<longrightarrow>
             view w2 kubedtnCNIPath = None \<and> view w2 interNodeLinkConf = None)"
    by (rule cni_Init_cleaned [OF assms])
qed

section \<open>Witnesses\<close>

text \<open>Files as an association list, on which every operation succeeds and every file is a list with one plugin.\<close>

definition list_disk :: "((string \<times> string) list) conf_env" where
  "list_disk =
     \<lparr> ConfFiles = (\<lambda>dir exts w. (Inr (remdups (filter (conf_file dir exts) (map fst w))), w)),
       ConfListFromFile = (\<lambda>p w. (case map_of w p of
         None \<Rightarrow> Inl NotFound | Some b \<Rightarrow> Inr \<lparr> ncl_Plugins = 1, ncl_Bytes = b \<rparr>, w)),
       ConfFromFile = (\<lambda>p w. (case map_of w p of
         None \<Rightarrow> Inl NotFound | Some b \<Rightarrow> Inr \<lparr> nc_Type = ''bridge'', nc_Bytes = b \<rparr>, w)),
       ConfListFromConf = (\<lambda>c. Inr \<lparr> ncl_Plugins = 1, ncl_Bytes = nc_Bytes c \<rparr>),
       json_Unmarshal = (\<lambda>b. Inr [''plugins'' \<mapsto> JArray [JString b]]),
       json_MarshalIndent = (\<lambda>d. Inr (case d ''plugins'' of Some (JArray xs) \<Rightarrow> replicate (length xs) CHR ''x'' | _ \<Rightarrow> [])),
       WriteFile = (\<lambda>p b w. (None, (p, b) # w)),
       Remove = (\<lambda>p w. (None, filter (\<lambda>(q, b). q \<noteq> p) w)),
       os_Getenv = (\<lambda>n w. (''VXLAN'', w)) \<rparr>"

lemma map_of_without: "map_of (filter (\<lambda>(q, b). q \<noteq> p) w) = (map_of w)(p := None)"
  by (induction w) auto

lemma list_disk_files: "file_system list_disk map_of"
  by (auto simp: file_system_def list_disk_def map_of_without map_of_eq_None_iff image_iff split: option.splits)

definition flannel :: "(string \<times> string) list" where
  "flannel = [(''/etc/cni/net.d/10-flannel.conflist'', ''flannel'')]"

lemma conf_file_flannel: "conf_file defaultNetDir [''.conf'', ''.conflist'', ''.json''] ''/etc/cni/net.d/10-flannel.conflist''"
  unfolding conf_file_def by (rule exI [of _ "''10-flannel.conflist''"]) code_simp

lemma flannel_file: "\<not> Contains ''/etc/cni/net.d/10-flannel.conflist'' ''kubedtn''"
  "HasSuffix ''/etc/cni/net.d/10-flannel.conflist'' ''.conflist''"
  by code_simp+

lemma list_disk_load:
  assumes "other_files (remdups (filter (conf_file defaultNetDir [''.conf'', ''.conflist'', ''.json'']) (map fst w))) = [p]"
    and "map_of w p = Some b" "HasSuffix p ''.conflist''"
  shows "loadConfList list_disk w = (Done (Inr [''plugins'' \<mapsto> JArray [JString b]]), w)"
proof -
  let ?files = "remdups (filter (conf_file defaultNetDir [''.conf'', ''.conflist'', ''.json'']) (map fst w))"
  have "?files \<noteq> []" using assms(1) by (metis list.distinct(1) other_files.simps(1))
  with assms show ?thesis
    by (simp add: loadConfList_def bnd_ext list_disk_def read_list_def ret_run del: remdups_eq_nil_iff)
qed

lemma list_disk_Init:
  assumes "loadConfList list_disk w = (Done (Inr [''plugins'' \<mapsto> JArray [x]]), w)"
  shows "cni_Init list_disk w = (Done None, (kubedtnCNIPath, ''xx'') # (interNodeLinkConf, ''VXLAN'') # w)"
  using assms
  by (simp add: cni_Init_def check_def saveInterNodeLinkConf_def saveConfList_def bnd_ext ext_run with_plugin_def
      list_disk_def numeral_eq_Suc)

lemma demo_cni_Init:
  "cni_Init list_disk flannel = (Done None, (kubedtnCNIPath, ''xx'') # (interNodeLinkConf, ''VXLAN'') # flannel)"
  by (rule list_disk_Init, rule list_disk_load [of _ "''/etc/cni/net.d/10-flannel.conflist''" "''flannel''"])
    (simp_all add: flannel_def conf_file_flannel flannel_file del: Contains.simps)

lemma demo_cni_Init_again:
  "\<exists>w2. cni_Init list_disk ((kubedtnCNIPath, ''xx'') # (interNodeLinkConf, ''VXLAN'') # flannel) = (Done None, w2)"
proof -
  have "kubedtnCNIPath \<noteq> ''/etc/cni/net.d/10-flannel.conflist''" "interNodeLinkConf \<noteq> ''/etc/cni/net.d/10-flannel.conflist''"
    by code_simp+
  then have "loadConfList list_disk ((kubedtnCNIPath, ''xx'') # (interNodeLinkConf, ''VXLAN'') # flannel) =
      (Done (Inr [''plugins'' \<mapsto> JArray [JString ''flannel'']]), (kubedtnCNIPath, ''xx'') # (interNodeLinkConf, ''VXLAN'') # flannel)"
    by (intro list_disk_load [of _ "''/etc/cni/net.d/10-flannel.conflist''" "''flannel''"])
      (simp_all add: flannel_def conf_file_flannel flannel_file own_files del: Contains.simps)
  from list_disk_Init [OF this] show ?thesis by blast
qed

theorem cni_Init_installs_witness:
  "\<exists>w'. cni_Init list_disk flannel = (Done None, w')
     \<and> (\<exists>bytes linkType. map_of w' = (map_of flannel)(interNodeLinkConf \<mapsto> linkType, kubedtnCNIPath \<mapsto> bytes))"
  using demo_cni_Init cni_Init_installs [OF list_disk_files demo_cni_Init] by blast

theorem cni_Init_Cleanup_witness:
  "\<exists>w1 w2 w3. cni_Init list_disk flannel = (Done None, w1) \<and> cni_Init list_disk w1 = (Done None, w2)
     \<and> map_of w2 kubedtnCNIPath = map_of w1 kubedtnCNIPath
     \<and> cni_Cleanup list_disk w1 = (Done (), w3) \<and> map_of w3 kubedtnCNIPath = None"
proof -
  have "\<forall>p w. map_of w p \<noteq> None \<longrightarrow> fst (Remove list_disk p w) = None" by (simp add: list_disk_def)
  then show ?thesis
    using cni_Init_Cleanup [OF list_disk_files demo_cni_Init] demo_cni_Init demo_cni_Init_again by blast
qed

end
