(* ===== verification/Bindings.thy ===== *)
theory Bindings
  imports GoNet
begin

text \<open>
  \<open>bpf/redir_bpf.go\<close>, \<open>bpf/sockops_bpf.go\<close> and \<open>bpf/redir_disable_bpf.go\<close>: the bindings of the three eBPF
  collections. The package \<open>ebpf\<close> is the record \<open>'w ebpf\<close>; maps, programs and specifications are handles.
  \<open>LoadAndAssign\<close> finds the fields of its argument by their tags, so it takes and returns the tagged fields.
\<close>

section \<open>Objects\<close>

type_synonym handle = nat

type_synonym fields = "(string \<times> handle option) list"

record redirMaps =
  redir_DebugMap :: "handle option"
  redir_MapActiveEstab :: "handle option"
  redir_MapProxy :: "handle option"
  redir_MapRedir :: "handle option"

record redirPrograms =
  BpfRedirProxy :: "handle option"

record redirObjects =
  redir_programs :: redirPrograms
  redir_maps :: redirMaps

record sockopsMaps =
  sockops_DebugMap :: "handle option"
  sockops_MapActiveEstab :: "handle option"
  sockops_MapProxy :: "handle option"
  sockops_MapRedir :: "handle option"

record sockopsPrograms =
  BpfSockmap :: "handle option"

record sockopsObjects =
  sockops_programs :: sockopsPrograms
  sockops_maps :: sockopsMaps

text \<open>The collection \<open>redir_disable\<close> has no programs.\<close>

record redir_disableMaps =
  disable_DebugMap :: "handle option"
  disable_MapActiveEstab :: "handle option"
  disable_MapProxy :: "handle option"
  disable_MapRedir :: "handle option"

record redir_disableObjects =
  disable_maps :: redir_disableMaps

text \<open>The tagged fields of a structure, and the structure with new values for them.\<close>

definition assigned :: "fields \<Rightarrow> string \<Rightarrow> handle option \<Rightarrow> handle option" where
  "assigned fs tag old = (case map_of fs tag of None \<Rightarrow> old | Some v \<Rightarrow> v)"

definition redirMaps_fields :: "redirMaps \<Rightarrow> fields" where
  "redirMaps_fields m =
     [(''debug_map'', redir_DebugMap m), (''map_active_estab'', redir_MapActiveEstab m),
      (''map_proxy'', redir_MapProxy m), (''map_redir'', redir_MapRedir m)]"

definition redirPrograms_fields :: "redirPrograms \<Rightarrow> fields" where
  "redirPrograms_fields p = [(''bpf_redir_proxy'', BpfRedirProxy p)]"

definition redirObjects_fields :: "redirObjects \<Rightarrow> fields" where
  "redirObjects_fields obj = redirPrograms_fields (redir_programs obj) @ redirMaps_fields (redir_maps obj)"

definition redirObjects_assign :: "fields \<Rightarrow> redirObjects \<Rightarrow> redirObjects" where
  "redirObjects_assign fs obj =
     \<lparr> redir_programs = \<lparr> BpfRedirProxy = assigned fs ''bpf_redir_proxy'' (BpfRedirProxy (redir_programs obj)) \<rparr>,
       redir_maps =
         \<lparr> redir_DebugMap = assigned fs ''debug_map'' (redir_DebugMap (redir_maps obj)),
           redir_MapActiveEstab = assigned fs ''map_active_estab'' (redir_MapActiveEstab (redir_maps obj)),
           redir_MapProxy = assigned fs ''map_proxy'' (redir_MapProxy (redir_maps obj)),
           redir_MapRedir = assigned fs ''map_redir'' (redir_MapRedir (redir_maps obj)) \<rparr> \<rparr>"

definition sockopsMaps_fields :: "sockopsMaps \<Rightarrow> fields" where
  "sockopsMaps_fields m =
     [(''debug_map'', sockops_DebugMap m), (''map_active_estab'', sockops_MapActiveEstab m),
      (''map_proxy'', sockops_MapProxy m), (''map_redir'', sockops_MapRedir m)]"

definition sockopsPrograms_fields :: "sockopsPrograms \<Rightarrow> fields" where
  "sockopsPrograms_fields p = [(''bpf_sockmap'', BpfSockmap p)]"

definition sockopsObjects_fields :: "sockopsObjects \<Rightarrow> fields" where
  "sockopsObjects_fields obj = sockopsPrograms_fields (sockops_programs obj) @ sockopsMaps_fields (sockops_maps obj)"

definition sockopsObjects_assign :: "fields \<Rightarrow> sockopsObjects \<Rightarrow> sockopsObjects" where
  "sockopsObjects_assign fs obj =
     \<lparr> sockops_programs = \<lparr> BpfSockmap = assigned fs ''bpf_sockmap'' (BpfSockmap (sockops_programs obj)) \<rparr>,
       sockops_maps =
         \<lparr> sockops_DebugMap = assigned fs ''debug_map'' (sockops_DebugMap (sockops_maps obj)),
           sockops_MapActiveEstab = assigned fs ''map_active_estab'' (sockops_MapActiveEstab (sockops_maps obj)),
           sockops_MapProxy = assigned fs ''map_proxy'' (sockops_MapProxy (sockops_maps obj)),
           sockops_MapRedir = assigned fs ''map_redir'' (sockops_MapRedir (sockops_maps obj)) \<rparr> \<rparr>"

section \<open>Loading\<close>

record 'w ebpf =
  LoadCollectionSpecFromReader :: "byte list \<Rightarrow> 'w \<Rightarrow> (error + handle) \<times> 'w"
  LoadAndAssign :: "handle \<Rightarrow> fields \<Rightarrow> string \<Rightarrow> 'w \<Rightarrow> (error option \<times> fields) \<times> 'w"
  Program_Close :: "handle option \<Rightarrow> 'w \<Rightarrow> error option \<times> 'w"
  Map_Close :: "handle option \<Rightarrow> 'w \<Rightarrow> error option \<times> 'w"
  RedirBytes :: "byte list"
  SockopsBytes :: "byte list"
  Redir_disableBytes :: "byte list"

definition loadRedir :: "('w, 'z) ebpf_scheme \<Rightarrow> ('w, error + handle) go" where
  "loadRedir B =
     bnd (ext (LoadCollectionSpecFromReader B (RedirBytes B))) (\<lambda>r. case r of
       Inl err \<Rightarrow> ret (Inl (Wrap ''can't load redir: '' err))
     | Inr spec \<Rightarrow> ret (Inr spec))"

definition loadRedirObjects :: "('w, 'z) ebpf_scheme \<Rightarrow> fields \<Rightarrow> string \<Rightarrow> ('w, error option \<times> fields) go" where
  "loadRedirObjects B obj opts =
     bnd (loadRedir B) (\<lambda>r. case r of
       Inl err \<Rightarrow> ret (Some err, obj)
     | Inr spec \<Rightarrow> ext (LoadAndAssign B spec obj opts))"

definition loadSockops :: "('w, 'z) ebpf_scheme \<Rightarrow> ('w, error + handle) go" where
  "loadSockops B =
     bnd (ext (LoadCollectionSpecFromReader B (SockopsBytes B))) (\<lambda>r. case r of
       Inl err \<Rightarrow> ret (Inl (Wrap ''can't load sockops: '' err))
     | Inr spec \<Rightarrow> ret (Inr spec))"

definition loadSockopsObjects :: "('w, 'z) ebpf_scheme \<Rightarrow> fields \<Rightarrow> string \<Rightarrow> ('w, error option \<times> fields) go" where
  "loadSockopsObjects B obj opts =
     bnd (loadSockops B) (\<lambda>r. case r of
       Inl err \<Rightarrow> ret (Some err, obj)
     | Inr spec \<Rightarrow> ext (LoadAndAssign B spec obj opts))"

definition loadRedir_disable :: "('w, 'z) ebpf_scheme \<Rightarrow> ('w, error + handle) go" where
  "loadRedir_disable B =
     bnd (ext (LoadCollectionSpecFromReader B (Redir_disableBytes B))) (\<lambda>r. case r of
       Inl err \<Rightarrow> ret (Inl (Wrap ''can't load redir_disable: '' err))
     | Inr spec \<Rightarrow> ret (Inr spec))"

definition loadRedir_disableObjects :: "('w, 'z) ebpf_scheme \<Rightarrow> fields \<Rightarrow> string \<Rightarrow> ('w, error option \<times> fields) go" where
  "loadRedir_disableObjects B obj opts =
     bnd (loadRedir_disable B) (\<lambda>r. case r of
       Inl err \<Rightarrow> ret (Some err, obj)
     | Inr spec \<Rightarrow> ext (LoadAndAssign B spec obj opts))"

section \<open>Closing\<close>

text \<open>The first closer that fails ends the loop.\<close>

fun RedirClose :: "('w, error option) go list \<Rightarrow> ('w, error option) go" where
  "RedirClose [] = ret None"
| "RedirClose (closer # closers) =
     bnd closer (\<lambda>r. case r of Some err \<Rightarrow> ret (Some err) | None \<Rightarrow> RedirClose closers)"

definition redirMaps_Close :: "('w, 'z) ebpf_scheme \<Rightarrow> redirMaps \<Rightarrow> ('w, error option) go" where
  "redirMaps_Close B m =
     RedirClose
       [ext (Map_Close B (redir_DebugMap m)),
        ext (Map_Close B (redir_MapActiveEstab m)),
        ext (Map_Close B (redir_MapProxy m)),
        ext (Map_Close B (redir_MapRedir m))]"

definition redirPrograms_Close :: "('w, 'z) ebpf_scheme \<Rightarrow> redirPrograms \<Rightarrow> ('w, error option) go" where
  "redirPrograms_Close B p = RedirClose [ext (Program_Close B (BpfRedirProxy p))]"

definition redirObjects_Close :: "('w, 'z) ebpf_scheme \<Rightarrow> redirObjects \<Rightarrow> ('w, error option) go" where
  "redirObjects_Close B obj = RedirClose [redirPrograms_Close B (redir_programs obj), redirMaps_Close B (redir_maps obj)]"

fun SockopsClose :: "('w, error option) go list \<Rightarrow> ('w, error option) go" where
  "SockopsClose [] = ret None"
| "SockopsClose (closer # closers) =
     bnd closer (\<lambda>r. case r of Some err \<Rightarrow> ret (Some err) | None \<Rightarrow> SockopsClose closers)"

definition sockopsMaps_Close :: "('w, 'z) ebpf_scheme \<Rightarrow> sockopsMaps \<Rightarrow> ('w, error option) go" where
  "sockopsMaps_Close B m =
     SockopsClose
       [ext (Map_Close B (sockops_DebugMap m)),
        ext (Map_Close B (sockops_MapActiveEstab m)),
        ext (Map_Close B (sockops_MapProxy m)),
        ext (Map_Close B (sockops_MapRedir m))]"

definition sockopsPrograms_Close :: "('w, 'z) ebpf_scheme \<Rightarrow> sockopsPrograms \<Rightarrow> ('w, error option) go" where
  "sockopsPrograms_Close B p = SockopsClose [ext (Program_Close B (BpfSockmap p))]"

definition sockopsObjects_Close :: "('w, 'z) ebpf_scheme \<Rightarrow> sockopsObjects \<Rightarrow> ('w, error option) go" where
  "sockopsObjects_Close B obj =
     SockopsClose [sockopsPrograms_Close B (sockops_programs obj), sockopsMaps_Close B (sockops_maps obj)]"

fun Redir_disableClose :: "('w, error option) go list \<Rightarrow> ('w, error option) go" where
  "Redir_disableClose [] = ret None"
| "Redir_disableClose (closer # closers) =
     bnd closer (\<lambda>r. case r of Some err \<Rightarrow> ret (Some err) | None \<Rightarrow> Redir_disableClose closers)"

definition redir_disableMaps_Close :: "('w, 'z) ebpf_scheme \<Rightarrow> redir_disableMaps \<Rightarrow> ('w, error option) go" where
  "redir_disableMaps_Close B m =
     Redir_disableClose
       [ext (Map_Close B (disable_DebugMap m)),
        ext (Map_Close B (disable_MapActiveEstab m)),
        ext (Map_Close B (disable_MapProxy m)),
        ext (Map_Close B (disable_MapRedir m))]"

definition redir_disablePrograms_Close :: "('w, error option) go" where
  "redir_disablePrograms_Close = Redir_disableClose []"

definition redir_disableObjects_Close :: "('w, 'z) ebpf_scheme \<Rightarrow> redir_disableObjects \<Rightarrow> ('w, error option) go" where
  "redir_disableObjects_Close B obj =
     Redir_disableClose [redir_disablePrograms_Close, redir_disableMaps_Close B (disable_maps obj)]"

section \<open>Properties\<close>

text \<open>Every field has its own tag: assigning the fields of a structure to another one gives the first.\<close>

lemma redirObjects_assign_fields: "redirObjects_assign (redirObjects_fields a) b = a"
  by (simp add: redirObjects_assign_def redirObjects_fields_def redirMaps_fields_def redirPrograms_fields_def assigned_def)

lemma sockopsObjects_assign_fields: "sockopsObjects_assign (sockopsObjects_fields a) b = a"
  by (simp add: sockopsObjects_assign_def sockopsObjects_fields_def sockopsMaps_fields_def sockopsPrograms_fields_def
      assigned_def)

text \<open>The three loops are the same; closing what was closed one by one is closing it at once.\<close>

lemma Close_same: "SockopsClose cs = RedirClose cs" "Redir_disableClose cs = RedirClose cs"
  by (induction cs) (simp_all cong: option.case_cong)

lemma RedirClose_check: "RedirClose (c # cs) = check c (RedirClose cs)"
  by (simp add: check_def cong: option.case_cong)

lemma Close_stops:
  assumes "ext (Program_Close B (BpfRedirProxy (redir_programs obj))) w = (Done (Some err), w')"
  shows "redirObjects_Close B obj w = (Done (Some err), w')"
  using assms by (simp add: redirObjects_Close_def redirPrograms_Close_def bnd_def ret_run)

end
