(* ===== verification/Bypass.thy ===== *)
theory Bypass
  imports GoStrings Bindings
begin

text \<open>
  \<open>bpf/main.go\<close>: the programs that let the sockets of two pods on one host bypass the TCP/IP stack. The
  package \<open>ebpf\<close> and the system calls are the record \<open>'w kernel\<close>; maps, programs and links are handles.
\<close>

section \<open>Programs and the kernel\<close>

record BypassProgram =
  sockops_Obj :: sockopsObjects
  redir_Obj :: redirObjects
  SockopsCgroup :: "handle option"

text \<open>
  Reading the descriptor of a map that was not loaded may panic.
\<close>

record 'w kernel = "'w ebpf" +
  Setrlimit :: "'w \<Rightarrow> error option \<times> 'w"
  cgroupv2_Enabled :: "'w \<Rightarrow> (bool \<times> error option) \<times> 'w"
  MkdirAll :: "string \<Rightarrow> 'w \<Rightarrow> error option \<times> 'w"
  map_FD :: "handle option \<Rightarrow> int out"
  RawAttachProgram :: "int \<Rightarrow> handle option \<Rightarrow> 'w \<Rightarrow> error option \<times> 'w"
  RawDetachProgram :: "int \<Rightarrow> handle option \<Rightarrow> 'w \<Rightarrow> error option \<times> 'w"
  AttachCgroup :: "string \<Rightarrow> handle option \<Rightarrow> 'w \<Rightarrow> (error + handle) \<times> 'w"
  link_Close :: "handle \<Rightarrow> 'w \<Rightarrow> 'w"
  map_Unpin :: "handle \<Rightarrow> 'w \<Rightarrow> 'w"
  Stat :: "string \<Rightarrow> 'w \<Rightarrow> error option \<times> 'w"
  Statfs :: "string \<Rightarrow> 'w \<Rightarrow> (error + int) \<times> 'w"
  Mount :: "string \<Rightarrow> 'w \<Rightarrow> error option \<times> 'w"

definition MapsRoot :: string where
  "MapsRoot = ''/sys/fs/bpf''"

definition MapsPinpath :: string where
  "MapsPinpath = ''/sys/fs/bpf/tc/globals''"

text \<open>\<open>unix.BPF_FS_MAGIC\<close>\<close>

definition FilesystemTypeBPFFS :: int where
  "FilesystemTypeBPFFS = 0xCAFE4A11"

section \<open>Loading and closing\<close>

definition SetLimit :: "'w kernel \<Rightarrow> ('w, error option) go" where
  "SetLimit K = ext (Setrlimit K)"

definition getCgroupPath :: "'w kernel \<Rightarrow> ('w, error + string) go" where
  "getCgroupPath K =
     bnd (ext (cgroupv2_Enabled K)) (\<lambda>(enabled, err).
     let cgroupPath = ''/sys/fs/cgroup'';
         cgroupPath = (if \<not> enabled then filepath_Join [cgroupPath, ''unified''] else cgroupPath)
     in ret (case err of Some e \<Rightarrow> Inl e | None \<Rightarrow> Inr cgroupPath))"

definition descriptor :: "'w kernel \<Rightarrow> handle option \<Rightarrow> ('w, int) go" where
  "descriptor K m = (\<lambda>w. (map_FD K m, w))"

text \<open>
  Attaching to the control group is inside an \<open>if\<close> statement that declares a new variable \<open>err\<close>; the
  outer one, which is returned, keeps the result of \<open>loadSockopsObjects\<close>.
\<close>

definition attach_cgroup :: "'w kernel \<Rightarrow> BypassProgram \<Rightarrow> ('w, BypassProgram) go" where
  "attach_cgroup K prog =
     bnd (getCgroupPath K) (\<lambda>r. case r of
       Inl err \<Rightarrow> ret prog
     | Inr cgroupPath \<Rightarrow>
         bnd (ext (AttachCgroup K cgroupPath (BpfSockmap (sockops_programs (sockops_Obj prog))))) (\<lambda>r.
         ret (prog\<lparr> SockopsCgroup := (case r of Inl err \<Rightarrow> None | Inr l \<Rightarrow> Some l) \<rparr>)))"

definition LoadProgram :: "'w kernel \<Rightarrow> BypassProgram \<Rightarrow> ('w, BypassProgram \<times> error option) go" where
  "LoadProgram K prog =
     bnd (ext (MkdirAll K MapsPinpath)) (\<lambda>_.
     bnd (loadRedirObjects K (redirObjects_fields (redir_Obj prog)) MapsPinpath) (\<lambda>(_, fs).
     let prog = prog\<lparr> redir_Obj := redirObjects_assign fs (redir_Obj prog) \<rparr>
     in bnd (descriptor K (redir_MapRedir (redir_maps (redir_Obj prog)))) (\<lambda>target.
        bnd (ext (RawAttachProgram K target (BpfRedirProxy (redir_programs (redir_Obj prog))))) (\<lambda>_.
        bnd (loadSockopsObjects K (sockopsObjects_fields (sockops_Obj prog)) MapsPinpath) (\<lambda>(err, fs).
        bnd (attach_cgroup K (prog\<lparr> sockops_Obj := sockopsObjects_assign fs (sockops_Obj prog) \<rparr>)) (\<lambda>prog.
        ret (prog, err)))))))"

definition close_map :: "'w kernel \<Rightarrow> handle option \<Rightarrow> ('w, unit) go" where
  "close_map K m =
     (case m of None \<Rightarrow> ret () | Some h \<Rightarrow> modify (\<lambda>w. snd (Map_Close K m (map_Unpin K h w))))"

definition CloseProgram :: "'w kernel \<Rightarrow> BypassProgram \<Rightarrow> ('w, unit) go" where
  "CloseProgram K prog =
     bnd (case SockopsCgroup prog of None \<Rightarrow> ret () | Some l \<Rightarrow> modify (link_Close K l)) (\<lambda>_.
     bnd (if BpfRedirProxy (redir_programs (redir_Obj prog)) \<noteq> None
          then bnd (descriptor K (redir_MapRedir (redir_maps (redir_Obj prog)))) (\<lambda>target.
               bnd (ext (RawDetachProgram K target (BpfRedirProxy (redir_programs (redir_Obj prog))))) (\<lambda>_. ret ()))
          else ret ()) (\<lambda>_.
     bnd (close_map K (sockops_MapActiveEstab (sockops_maps (sockops_Obj prog)))) (\<lambda>_.
     bnd (close_map K (sockops_MapProxy (sockops_maps (sockops_Obj prog)))) (\<lambda>_.
     bnd (close_map K (sockops_MapRedir (sockops_maps (sockops_Obj prog)))) (\<lambda>_.
     close_map K (sockops_DebugMap (sockops_maps (sockops_Obj prog))))))))"

definition CheckOrMountBPFFSDefault :: "'w kernel \<Rightarrow> ('w, error option) go" where
  "CheckOrMountBPFFSDefault K =
     bnd (ext (Stat K MapsRoot)) (\<lambda>err.
     check (if err = Some NotFound
            then bnd (ext (MkdirAll K MapsRoot)) (\<lambda>r. case r of
                   Some err \<Rightarrow> ret (Some (Wrap ''unable to create bpf mount directory: '' err))
                 | None \<Rightarrow> ret None)
            else ret None)
       (bnd (ext (Statfs K MapsRoot)) (\<lambda>r. case r of
          Inl err \<Rightarrow> ret (Some (Wrap (''statfs '' @ MapsRoot @ '': '') err))
        | Inr fstype \<Rightarrow>
            if fstype = FilesystemTypeBPFFS then ret None
            else bnd (ext (Mount K MapsRoot)) (\<lambda>r. case r of
                   Some err \<Rightarrow> ret (Some (Wrap (''failed to mount '' @ MapsRoot @ '': '') err))
                 | None \<Rightarrow> ret None))))"

section \<open>What loading reports\<close>

text \<open>
  The error \<open>LoadProgram\<close> returns is that of loading the objects of the socket program and no other.
  Whenever these objects load, it reports success, even if the directory cannot be made, the redirect
  program is not loaded or attached, or the socket program is not attached to the control group.
\<close>

theorem LoadProgram_reports:
  assumes "LoadProgram K prog w = (Done (prog', err), w')" and "SockopsCgroup prog = None"
  shows "(\<exists>w1 w2 fs. loadSockopsObjects K (sockopsObjects_fields (sockops_Obj prog)) MapsPinpath w1 = (Done (err, fs), w2)
      \<and> sockops_Obj prog' = sockopsObjects_assign fs (sockops_Obj prog))
    \<and> ((\<forall>path program w. \<exists>e. fst (AttachCgroup K path program w) = Inl e) \<longrightarrow> SockopsCgroup prog' = None)"
proof -
  have attach: "SockopsCgroup q = None"
    if "attach_cgroup K p w = (Done q, w')" "SockopsCgroup p = None"
      "\<forall>path program w. \<exists>e. fst (AttachCgroup K path program w) = Inl e" for p q w w'
    using that by (auto simp: attach_cgroup_def bnd_ext ret_run elim!: bnd_cases split: sum.splits) (metis sum.distinct(1))
  have objs: "sockops_Obj q = sockops_Obj p" if "attach_cgroup K p w = (Done q, w')" for p q w w'
    using that by (auto simp: attach_cgroup_def ret_run elim!: bnd_cases split: sum.splits)
  from assms(1) obtain redir w1 fs w2
    where "loadSockopsObjects K (sockopsObjects_fields (sockops_Obj prog)) MapsPinpath w1 = (Done (err, fs), w2)"
    and cgroup: "attach_cgroup K (prog\<lparr> redir_Obj := redir, sockops_Obj := sockopsObjects_assign fs (sockops_Obj prog) \<rparr>) w2
      = (Done prog', w')"
    by (auto simp: LoadProgram_def Let_def ret_run elim!: bnd_cases)
  with attach [OF cgroup] objs [OF cgroup] assms(2) show ?thesis by auto
qed

section \<open>Witness\<close>

text \<open>A kernel on which nothing but loading works.\<close>

definition no_cgroup :: "unit kernel" where
  "no_cgroup =
     \<lparr> LoadCollectionSpecFromReader = (\<lambda>bs w. (Inr (length bs), w)),
       LoadAndAssign = (\<lambda>spec fs opts w. ((None, map (\<lambda>(tag, h). (tag, Some spec)) fs), w)),
       Program_Close = (\<lambda>h w. (None, w)), Map_Close = (\<lambda>h w. (None, w)),
       RedirBytes = [1], SockopsBytes = [1, 2], Redir_disableBytes = [],
       Setrlimit = (\<lambda>w. (None, w)), cgroupv2_Enabled = (\<lambda>w. ((True, None), w)), MkdirAll = (\<lambda>p w. (Some NotFound, w)),
       map_FD = (\<lambda>m. case m of None \<Rightarrow> Abort (Panic ''nil pointer dereference'') | Some h \<Rightarrow> Done (int h)),
       RawAttachProgram = (\<lambda>t p w. (Some NotFound, w)), RawDetachProgram = (\<lambda>t p w. (None, w)),
       AttachCgroup = (\<lambda>p h w. (Inl NotFound, w)), link_Close = (\<lambda>h w. w), map_Unpin = (\<lambda>h w. w),
       Stat = (\<lambda>p w. (None, w)), Statfs = (\<lambda>p w. (Inr FilesystemTypeBPFFS, w)),
       Mount = (\<lambda>p w. (None, w)) \<rparr>"

definition no_program :: BypassProgram where
  "no_program =
     \<lparr> sockops_Obj =
         \<lparr> sockops_programs = \<lparr> BpfSockmap = None \<rparr>,
           sockops_maps = \<lparr> sockops_DebugMap = None, sockops_MapActiveEstab = None, sockops_MapProxy = None,
             sockops_MapRedir = None \<rparr> \<rparr>,
       redir_Obj =
         \<lparr> redir_programs = \<lparr> BpfRedirProxy = None \<rparr>,
           redir_maps = \<lparr> redir_DebugMap = None, redir_MapActiveEstab = None, redir_MapProxy = None, redir_MapRedir = None \<rparr> \<rparr>,
       SockopsCgroup = None \<rparr>"

theorem LoadProgram_reports_witness:
  "\<exists>prog'. LoadProgram no_cgroup no_program () = (Done (prog', None), ()) \<and> SockopsCgroup prog' = None"
proof -
  have "\<exists>prog'. LoadProgram no_cgroup no_program () = (Done (prog', None), ())"
    by (simp add: LoadProgram_def attach_cgroup_def getCgroupPath_def descriptor_def no_cgroup_def no_program_def bnd_ext bnd_def
        loadRedirObjects_def loadRedir_def loadSockopsObjects_def loadSockops_def redirObjects_fields_def redirMaps_fields_def
        redirPrograms_fields_def redirObjects_assign_def assigned_def ext_run ret_run)
  then obtain prog' where run: "LoadProgram no_cgroup no_program () = (Done (prog', None), ())" by blast
  have "SockopsCgroup no_program = None" "\<forall>path program w. \<exists>e. fst (AttachCgroup no_cgroup path program w) = Inl e"
    by (simp_all add: no_program_def no_cgroup_def)
  with LoadProgram_reports [OF run] run show ?thesis by blast
qed

end
