(* ===== verification/Process.thy ===== *)
theory Process
  imports Startup CniConfig Bypass
begin

text \<open>
  \<open>daemon/main.go\<close>: the life of the daemon process. Its state is the disk with the CNI configuration and
  the daemon; the disk is a component of its own since nothing but \<open>cni.Init\<close> and \<open>cni.Cleanup\<close> touches
  these files. Logging and the HTTP endpoint of the metrics, which runs in a goroutine of its own, are
  not modelled. \<open>'w process\<close> holds the parsing of the command line and the gRPC server, which serves
  requests until it returns.
\<close>

section \<open>Numbers from the environment\<close>

text \<open>\<open>strconv.Atoi\<close>: an optional sign and decimal digits, in the range of a 64-bit integer.\<close>

definition Atoi :: "string \<Rightarrow> error + int64" where
  "Atoi s =
     (let neg = (s \<noteq> [] \<and> hd s = CHR ''-'');
          digits = (if s \<noteq> [] \<and> (hd s = CHR ''-'' \<or> hd s = CHR ''+'') then tl s else s);
          n = int (dec_val digits)
      in if digits = [] \<or> \<not> list_all is_digit digits then Inl (Errorf ''invalid syntax'')
         else if (if neg then n > 2 ^ 63 else n \<ge> 2 ^ 63) then Inl (Errorf ''value out of range'')
         else Inr (word_of_int (if neg then - n else n)))"

section \<open>Ways to end\<close>

text \<open>\<open>main\<close> returns, or \<open>os.Exit\<close> ends the process; then deferred functions do not run.\<close>

datatype ending = Returned | Exited nat

definition deferred :: "('s, unit) go \<Rightarrow> ('s, ending) go \<Rightarrow> ('s, ending) go" where
  "deferred f body = (\<lambda>s. case body s of
      (Done Returned, t) \<Rightarrow> bnd f (\<lambda>_. ret Returned) t
    | (Done (Exited n), t) \<Rightarrow> (Done (Exited n), t)
    | (Abort (Panic msg), t) \<Rightarrow> bnd f (\<lambda>_. halt (Panic msg)) t
    | (Abort x, t) \<Rightarrow> (Abort x, t))"

section \<open>The process\<close>

type_synonym ('f, 'w) machine = "'f \<times> 'w daemon"

definition on_disk :: "('f, 'a) go \<Rightarrow> (('f, 'w) machine, 'a) go" where
  "on_disk m = zoom fst (\<lambda>f (_, d). (f, d)) m"

definition in_daemon :: "('w daemon, 'a) go \<Rightarrow> (('f, 'w) machine, 'a) go" where
  "in_daemon m = zoom snd (\<lambda>d (f, _). (f, d)) m"

text \<open>
  Why \<open>flag.Parse\<close> stops, and the code with which it then ends the process: the flag set of the command
  line exits with 0 if \<open>-h\<close> or \<open>-help\<close> is given, and with 2 for every other error.
\<close>

datatype flag_error = ErrHelp | FlagError error

definition flag_exit :: "flag_error \<Rightarrow> nat" where
  "flag_exit e = (case e of ErrHelp \<Rightarrow> 0 | FlagError err \<Rightarrow> 2)"

record 'w process =
  flag_Parse :: "'w \<Rightarrow> flag_error option \<times> 'w"
  grpc_Serve :: "'w daemon \<Rightarrow> error option \<times> 'w daemon"

definition grpc_port :: "string \<Rightarrow> int64 out" where
  "grpc_port env =
     (case Atoi env of
        Inr port \<Rightarrow>
          if port \<noteq> 0 then Done port
          else (case Atoi DefaultPort of Inr port \<Rightarrow> Done port | Inl err \<Rightarrow> Abort (Panic ''Failed to parse default port''))
      | Inl err \<Rightarrow>
          (case Atoi DefaultPort of Inr port \<Rightarrow> Done port | Inl err \<Rightarrow> Abort (Panic ''Failed to parse default port'')))"

text \<open>\<open>kubedtn.New\<close> and \<open>Serve\<close>.\<close>

definition create_and_serve :: "'w env \<Rightarrow> 'w boot \<Rightarrow> 'w process \<Rightarrow> Config \<Rightarrow> ('w daemon, ending) go" where
  "create_and_serve E B P cfg =
     bnd (New E B cfg) (\<lambda>err.
     if err \<noteq> None then ret (Exited 1)
     else bnd (ext (grpc_Serve P)) (\<lambda>err. if err \<noteq> None then ret (Exited 1) else ret Returned))"

text \<open>The bypass programs are closed when \<open>main\<close> returns; a step of their set-up that fails ends it.\<close>

definition with_bypass :: "'w kernel \<Rightarrow> ('w daemon, ending) go \<Rightarrow> ('w daemon, ending) go" where
  "with_bypass K body =
     bnd (hosted (CheckOrMountBPFFSDefault K)) (\<lambda>err.
     if err \<noteq> None then ret Returned
     else bnd (hosted (SetLimit K)) (\<lambda>err.
     if err \<noteq> None then ret Returned
     else bnd (hosted (LoadProgram K no_program)) (\<lambda>(prog, err).
     if err \<noteq> None then ret Returned
     else deferred (hosted (CloseProgram K prog)) body)))"

definition daemon_body :: "'w env \<Rightarrow> 'w boot \<Rightarrow> 'w kernel \<Rightarrow> 'w process \<Rightarrow> ('w daemon, ending) go" where
  "daemon_body E B K P =
     bnd (hosted (ext (Getenv B ''GRPC_PORT''))) (\<lambda>env.
     bnd (\<lambda>d. (grpc_port env, d)) (\<lambda>port.
     bnd (hosted (ext (Getenv B ''HTTP_ADDR''))) (\<lambda>httpAddr.
     bnd (hosted (ext (flag_Parse P))) (\<lambda>err. case err of
       Some e \<Rightarrow> ret (Exited (flag_exit e))
     | None \<Rightarrow> bnd (hosted (ext (Getenv B ''TCPIP_BYPASS''))) (\<lambda>bypass.
       let body = create_and_serve E B P \<lparr> Port = port, cfg_TCPIPBypass = (bypass = ''1'') \<rparr>
       in if bypass = ''1'' then with_bypass K body else body)))))"

definition daemon_main ::
  "'f conf_env \<Rightarrow> 'w env \<Rightarrow> 'w boot \<Rightarrow> 'w kernel \<Rightarrow> 'w process \<Rightarrow> (('f, 'w) machine, ending) go" where
  "daemon_main F E B K P =
     bnd (on_disk (cni_Init F)) (\<lambda>err.
     if err \<noteq> None then ret (Exited 1)
     else deferred (on_disk (cni_Cleanup F)) (in_daemon (daemon_body E B K P)))"

section \<open>What the process leaves behind\<close>

lemma grpc_port_default: "grpc_port env = Done (case Atoi env of Inr port \<Rightarrow> if port \<noteq> 0 then port else 51111 | Inl _ \<Rightarrow> 51111)"
proof -
  have "Atoi DefaultPort = Inr 51111"
    by (simp add: Atoi_def DefaultPort_def dec_val_def is_digit_def digit_val_def Let_def)
  then show ?thesis by (simp add: grpc_port_def split: sum.splits)
qed

lemma deferred_exits: "deferred f body s = (Done (Exited n), t) \<Longrightarrow> body s = (Done (Exited n), t)"
  by (cases "body s")
    (auto simp: deferred_def ret_run halt_run split: out.splits ending.splits abort.splits elim!: bnd_cases)

lemma daemon_body_exits:
  assumes "daemon_body E B K P d = (Done (Exited n), d')"
  shows "n = 1 \<or> (\<exists>e w w'. flag_Parse P w = (Some e, w') \<and> n = flag_exit e)"
proof -
  have serve: "create_and_serve E B P cfg d = (Done (Exited n), d') \<Longrightarrow> n = 1" for cfg d d'
    by (auto simp: create_and_serve_def ret_run split: if_splits elim!: bnd_cases)
  have bypass: "with_bypass K body d = (Done (Exited n), d') \<Longrightarrow> \<exists>d d'. body d = (Done (Exited n), d')" for body d d'
    by (auto simp: with_bypass_def ret_run split: if_splits elim!: bnd_cases dest!: deferred_exits) blast+
  have parse: "\<exists>w w'. flag_Parse P w = (a, w')" if "hosted (ext (flag_Parse P)) d = (Done a, d')" for a d d'
    using that by (cases "flag_Parse P (world d)") (auto simp: hosted_def zoom_run ext_run)
  show ?thesis
    using assms
    by (auto simp: daemon_body_def Let_def ret_run split: if_splits option.splits elim!: bnd_cases
        dest!: serve bypass) (use parse in blast)
qed


section \<open>Witness\<close>

definition stuck_process :: "unit process" where
  "stuck_process = \<lparr> flag_Parse = (\<lambda>w. (None, w)), grpc_Serve = (\<lambda>d. (Some (ExtError ''accept tcp''), d)) \<rparr>"


end
