(* ===== verification/Manager.thy ===== *)
theory Manager
  imports Process Controller
begin

text \<open>
  \<open>main.go\<close>: the controller manager. It registers the reconciler and two probes and serves until it is
  stopped. The command line and the packages \<open>runtime\<close> and \<open>controller-runtime\<close> are the record
  \<open>('w, 'm) ctrl\<close>; \<open>'m\<close> is a manager.
\<close>

section \<open>Starting the manager\<close>

record manager_flags =
  metricsAddr :: string
  probeAddr :: string
  enableLeaderElection :: bool

record manager_options =
  mo_MetricsBindAddress :: string
  mo_Port :: nat
  mo_HealthProbeBindAddress :: string
  mo_LeaderElection :: bool
  mo_LeaderElectionID :: string

record controller_options =
  co_For :: string
  co_MaxConcurrentReconciles :: nat

datatype probe = Ping

record ('w, 'm) ctrl =
  clientgoscheme_AddToScheme :: "'w \<Rightarrow> error option \<times> 'w"
  v1_AddToScheme :: "'w \<Rightarrow> error option \<times> 'w"
  flag_Parse :: "manager_flags \<Rightarrow> 'w \<Rightarrow> (flag_error + manager_flags) \<times> 'w"
  GetConfig :: "'w \<Rightarrow> error option \<times> 'w"
  NewManager :: "manager_options \<Rightarrow> 'w \<Rightarrow> (error + 'm) \<times> 'w"
  mgr_Complete :: "'m \<Rightarrow> controller_options \<Rightarrow> (string \<times> string \<Rightarrow> ('w, error option) go) \<Rightarrow> 'w \<Rightarrow> error option \<times> 'w"
  mgr_GetClient :: "'m \<Rightarrow> 'w cluster"
  mgr_AddHealthzCheck :: "'m \<Rightarrow> string \<Rightarrow> probe \<Rightarrow> 'w \<Rightarrow> error option \<times> 'w"
  mgr_AddReadyzCheck :: "'m \<Rightarrow> string \<Rightarrow> probe \<Rightarrow> 'w \<Rightarrow> error option \<times> 'w"
  mgr_Start :: "'m \<Rightarrow> 'w \<Rightarrow> error option \<times> 'w"

text \<open>\<open>utilruntime.Must\<close>\<close>

definition Must :: "('w, error option) go \<Rightarrow> ('w, unit) go" where
  "Must m = bnd m (\<lambda>r. case r of Some err \<Rightarrow> halt (Panic ''Must'') | None \<Rightarrow> ret ())"

definition manager_init :: "('w, 'm) ctrl \<Rightarrow> ('w, unit) go" where
  "manager_init C =
     bnd (Must (ext (clientgoscheme_AddToScheme C))) (\<lambda>_.
     Must (ext (v1_AddToScheme C)))"

definition default_flags :: manager_flags where
  "default_flags = \<lparr> metricsAddr = '':8080'', probeAddr = '':8081'', enableLeaderElection = False \<rparr>"

definition options_of :: "manager_flags \<Rightarrow> manager_options" where
  "options_of f =
     \<lparr> mo_MetricsBindAddress = metricsAddr f,
       mo_Port = 9443,
       mo_HealthProbeBindAddress = probeAddr f,
       mo_LeaderElection = enableLeaderElection f,
       mo_LeaderElectionID = ''ac2ba29f.y-young.github.io'' \<rparr>"

definition SetupWithManager :: "('w, 'm) ctrl \<Rightarrow> 'm \<Rightarrow> (string \<times> string \<Rightarrow> ('w, error option) go) \<Rightarrow> ('w, error option) go" where
  "SetupWithManager C mgr reconcile =
     ext (mgr_Complete C mgr \<lparr> co_For = ''Topology'', co_MaxConcurrentReconciles = 32 \<rparr> reconcile)"

text \<open>\<open>if err := ...; err != nil { ...; os.Exit(1) }\<close>; \<open>ctrl.GetConfigOrDie\<close> does the same.\<close>

definition or_exit :: "('w, error option) go \<Rightarrow> ('w, ending) go \<Rightarrow> ('w, ending) go" where
  "or_exit m f = bnd m (\<lambda>r. case r of Some err \<Rightarrow> ret (Exited 1) | None \<Rightarrow> f)"

definition manager_main :: "('w, 'm) ctrl \<Rightarrow> ('w, ending) go" where
  "manager_main C =
     bnd (ext (flag_Parse C default_flags)) (\<lambda>r. case r of
       Inl e \<Rightarrow> ret (Exited (flag_exit e))
     | Inr flags \<Rightarrow>
         or_exit (ext (GetConfig C))
        (bnd (ext (NewManager C (options_of flags))) (\<lambda>r. case r of
           Inl err \<Rightarrow> ret (Exited 1)
         | Inr mgr \<Rightarrow>
             or_exit (SetupWithManager C mgr (Reconcile (mgr_GetClient C mgr)))
            (or_exit (ext (mgr_AddHealthzCheck C mgr ''healthz'' Ping))
            (or_exit (ext (mgr_AddReadyzCheck C mgr ''readyz'' Ping))
            (or_exit (ext (mgr_Start C mgr))
            (ret Returned)))))))"

section \<open>What the manager serves\<close>

text \<open>The requests of the manager, logged.\<close>

datatype 'm manager_event =
    EvController 'm controller_options "error option"
  | EvHealthz 'm string "error option"
  | EvReadyz 'm string "error option"
  | EvStart 'm "error option"

definition logging_ctrl :: "('w, 'm) ctrl \<Rightarrow> ('m \<Rightarrow> ('w \<times> 'm manager_event list) cluster) \<Rightarrow>
    (string \<times> string \<Rightarrow> ('w, error option) go) \<Rightarrow> ('w \<times> 'm manager_event list, 'm) ctrl" where
  "logging_ctrl C client reconcile =
     \<lparr> clientgoscheme_AddToScheme = asking (clientgoscheme_AddToScheme C),
       v1_AddToScheme = asking (v1_AddToScheme C),
       flag_Parse = (\<lambda>f. asking (flag_Parse C f)),
       GetConfig = asking (GetConfig C),
       NewManager = (\<lambda>opts. asking (NewManager C opts)),
       mgr_Complete = (\<lambda>m opts r. changing (EvController m opts) (mgr_Complete C m opts reconcile)),
       mgr_GetClient = client,
       mgr_AddHealthzCheck = (\<lambda>m name p. changing (EvHealthz m name) (mgr_AddHealthzCheck C m name p)),
       mgr_AddReadyzCheck = (\<lambda>m name p. changing (EvReadyz m name) (mgr_AddReadyzCheck C m name p)),
       mgr_Start = (\<lambda>m. changing (EvStart m) (mgr_Start C m)) \<rparr>"

lemma emits_or_exit_changing:
  assumes "emits f (\<lambda>r e. P r (ev None # e))" "\<And>err. P (Done (Exited 1)) [ev (Some err)]"
  shows "emits (or_exit (ext (changing ev g)) f) P"
  unfolding or_exit_def using assms by (auto intro!: emits_bnd_changing emits_ret split: option.splits)

lemma emits_or_exit_asking:
  assumes "emits f P" "P (Done (Exited 1)) []"
  shows "emits (or_exit (ext (asking g)) f) P"
  unfolding or_exit_def using assms by (auto intro!: emits_bnd_asking emits_ret split: option.splits)


section \<open>Witness\<close>

text \<open>An empty cluster, and a machine on which every step succeeds.\<close>

definition empty_kube :: "'w cluster" where
  "empty_kube =
     \<lparr> cl_Get = (\<lambda>req w. (Inl NotFound, w)), cl_StatusUpdate = (\<lambda>t w. (Some NotFound, w)),
       cl_rpc = \<lparr> rpc_Dial = (\<lambda>u w. (None, w)),
                  rpc_AddLinks = (\<lambda>u q w. (Inr True, w)), rpc_DelLinks = (\<lambda>u q w. (Inr True, w)),
                  rpc_UpdateLinks = (\<lambda>u q w. (Inr True, w)), rpc_SetupPod = (\<lambda>u q. ret (Inr True)),
                  rpc_DestroyPod = (\<lambda>u q. ret (Inr True)) \<rparr>,
       cl_retry = (\<lambda>f. f) \<rparr>"

definition quiet_ctrl :: "(unit, unit) ctrl" where
  "quiet_ctrl =
     \<lparr> clientgoscheme_AddToScheme = (\<lambda>w. (None, w)), v1_AddToScheme = (\<lambda>w. (None, w)), flag_Parse = (\<lambda>f w. (Inr f, w)),
       GetConfig = (\<lambda>w. (None, w)),
       NewManager = (\<lambda>opts w. (Inr (), w)), mgr_Complete = (\<lambda>m opts r w. (None, w)), mgr_GetClient = (\<lambda>m. empty_kube),
       mgr_AddHealthzCheck = (\<lambda>m name p w. (None, w)), mgr_AddReadyzCheck = (\<lambda>m name p w. (None, w)),
       mgr_Start = (\<lambda>m w. (None, w)) \<rparr>"


end
