(* ===== verification/Tool.thy ===== *)
theory Tool
  imports Vxlan
begin

text \<open>
  \<open>cmd/main.go\<close>: the tool that connects an interface of a physical host to a pod. It reads a link as the
  pod sees it from a YAML file and creates the other end in the network namespace of the host. The
  YAML decoder and the file are the record \<open>'w files\<close>; \<open>log.Fatalf\<close> ends the process.
\<close>

record Query =
  q_Link :: pb_Link
  q_RemoteIP :: string

record 'w files =
  ReadFile :: "string \<Rightarrow> 'w \<Rightarrow> (error + string) \<times> 'w"
  yaml_Unmarshal :: "string \<Rightarrow> error + Query"

definition tool_spec :: "pb_Link \<Rightarrow> string \<Rightarrow> VxlanSpec" where
  "tool_spec link peerVtep =
     \<lparr> vs_NetNs = [], vs_IntfName = pb_peer_intf link, vs_IntfIp = pb_peer_ip link, vs_PeerVtep = peerVtep,
       vs_Vni = GetVniFromUid (pb_uid link), vs_SrcIp = [], vs_SrcIntf = [] \<rparr>"

definition tool_addLink :: "'w netlib \<Rightarrow> pb_Link \<Rightarrow> string \<Rightarrow> string \<Rightarrow> ('w, error option) go" where
  "tool_addLink N link srcIntf peerVtep = SetupVxLan N None (tool_spec link peerVtep) (pb_properties link)"

text \<open>
  The interface and the address for the tunnel. The functions that find them return the address first
  and the interface second.
\<close>

definition tool_source :: "'w netlib \<Rightarrow> string \<Rightarrow> string \<Rightarrow> ('w, string \<times> string) go" where
  "tool_source N intf ip =
     (if intf = [] \<and> ip = [] then
        bnd (GetDefaultVxlanSource N) (\<lambda>r. case r of
          Inl err \<Rightarrow> halt (Fatal ''Failed to get default vxlan source'')
        | Inr (intf, ip) \<Rightarrow> ret (intf, ip))
      else if intf = [] then
        bnd (GetVxlanSource N ip) (\<lambda>r. case r of
          Inl err \<Rightarrow> halt (Fatal ''Failed to get vxlan source with IP'')
        | Inr (intf, _) \<Rightarrow> ret (intf, ip))
      else ret (intf, ip))"

definition tool_main :: "'w netlib \<Rightarrow> 'w files \<Rightarrow> string \<Rightarrow> string \<Rightarrow> string \<Rightarrow> ('w, error option) go" where
  "tool_main N T intf ip path =
     (if path = [] then halt (Fatal ''Please provide a path to a yaml file'')
      else bnd (ext (ReadFile T path)) (\<lambda>r. case r of
        Inl err \<Rightarrow> halt (Fatal ''Failed to read configuration'')
      | Inr file \<Rightarrow>
          (case yaml_Unmarshal T file of
             Inl err \<Rightarrow> halt (Fatal ''Failed to parse configuration'')
           | Inr query \<Rightarrow>
               let link = q_Link query; pseudoPod = pb_peer_pod link
               in if HasPrefix pseudoPod ''physical/''
                  then bnd (tool_source N intf (TrimPrefix pseudoPod ''physical/'')) (\<lambda>(intf, ip).
                         if intf = [] \<or> ip = [] then halt (Fatal ''Failed to get vxlan source, please specify manually'')
                         else tool_addLink N link intf (q_RemoteIP query))
                  else halt (Fatal ''Peer pod name should begin with physical/''))))"

text \<open>
  The options \<open>-i\<close> and \<open>-a\<close> of the tool do not choose the source of the tunnel. Whatever interface and
  local address are given, the tool does the same as for any other interface and address, and the
  tunnel is created over the source of the default route; the address has no effect either if no
  interface is given.
\<close>

theorem tool_ignores_source:
  assumes "intf = [] \<longleftrightarrow> intf' = []"
  shows "tool_main N T intf ip path = tool_main N T intf' ip' path
    \<and> vxlan_source N (tool_spec link peerVtep) = GetDefaultVxlanSource N"
proof
  show "vxlan_source N (tool_spec link peerVtep) = GetDefaultVxlanSource N"
    by (simp add: vxlan_source_def tool_spec_def)
  show "tool_main N T intf ip path = tool_main N T intf' ip' path"
  proof (cases "intf = []")
    case True
    with assms show ?thesis by (simp add: tool_main_def)
  next
    case False
    with assms have "tool_source N intf a = ret (intf, a)" "tool_source N intf' a = ret (intf', a)" for a
      by (simp_all add: tool_source_def)
    with False assms show ?thesis
      by (intro HOL.ext) (auto simp: tool_main_def tool_addLink_def bnd_ext Let_def split: sum.splits)
  qed
qed

text \<open>A host with a default route over \<open>ens3\<close>.\<close>

definition physical_query :: Query where
  "physical_query =
     \<lparr> q_Link = \<lparr> pb_peer_pod = ''physical/10.0.0.9'', pb_local_intf = ''eth1'', pb_peer_intf = ''vx0'', pb_local_ip = [],
         pb_peer_ip = [], pb_local_mac = [], pb_peer_mac = [], pb_uid = 1, pb_properties = None \<rparr>,
       q_RemoteIP = ''10.0.0.1'' \<rparr>"

definition demo_files :: "'w files" where
  "demo_files = \<lparr> ReadFile = (\<lambda>p w. (Inr ''link'', w)), yaml_Unmarshal = (\<lambda>b. Inr physical_query) \<rparr>"

definition routed_host :: "unit netlib" where
  "routed_host = quiet_host\<lparr> nl_RouteGet := (\<lambda>a w. (([(''10.0.0.2'', 1)], None), w)) \<rparr>"

theorem tool_ignores_source_witness:
  "tool_main routed_host demo_files ''eth0'' [] ''link.yaml'' =
     tool_main routed_host demo_files ''eth1'' ''10.0.0.9'' ''link.yaml''"
  by (rule tool_ignores_source [THEN conjunct1]) simp

end
