(* ===== verification/Spec2Isabelle.thy ===== *)
theory Spec2Isabelle
  imports Prelude GoStrings GoNumeric GoNet ApiTypes NetLib Utils Registry Qdisc Veth Vxlan Metrics GrpcWire Frames
    Clientset DeepCopy RequestContext Daemon Services Handlers Pods Safety Startup Protocol Ends Plugin Controller
    Converge CniConfig Bindings Bypass Process Manager Tool
begin

text \<open>
  A verification development of KubeDTN.

  KubeDTN emulates networks between the pods of a Kubernetes cluster. A \<open>Topology\<close> resource names the
  links of a pod and their properties (latency, loss, rate and so on). The parts of the system:

  \<^item> the controller (\<open>controllers/topology_controller.go\<close>) compares the links of the specification with
    those of the status and calls the daemon of the node of the pod;
  \<^item> the daemon on every node (\<open>daemon/\<close>) creates, changes and removes the interfaces of pods: veth pairs
    on one host, VXLAN tunnels or gRPC wires between hosts, macvlan and physical links; daemons call
    each other for the other end of a link;
  \<^item> the CNI plugin (\<open>plugin/kube_dtn.go\<close>) tells the daemon about pods that start and end;
  \<^item> the tool (\<open>cmd/main.go\<close>) connects a physical host; the bypass (\<open>bpf/\<close>) loads eBPF programs; \<open>main.go\<close> starts
    the controller.

  \<^bold>\<open>How programs are modelled.\<close> \<open>Prelude\<close>: a Go function with effects is a function from a state to a
  result and a state; the result is a value or an abort, which is a panic, a fatal exit or a wait that
  never ends. A function that returns an error returns an \<open>option\<close> or a sum. Numbers have the width they
  have in Go, slices that may be nil are optional lists, pointers into shared objects are addresses of
  an explicit memory. Loops are recursive functions of their own.

  \<^bold>\<open>What is not in the repository is a parameter.\<close> The kernel interface and the packages netlink, koko,
  pcap and the namespaces are the record \<open>netlib\<close> (\<open>NetLib\<close>), the API server and the REST client the
  record \<open>rest\<close> (\<open>Clientset\<close>), the call of another daemon the record
  \<open>remote_rpcs\<close> and the calls of the clients of a daemon the record \<open>rpcs\<close> (\<open>Utils\<close>); \<open>env\<close> (\<open>Daemon\<close>) holds
  all of them with the clock and the informer. The dissector \<open>gopacket\<close>, the CNI libraries, the eBPF
  library and the clients of the start-up are records of their theories. Properties hold for all values
  of these records, or for those that satisfy a named predicate: \<open>vxlan_host\<close> and \<open>veth_host\<close> (an interface
  that was created is there), \<open>removal_once\<close> (an interface is removed once), \<open>proto_size_ok\<close> (the size of
  an empty message), \<open>retry_ok\<close> (the retry of client-go runs its function some number of times),
  \<open>prints\<close> (the printer of the CNI library writes the
  result or reports an error), \<open>payload_shorter\<close> (the payload of a VLAN header is shorter than its packet), \<open>file_system\<close> (files keep
  what is written), \<open>deep_copy\<close> (a copy denotes what the original denotes and shares no memory with it, for
  the metadata of Kubernetes). Each property with such a hypothesis has a witness on a concrete value.

  \<^bold>\<open>The theories\<close>, in the order of their imports:

  \<^item> \<open>Prelude\<close>, \<open>GoStrings\<close>, \<open>GoNumeric\<close>, \<open>GoNet\<close>: effects and their judgements (\<open>preserves\<close>, \<open>unchanged\<close>,
    \<open>returns\<close>), and what the sources use of the Go packages strings, strconv, time, path/filepath and net.
    A parser of an IPv6 address runs for eight groups, the number that exist; other loops have the length of
    their input as a bound.
  \<^item> \<open>ApiTypes\<close> (\<open>api/v1/topology_types.go\<close>): the resource, the protocol messages, the conversions.
  \<^item> \<open>NetLib\<close>: the host; \<open>recording\<close> logs every request that changes it, and \<open>emits\<close> speaks about the log.
  \<^item> \<open>Utils\<close> (\<open>common/utils.go\<close>): VNI arithmetic, mutexes per link, the call of a peer.
  \<^item> \<open>Qdisc\<close> (\<open>common/qdisc.go\<close>): parsers of rates, durations and percentages with the exact languages and
    values, the disciplines built from the properties, the requests that install them.
  \<^item> \<open>Veth\<close> (\<open>common/veth.go\<close>): veth pairs, their requests in every case and idempotence.
  \<^item> \<open>Registry\<close>: the contract of a table, as locales; \<open>Vxlan\<close>, \<open>Metrics\<close> and \<open>GrpcWire\<close> interpret it on
    their tables: a lookup finds what was written last.
  \<^item> \<open>Vxlan\<close> (\<open>daemon/vxlan\<close>): the source interface, tunnels and their requests, the table of VNIs.
  \<^item> \<open>Metrics\<close> (\<open>daemon/metrics\<close>): the table of topologies, the collector of interface statistics and
    the registration of the collectors.
  \<^item> \<open>GrpcWire\<close> (\<open>daemon/grpcwire\<close>, wire handlers of \<open>handler.go\<close>): the table of wires and its invariant over
    all reachable states, unique interface names, delivery of packets.
  \<^item> \<open>Frames\<close>: the receive thread of a wire and the decoders of frames. The decoders recurse on data of the
    dissector, so they are partial functions; a property shows that they end.
  \<^item> \<open>Clientset\<close> (\<open>api/clientset\<close>): construction and requests of the client for topologies.
  \<^item> \<open>DeepCopy\<close> (\<open>api/v1/zz_generated.deepcopy.go\<close>): deep copies on a memory of arrays that slices refer to.
    The contract of a copy is a locale; slices, specifications and statuses interpret it, and it carries
    over from fields to structures and from elements to lists.
  \<^item> \<open>RequestContext\<close> (\<open>common/context.go\<close>): contexts are maps; the setting for the bypass reaches \<open>Qdisc\<close>.
  \<^item> \<open>Daemon\<close> (\<open>daemon/kubedtn/handler.go\<close>): the state of the daemon, \<open>KubeDTN\<close>, and all handlers.
    \<open>Handlers\<close>: mutexes and batches of links; the batch handlers interpret a locale. \<open>Pods\<close>: what
    \<open>SetAlive\<close>, \<open>delLink\<close> and \<open>DestroyPod\<close> do. \<open>Services\<close>: the handlers as answers to calls.
  \<^item> \<open>Safety\<close>: Hoare triples; every handler keeps the pointers of the daemon valid, and none panics but
    for a batch of links without a pod.
    \<open>Startup\<close> (\<open>daemon/kubedtn/kubedtn.go\<close>): \<open>New\<close>, and the states a daemon reaches by serving requests.
  \<^item> \<open>Protocol\<close>: several daemons adding, deleting and updating links at once, as an interleaving of atomic
    steps that is shown equal to the handlers, with a kind of thread for every branch of \<open>addLink\<close>. No
    deadlock: until all calls have ended one of them can act, without a connection that breaks. \<open>Ends\<close>:
    what the calls make of the tables of network identifiers. The ends that the calls add are recorded
    when they have ended, whatever else is deleted, as long as nothing adds or deletes the same
    identifier under another namespace; a run in which that happens loses an end.
  \<^item> \<open>Plugin\<close> (\<open>plugin/kube_dtn.go\<close>): the commands, run against the handlers of the daemon.
  \<^item> \<open>Controller\<close>: \<open>CalcDiff\<close> and the reconciliation. \<open>Converge\<close>: the network of a pod as a map from links to
    properties, what a log of calls may make of it, and that attempts converge to the specification on the links
    for which the calls did what they were asked.
  \<^item> \<open>CniConfig\<close> (\<open>daemon/cni/cni.go\<close>), \<open>Bindings\<close> (\<open>bpf/redir_bpf.go\<close> and the like), \<open>Bypass\<close> (\<open>bpf/main.go\<close>),
    \<open>Process\<close> (\<open>daemon/main.go\<close>), \<open>Manager\<close> (\<open>main.go\<close>), \<open>Tool\<close> (\<open>cmd/main.go\<close>): installation of the plugin, the
    bypass programs, the life of the two processes, the tool.

  This theory puts the controller and a daemon together.

  \<^bold>\<open>Not modelled.\<close> Logging, except for the loggers in contexts. The protocol messages and services generated
  by protoc; the messages used are records. The HTTP endpoint of the metrics, \<open>Serve\<close>, \<open>Stop\<close> and the
  interceptors of the gRPC server, and the start of the informer: they only pass values to libraries.
  The types of specifications in the eBPF bindings, which nothing uses. Requests to one daemon are atomic
  in \<open>Handlers\<close>, \<open>Pods\<close> and \<open>Startup\<close>; their interleaving is modelled in \<open>Protocol\<close> for links, from the
  moment the peer has been looked up, and not for gRPC wires. The maps of \<open>TopologyManager\<close> are accessed by handlers and by the collector without a
  mutex; data races on them are not modelled.
\<close>

section \<open>The controller and a daemon together\<close>

lemma rpc_success:
  assumes "check (ext (\<lambda>d. (None, d))) (bnd (ext f) (\<lambda>r. ret (rpc_error r))) d = (Done None, d')"
  shows "\<exists>response. f d = (Inr response, d')"
  using assms by (cases "f d") (auto simp: check_def bnd_ext ret_run rpc_error_def split: sum.splits)

lemma answer_batch:
  assumes "\<exists>response. answer (respond (foreach f ls)) d = (Inr response, d')"
  shows "foreach f ls d = (Done None, d')"
  using assms by (auto simp: answer_Inr_iff respond_None)

text \<open>The handlers on the query of the controller, which always names a pod.\<close>

lemma batch_query_handlers:
  "AddLinks E (batch_query t links) = respond (foreach (addLink E (batch_pod t)) (map Link_ToProto links))"
  "DelLinks E (batch_query t links) = respond (foreach (delLink E (batch_pod t)) (map Link_ToProto links))"
  "UpdateLinks E (batch_query t links) = respond (foreach (updateLink E (batch_pod t)) (map Link_ToProto links))"
  by (simp_all add: AddLinks_def DelLinks_def UpdateLinks_def batch_query_def Map_map)

text \<open>
  C1: If the calls of the controller are answered by the daemon, a call that the controller counts as
  successful means that the daemon has added, deleted or updated every link of the list without error,
  in order, for the pod of the topology: its name and namespace, and the address and network namespace
  in its status.
\<close>

theorem controller_calls_complete:
  assumes "cl_rpc K = daemon_rpcs E retry" and "links \<noteq> []"
    and "pod = \<lparr> pod_name = Name t, pod_src_ip = SrcIP (Status t), pod_net_ns = NetNs (Status t),
      pod_kube_ns = Namespace t, pod_links = [] \<rparr>"
  shows "(Reconciler_AddLinks K t links d = (Done None, d') \<longrightarrow>
      foreach (addLink E pod) (map Link_ToProto links) d = (Done None, d'))
    \<and> (Reconciler_DelLinks K t links d = (Done None, d') \<longrightarrow>
      foreach (delLink E pod) (map Link_ToProto links) d = (Done None, d'))
    \<and> (Reconciler_UpdateLinks K t links d = (Done None, d') \<longrightarrow>
      foreach (updateLink E pod) (map Link_ToProto links) d = (Done None, d'))"
proof -
  have pod: "batch_pod t = pod" by (simp add: batch_pod_def assms(3))
  let ?q = "batch_query t links"
  have "Reconciler_AddLinks K t links d = (Done None, d') \<Longrightarrow> \<exists>b. answer (AddLinks E ?q) d = (Inr b, d')"
    using assms by (auto simp: Reconciler_AddLinks_def ConnectDaemon_def daemon_rpcs_def dest!: rpc_success)
  moreover have "Reconciler_DelLinks K t links d = (Done None, d') \<Longrightarrow> \<exists>b. answer (DelLinks E ?q) d = (Inr b, d')"
    using assms by (auto simp: Reconciler_DelLinks_def ConnectDaemon_def daemon_rpcs_def dest!: rpc_success)
  moreover have "Reconciler_UpdateLinks K t links d = (Done None, d') \<Longrightarrow> \<exists>b. answer (UpdateLinks E ?q) d = (Inr b, d')"
    using assms by (auto simp: Reconciler_UpdateLinks_def ConnectDaemon_def daemon_rpcs_def dest!: rpc_success)
  ultimately show ?thesis unfolding batch_query_handlers pod by (intro conjI impI answer_batch) blast+
qed

definition demo_cluster :: "(unit daemon) cluster" where
  "demo_cluster =
     \<lparr> cl_Get = (\<lambda>req d. (Inl NotFound, d)), cl_StatusUpdate = (\<lambda>t d. (None, d)),
       cl_rpc = daemon_rpcs quiet_env (\<lambda>f. f), cl_retry = (\<lambda>f. f) \<rparr>"

lemma demo_cluster_rpc: "cl_rpc demo_cluster = daemon_rpcs quiet_env (\<lambda>f. f)"
  by (simp add: demo_cluster_def)

lemma demo_controller_add:
  "\<exists>d. Reconciler_AddLinks demo_cluster (topology_with [] []) [link_to ''localhost'' 2 []] (demo_daemon ()) = (Done None, d)"
  by (simp add: Reconciler_AddLinks_def ConnectDaemon_def demo_cluster_rpc daemon_rpcs_def check_def bnd_ext answer_def
      await_def batch_query_handlers respond_def link_to_def Link_ToProto_def addLink_def MakeVeth_def Localhost_def
      hosted_def zoom_run ext_run quiet_env_def quiet_host_def bnd_def ret_run rpc_error_def)

theorem controller_calls_complete_witness:
  "\<exists>d. Reconciler_AddLinks demo_cluster (topology_with [] []) [link_to ''localhost'' 2 []] (demo_daemon ()) = (Done None, d)
     \<and> foreach (addLink quiet_env (batch_pod (topology_with [] [])))
         (map Link_ToProto [link_to ''localhost'' 2 []]) (demo_daemon ()) = (Done None, d)"
  using demo_controller_add
    controller_calls_complete [OF demo_cluster_rpc, of "[link_to ''localhost'' 2 []]" _ "topology_with [] []", OF _ batch_pod_def]
  by blast

end
